theory Spec2Isabelle
  imports Main "HOL-Library.Word" "HOL-Library.Char_ord" "HOL-Library.List_Lexorder"
begin

unbundle bit_operations_syntax

section \<open>Shader manager of 0 A.D. (graphics/ShaderManager.cpp)\<close>

text \<open>
  A shallow embedding of \<^verbatim>\<open>CShaderManager\<close>: the program cache, the effect cache, the
  technique selection, the pipeline state built for each pass and the hotload table.
  Every call that leaves the manager (loading a document, validating it, testing a
  preprocessor conditional, \<^verbatim>\<open>LOGERROR\<close>, \<^verbatim>\<open>debug_warn\<close>, reloading a program) is
  recorded, in order, in a trace that is part of the state.
\<close>

subsection \<open>Documents\<close>

text \<open>
  An element of a loaded XMB document: node name, attribute list, child elements in
  document order. \<^verbatim>\<open>XERO_ITER_EL(parent, child)\<close> runs over \<open>GetChildNodes parent\<close>.
\<close>

datatype XMBElement =
  XMBElement (GetNodeName: string) (GetAttributes: "(string \<times> string) list")
    (GetChildNodes: "XMBElement list")

text \<open>
  Modelled from the spec: \<^verbatim>\<open>XMBAttributeList::GetNamedItem\<close> (ps/XML, outside these
  sources). An attribute absent from the markup reads as the empty string, which is what
  every \<^verbatim>\<open>.empty()\<close> test of the manager relies on.
\<close>

definition GetNamedItem :: "(string \<times> string) list \<Rightarrow> string \<Rightarrow> string" where
  "GetNamedItem as a = (case map_of as a of None \<Rightarrow> [] | Some v \<Rightarrow> v)"

subsection \<open>Define sets\<close>

text \<open>
  Modelled from the spec: \<^verbatim>\<open>CShaderDefines\<close> (graphics/ShaderDefines, outside these
  sources). An ordered mapping of name to value: the items are kept sorted by name, and
  \<open>Add\<close> inserts a new name at its place or overwrites the value of a name already there.
  Two define sets are equal when their item sequences are.
\<close>

type_synonym CShaderDefines = "(string \<times> string) list"

fun Add :: "string \<Rightarrow> string \<Rightarrow> CShaderDefines \<Rightarrow> CShaderDefines" where
  "Add n v [] = [(n, v)]"
| "Add n v ((m, w) # xs) =
     (if n = m then (n, v) # xs
      else if n < m then (n, v) # (m, w) # xs
      else (m, w) # Add n v xs)"

text \<open>A define set built by adding the given pairs, one after the other, to the empty set.\<close>

definition AddAll :: "(string \<times> string) list \<Rightarrow> CShaderDefines \<Rightarrow> CShaderDefines" where
  "AddAll ps d = foldl (\<lambda>acc p. Add (fst p) (snd p) acc) d ps"

subsection \<open>Cache keys\<close>

type_synonym size_t = "64 word"

text \<open>\<^verbatim>\<open>struct CacheKey { name; defines; }\<close>, the key of the program cache.\<close>

type_synonym CacheKey = "string \<times> CShaderDefines"

text \<open>
  \<^verbatim>\<open>struct EffectCacheKey { CStrIntern name; CShaderDefines defines; }\<close>, the key of
  the effect cache, with the fields \<open>key_name\<close> and \<open>key_defines\<close>.
\<close>

record EffectCacheKey =
  key_name :: string
  key_defines :: CShaderDefines

text \<open>
  The hash functions the key hash is built from are declared outside these sources
  (\<^verbatim>\<open>CStrIntern::GetHash\<close>, \<^verbatim>\<open>CShaderDefines::GetHash\<close>, \<^verbatim>\<open>hash_combine\<close> of
  lib/hash.h); they are parameters. \<open>hash_combine h seed v\<close> is the new value of the seed.
\<close>

record Hashing =
  name_GetHash :: "string \<Rightarrow> size_t"
  defines_GetHash :: "CShaderDefines \<Rightarrow> size_t"
  hash_combine :: "size_t \<Rightarrow> size_t \<Rightarrow> size_t"

text \<open>\<^verbatim>\<open>CShaderManager::EffectCacheKeyHash::operator()\<close>\<close>

definition EffectCacheKeyHash :: "Hashing \<Rightarrow> EffectCacheKey \<Rightarrow> size_t" where
  "EffectCacheKeyHash h key =
     (let hash = 0;
          hash = hash_combine h hash (name_GetHash h (key_name key));
          hash = hash_combine h hash (defines_GetHash h (key_defines key))
      in hash)"

text \<open>\<^verbatim>\<open>CShaderManager::EffectCacheKey::operator==\<close>\<close>

definition EffectCacheKey_eq :: "EffectCacheKey \<Rightarrow> EffectCacheKey \<Rightarrow> bool" where
  "EffectCacheKey_eq a b \<longleftrightarrow> key_name a = key_name b \<and> key_defines a = key_defines b"

subsection \<open>Pipeline state descriptor\<close>

text \<open>
  The enumerations of the rendering backend (blend factors, compare operations and so
  on) are declared outside these sources together with their parsers; a value of one of
  them is represented by its underlying integer, and the parsers are parameters.
\<close>

type_synonym BlendFactor = nat
type_synonym BlendOp = nat
type_synonym CullMode = nat
type_synonym FrontFace = nat
type_synonym PolygonMode = nat
type_synonym CompareOp = nat
type_synonym StencilOp = nat
type_synonym CColor = "int \<times> int \<times> int \<times> int"
type_synonym uint32_t = "32 word"

record BlendStateDesc =
  enabled :: bool
  srcColorBlendFactor :: BlendFactor
  dstColorBlendFactor :: BlendFactor
  srcAlphaBlendFactor :: BlendFactor
  dstAlphaBlendFactor :: BlendFactor
  colorBlendOp :: BlendOp
  alphaBlendOp :: BlendOp
  constant' :: CColor
  colorWriteMask :: uint32_t

record RasterizationStateDesc =
  polygonMode :: PolygonMode
  cullMode :: CullMode
  frontFace :: FrontFace

record StencilOpState =
  compareOp :: CompareOp
  failOp :: StencilOp
  passOp :: StencilOp
  depthFailOp :: StencilOp

record DepthStencilStateDesc =
  depthTestEnabled :: bool
  depthCompareOp :: CompareOp
  depthWriteEnabled :: bool
  stencilTestEnabled :: bool
  stencilReference :: uint32_t
  stencilReadMask :: uint32_t
  stencilWriteMask :: uint32_t
  stencilFrontFace :: StencilOpState
  stencilBackFace :: StencilOpState

record GraphicsPipelineStateDesc =
  depthStencilState :: DepthStencilStateDesc
  blendState :: BlendStateDesc
  rasterizationState :: RasterizationStateDesc

text \<open>
  Modelled from the spec: the channel bits of \<^verbatim>\<open>Renderer::Backend::ColorWriteMask\<close>
  (outside these sources): four independent channels combined into one write-mask
  bitfield, one bit each.
\<close>

definition RED :: uint32_t where "RED = 1"
definition GREEN :: uint32_t where "GREEN = 2"
definition BLUE :: uint32_t where "BLUE = 4"
definition ALPHA :: uint32_t where "ALPHA = 8"

subsection \<open>Programs, techniques and the state of the manager\<close>

type_synonym VfsPath = string
type_synonym GLenum = "32 word"

text \<open>The OpenGL texture targets named by \<^verbatim>\<open>NewProgram\<close> (values of the GL headers).\<close>

definition GL_TEXTURE_1D :: GLenum where "GL_TEXTURE_1D = 0x0DE0"
definition GL_TEXTURE_2D :: GLenum where "GL_TEXTURE_2D = 0x0DE1"
definition GL_TEXTURE_3D :: GLenum where "GL_TEXTURE_3D = 0x806F"
definition GL_TEXTURE_CUBE_MAP :: GLenum where "GL_TEXTURE_CUBE_MAP = 0x8513"

text \<open>
  Modelled from the spec: the vertex-stream flags of graphics/ShaderProgram.h (outside
  these sources), one bit for each vertex attribute a program consumes.
\<close>

definition STREAM_POS :: int where "STREAM_POS = 1"
definition STREAM_NORMAL :: int where "STREAM_NORMAL = 2"
definition STREAM_COLOR :: int where "STREAM_COLOR = 4"
definition STREAM_UV0 :: int where "STREAM_UV0 = 8"
definition STREAM_UV1 :: int where "STREAM_UV1 = 16"
definition STREAM_UV2 :: int where "STREAM_UV2 = 32"
definition STREAM_UV3 :: int where "STREAM_UV3 = 64"

text \<open>
  Modelled from the spec: a program object (\<^verbatim>\<open>CShaderProgram\<close>, outside these sources)
  is identified by what it was constructed from: the resolved vertex and fragment files,
  the defines, the bindings and the stream flags, in one of the two backend flavours.
\<close>

datatype CShaderProgram =
  ConstructGLSL VfsPath VfsPath CShaderDefines "string \<rightharpoonup> int" int
| ConstructARB VfsPath VfsPath CShaderDefines "string \<rightharpoonup> int" "string \<rightharpoonup> int \<times> GLenum" int

text \<open>
  A shared pointer to a program is the address of a live program object, or null
  (\<open>None\<close>). A weak pointer is an address too; it resolves while the object is live.
  Addresses are never reused.
\<close>

type_synonym CShaderProgramPtr = "nat option"
type_synonym CShaderTechniquePtr = "nat option"

record CShaderPass =
  pipelineStateDesc :: GraphicsPipelineStateDesc
  shader :: CShaderProgramPtr

record CShaderTechnique =
  sortByDistance :: bool
  passes :: "CShaderPass list"

text \<open>
  The calls that leave the manager, as they appear in the trace.

  Modelled from the spec: \<^verbatim>\<open>debug_warn\<close> (lib/debug.h, outside these sources) raises a
  diagnostic and returns to its caller: after ``Can't find a usable technique'' the
  resolution goes on to fail, to be logged and to be cached as a failure.

  \<open>LOGERROR format argument\<close> stands for one call of \<^verbatim>\<open>LOGERROR\<close>; the formats are
  written without the quotation marks around \<^verbatim>\<open>%s\<close>.
\<close>

datatype event =
  XeroFile_Load VfsPath
| ValidateEncoded string
| TestConditional_call string
| LOGERROR string string
| debug_warn string
| Reload nat

datatype Backend = GL | GL_ARB | OtherBackend

text \<open>
  The collaborators of the manager that are outside these sources, as parameters:
  the virtual file system with the document parser (\<open>Load\<close> is \<open>None\<close> when
  \<^verbatim>\<open>XeroFile.Load\<close> does not return \<^verbatim>\<open>PSRETURN_OK\<close>), the grammar validator, the
  preprocessor (\<open>TestConditional env defines cond\<close> for a preprocessor to which
  \<open>defines\<close> were added), the video mode, the build configuration, the string
  conversions (\<open>ToULong\<close> with the conversion to the 32-bit field it is assigned to),
  the parsers of the backend and the engine-wide default descriptor.
\<close>

record Env =
  AddValidator :: bool
  Load :: "VfsPath \<Rightarrow> XMBElement option"
  Validate :: "string \<Rightarrow> XMBElement \<Rightarrow> bool"
  TestConditional :: "CShaderDefines \<Rightarrow> string \<Rightarrow> bool"
  GetBackend :: Backend
  ARBShaders :: bool
  CONFIG2_GLES :: bool
  ToInt :: "string \<Rightarrow> int"
  ToULong :: "string \<Rightarrow> uint32_t"
  ParseBlendFactor :: "string \<Rightarrow> BlendFactor"
  ParseBlendOp :: "string \<Rightarrow> BlendOp"
  ParseCullMode :: "string \<Rightarrow> CullMode"
  ParseFrontFace :: "string \<Rightarrow> FrontFace"
  ParseCompareOp :: "string \<Rightarrow> CompareOp"
  ParsePolygonMode :: "string \<Rightarrow> PolygonMode"
  ParseStencilOp :: "string \<Rightarrow> StencilOp"
  ParseString :: "CColor \<Rightarrow> string \<Rightarrow> bool \<times> CColor"
  MakeDefaultGraphicsPipelineStateDesc :: GraphicsPipelineStateDesc
  GetFileDependencies :: "CShaderProgram \<Rightarrow> VfsPath list"

record CShaderManager =
  m_ProgramCache :: "CacheKey \<rightharpoonup> CShaderProgramPtr"
  m_EffectCache :: "EffectCacheKey \<rightharpoonup> CShaderTechniquePtr"
  m_HotloadFiles :: "VfsPath \<rightharpoonup> CShaderProgramPtr list"
  programs :: "nat \<rightharpoonup> CShaderProgram"
  techniques :: "nat \<rightharpoonup> CShaderTechnique"
  next_address :: nat
  trace :: "event list"

definition emit :: "event \<Rightarrow> CShaderManager \<Rightarrow> CShaderManager" where
  "emit e s = s\<lparr>trace := trace s @ [e]\<rparr>"

text \<open>\<^verbatim>\<open>CShaderManager::CShaderManager\<close>: empty caches, and an error when the grammar is missing.\<close>

definition CShaderManager_new :: "Env \<Rightarrow> CShaderManager" where
  "CShaderManager_new env =
     \<lparr>m_ProgramCache = Map.empty, m_EffectCache = Map.empty, m_HotloadFiles = Map.empty,
      programs = Map.empty, techniques = Map.empty, next_address = 0,
      trace = (if \<not> AddValidator env
               then [LOGERROR ''CShaderManager: failed to load grammar shaders/program.rng'' []]
               else [])\<rparr>"

subsection \<open>Hotload table\<close>

text \<open>
  \<^verbatim>\<open>m_HotloadFiles\<close> maps a path to a set of weak pointers. The set is kept as a list
  without repetitions, which fixes one order in which the loop of \<open>ReloadChangedFile\<close>
  visits its members.

  \<^verbatim>\<open>CShaderManager::AddProgramFileDependency\<close>: \<^verbatim>\<open>m_HotloadFiles[path].insert(program)\<close>
\<close>

definition AddProgramFileDependency ::
    "CShaderProgramPtr \<Rightarrow> VfsPath \<Rightarrow> CShaderManager \<Rightarrow> CShaderManager" where
  "AddProgramFileDependency program path s =
     s\<lparr>m_HotloadFiles := (m_HotloadFiles s)
         (path \<mapsto> List.insert program
            (case m_HotloadFiles s path of None \<Rightarrow> [] | Some files \<Rightarrow> files))\<rparr>"

text \<open>\<^verbatim>\<open>ptr.lock()\<close>: the shared pointer of a weak pointer, null once the object is gone.\<close>

definition lock :: "CShaderManager \<Rightarrow> CShaderProgramPtr \<Rightarrow> CShaderProgramPtr" where
  "lock s ptr =
     (case ptr of None \<Rightarrow> None
      | Some a \<Rightarrow> if a \<in> dom (programs s) then Some a else None)"

text \<open>The last owner of a program lets go of it: the object is destroyed.\<close>

definition destroy :: "nat \<Rightarrow> CShaderManager \<Rightarrow> CShaderManager" where
  "destroy a s = s\<lparr>programs := (programs s)(a := None)\<rparr>"

type_synonym Status = int

definition INFO_OK :: Status where "INFO_OK = 0"

text \<open>The body of the loop of \<^verbatim>\<open>ReloadChangedFile\<close>.\<close>

definition reloadIfAlive :: "CShaderManager \<Rightarrow> CShaderProgramPtr \<Rightarrow> CShaderManager" where
  "reloadIfAlive s ptr =
     (case lock s ptr of None \<Rightarrow> s | Some program \<Rightarrow> emit (Reload program) s)"

text \<open>\<^verbatim>\<open>CShaderManager::ReloadChangedFile\<close>\<close>

definition ReloadChangedFile :: "VfsPath \<Rightarrow> CShaderManager \<Rightarrow> Status \<times> CShaderManager" where
  "ReloadChangedFile path s =
     (case m_HotloadFiles s path of
        None \<Rightarrow> (INFO_OK, s)
      | Some files \<Rightarrow> (INFO_OK, foldl reloadIfAlive s files))"

subsection \<open>Loading a program\<close>

text \<open>
  \<^verbatim>\<open>ParseAttribSemantics\<close>: the attribute location of a semantics string, with the
  diagnostics raised on the way.
\<close>

definition ParseAttribSemantics :: "string \<Rightarrow> GLenum \<times> event list" where
  "ParseAttribSemantics str =
     (if str = ''gl_Vertex'' then (0, [])
      else if str = ''gl_Normal'' then (2, [])
      else if str = ''gl_Color'' then (3, [])
      else if str = ''gl_SecondaryColor'' then (4, [])
      else if str = ''gl_FogCoord'' then (5, [])
      else if str = ''gl_MultiTexCoord0'' then (8, [])
      else if str = ''gl_MultiTexCoord1'' then (9, [])
      else if str = ''gl_MultiTexCoord2'' then (10, [])
      else if str = ''gl_MultiTexCoord3'' then (11, [])
      else if str = ''gl_MultiTexCoord4'' then (12, [])
      else if str = ''gl_MultiTexCoord5'' then (13, [])
      else if str = ''gl_MultiTexCoord6'' then (14, [])
      else if str = ''gl_MultiTexCoord7'' then (15, [])
      else if str = ''CustomAttribute0'' then (1, [])
      else if str = ''CustomAttribute1'' then (6, [])
      else if str = ''CustomAttribute2'' then (7, [])
      else (0, [debug_warn ''Invalid attribute semantics'']))"

text \<open>The locals of \<^verbatim>\<open>NewProgram\<close> that its loops update.\<close>

record ProgramLocals =
  vertexFile :: VfsPath
  fragmentFile :: VfsPath
  programDefines :: CShaderDefines
  vertexUniforms :: "string \<rightharpoonup> int"
  fragmentUniforms :: "string \<rightharpoonup> int \<times> GLenum"
  vertexAttribs :: "string \<rightharpoonup> int"
  streamFlags :: int

text \<open>
  The test at the head of both parameter loops:
  \<^verbatim>\<open>if (!cond.empty() && !preprocessor.TestConditional(cond)) continue;\<close>
  The result is whether the parameter is skipped, and the trace.
\<close>

definition condSkips :: "Env \<Rightarrow> CShaderDefines \<Rightarrow> string \<Rightarrow> event list \<Rightarrow> bool \<times> event list" where
  "condSkips env baseDefines cond tr =
     (if cond \<noteq> [] then (\<not> TestConditional env baseDefines cond, tr @ [TestConditional_call cond])
      else (False, tr))"

definition streamFlag :: "string \<Rightarrow> int" where
  "streamFlag StreamName =
     (if StreamName = ''pos'' then STREAM_POS
      else if StreamName = ''normal'' then STREAM_NORMAL
      else if StreamName = ''color'' then STREAM_COLOR
      else if StreamName = ''uv0'' then STREAM_UV0
      else if StreamName = ''uv1'' then STREAM_UV1
      else if StreamName = ''uv2'' then STREAM_UV2
      else if StreamName = ''uv3'' then STREAM_UV3
      else 0)"

text \<open>The body of the loop over the children of a \<^verbatim>\<open>vertex\<close> element.\<close>

definition vertexParam ::
    "Env \<Rightarrow> CShaderDefines \<Rightarrow> ProgramLocals \<times> event list \<Rightarrow> XMBElement
       \<Rightarrow> ProgramLocals \<times> event list" where
  "vertexParam env baseDefines st Param =
     (let l = fst st;
          Attrs = GetAttributes Param;
          (skip, tr) = condSkips env baseDefines (GetNamedItem Attrs ''if'') (snd st)
      in if skip then (l, tr)
         else if GetNodeName Param = ''uniform'' then
           (l\<lparr>vertexUniforms := (vertexUniforms l)
                (GetNamedItem Attrs ''name'' \<mapsto> ToInt env (GetNamedItem Attrs ''loc''))\<rparr>, tr)
         else if GetNodeName Param = ''stream'' then
           (l\<lparr>streamFlags := streamFlags l OR streamFlag (GetNamedItem Attrs ''name'')\<rparr>, tr)
         else if GetNodeName Param = ''attrib'' then
           (let (attribLoc, warnings) = ParseAttribSemantics (GetNamedItem Attrs ''semantics'')
            in (l\<lparr>vertexAttribs := (vertexAttribs l)
                     (GetNamedItem Attrs ''name'' \<mapsto> uint attribLoc)\<rparr>, tr @ warnings))
         else (l, tr))"

text \<open>
  The texture target of a fragment uniform of type \<open>t\<close>, with the diagnostics raised.
  On a build with \<^verbatim>\<open>CONFIG2_GLES\<close> the 1D and 3D branches only warn.
\<close>

definition samplerType :: "bool \<Rightarrow> string \<Rightarrow> GLenum \<times> event list" where
  "samplerType gles t =
     (let type = GL_TEXTURE_2D
      in if t = ''sampler1D'' then
           (if gles then (type, [debug_warn ''sampler1D not implemented on GLES''])
            else (GL_TEXTURE_1D, []))
         else if t = ''sampler2D'' then (GL_TEXTURE_2D, [])
         else if t = ''sampler3D'' then
           (if gles then (type, [debug_warn ''sampler3D not implemented on GLES''])
            else (GL_TEXTURE_3D, []))
         else if t = ''samplerCube'' then (GL_TEXTURE_CUBE_MAP, [])
         else (type, []))"

text \<open>The body of the loop over the children of a \<^verbatim>\<open>fragment\<close> element.\<close>

definition fragmentParam ::
    "Env \<Rightarrow> CShaderDefines \<Rightarrow> ProgramLocals \<times> event list \<Rightarrow> XMBElement
       \<Rightarrow> ProgramLocals \<times> event list" where
  "fragmentParam env baseDefines st Param =
     (let l = fst st;
          Attrs = GetAttributes Param;
          (skip, tr) = condSkips env baseDefines (GetNamedItem Attrs ''if'') (snd st)
      in if skip then (l, tr)
         else if GetNodeName Param = ''uniform'' then
           (let (type, warnings) = samplerType (CONFIG2_GLES env) (GetNamedItem Attrs ''type'')
            in (l\<lparr>fragmentUniforms := (fragmentUniforms l)
                     (GetNamedItem Attrs ''name'' \<mapsto> (ToInt env (GetNamedItem Attrs ''loc''), type))\<rparr>,
                tr @ warnings))
         else (l, tr))"

text \<open>The body of the loop over the children of the root of a program document.\<close>

definition programChild ::
    "Env \<Rightarrow> CShaderDefines \<Rightarrow> ProgramLocals \<times> event list \<Rightarrow> XMBElement
       \<Rightarrow> ProgramLocals \<times> event list" where
  "programChild env baseDefines st Child =
     (let l = fst st; tr = snd st
      in if GetNodeName Child = ''define'' then
           (l\<lparr>programDefines := Add (GetNamedItem (GetAttributes Child) ''name'')
                 (GetNamedItem (GetAttributes Child) ''value'') (programDefines l)\<rparr>, tr)
         else if GetNodeName Child = ''vertex'' then
           foldl (vertexParam env baseDefines)
             (l\<lparr>vertexFile := ''shaders/'' @ GetNamedItem (GetAttributes Child) ''file''\<rparr>, tr)
             (GetChildNodes Child)
         else if GetNodeName Child = ''fragment'' then
           foldl (fragmentParam env baseDefines)
             (l\<lparr>fragmentFile := ''shaders/'' @ GetNamedItem (GetAttributes Child) ''file''\<rparr>, tr)
             (GetChildNodes Child)
         else (l, tr))"

definition constructProgram :: "XMBElement \<Rightarrow> ProgramLocals \<Rightarrow> CShaderProgram" where
  "constructProgram root l =
     (if GetNamedItem (GetAttributes root) ''type'' = ''glsl''
      then ConstructGLSL (vertexFile l) (fragmentFile l) (programDefines l) (vertexAttribs l)
             (streamFlags l)
      else ConstructARB (vertexFile l) (fragmentFile l) (programDefines l) (vertexUniforms l)
             (fragmentUniforms l) (streamFlags l))"

text \<open>
  \<^verbatim>\<open>CShaderManager::NewProgram\<close>. The result is the returned flag, the program left in
  the out-parameter (null when the flag is false) and the state.
\<close>

definition NewProgram ::
    "Env \<Rightarrow> string \<Rightarrow> CShaderDefines \<Rightarrow> CShaderManager
       \<Rightarrow> bool \<times> CShaderProgramPtr \<times> CShaderManager" where
  "NewProgram env name baseDefines s0 =
     (let xmlFilename = ''shaders/'' @ name @ ''.xml'';
          s1 = emit (XeroFile_Load xmlFilename) s0
      in case Load env xmlFilename of
           None \<Rightarrow> (False, None, s1)
         | Some root \<Rightarrow>
             (let s2 = emit (ValidateEncoded name) s1
              in if \<not> Validate env name root then (False, None, s2)
                 else
                   (let (l, tr) = foldl (programChild env baseDefines)
                          (\<lparr>vertexFile = [], fragmentFile = [], programDefines = baseDefines,
                            vertexUniforms = Map.empty, fragmentUniforms = Map.empty,
                            vertexAttribs = Map.empty, streamFlags = 0\<rparr>, trace s2)
                          (GetChildNodes root);
                        program = constructProgram root l;
                        a = next_address s2;
                        s3 = s2\<lparr>programs := (programs s2)(a \<mapsto> program),
                                next_address := Suc a, trace := tr @ [Reload a]\<rparr>;
                        s4 = foldl (\<lambda>s path. AddProgramFileDependency (Some a) path s) s3
                               (GetFileDependencies env program)
                    in (True, Some a, s4))))"

text \<open>\<^verbatim>\<open>CShaderManager::LoadProgram\<close>\<close>

definition LoadProgram ::
    "Env \<Rightarrow> string \<Rightarrow> CShaderDefines \<Rightarrow> CShaderManager \<Rightarrow> CShaderProgramPtr \<times> CShaderManager" where
  "LoadProgram env name defs s =
     (let key = (name, defs)
      in case m_ProgramCache s key of
           Some program \<Rightarrow> (program, s)
         | None \<Rightarrow>
             (let (ok, program, s1) = NewProgram env name defs s;
                  (program, s2) =
                    (if \<not> ok then (None, emit (LOGERROR ''Failed to load shader %s'' name) s1)
                     else (program, s1))
              in (program, s2\<lparr>m_ProgramCache := (m_ProgramCache s2)(key \<mapsto> program)\<rparr>)))"

subsection \<open>The state overrides of a pass\<close>

text \<open>The \<^verbatim>\<open>blend\<close> branch: the blend state and the trace after the tag.\<close>

definition blendTag ::
    "Env \<Rightarrow> (string \<times> string) list \<Rightarrow> BlendStateDesc \<Rightarrow> event list
       \<Rightarrow> BlendStateDesc \<times> event list" where
  "blendTag env Attrs b0 tr =
     (let b1 = b0\<lparr>enabled := True\<rparr>;
          src = ParseBlendFactor env (GetNamedItem Attrs ''src'');
          b2 = b1\<lparr>srcColorBlendFactor := src, srcAlphaBlendFactor := src\<rparr>;
          dst = ParseBlendFactor env (GetNamedItem Attrs ''dst'');
          b3 = b2\<lparr>dstColorBlendFactor := dst, dstAlphaBlendFactor := dst\<rparr>;
          b4 = (if GetNamedItem Attrs ''op'' \<noteq> []
                then b3\<lparr>colorBlendOp := ParseBlendOp env (GetNamedItem Attrs ''op''),
                        alphaBlendOp := ParseBlendOp env (GetNamedItem Attrs ''op'')\<rparr>
                else b3)
      in if GetNamedItem Attrs ''constant'' \<noteq> [] then
           (let (ok, c) = ParseString env (constant' b4) (GetNamedItem Attrs ''constant'');
                b5 = b4\<lparr>constant' := c\<rparr>
            in if \<not> ok
               then (b5, tr @ [LOGERROR ''Failed to parse blend constant: %s''
                                 (GetNamedItem Attrs ''constant'')])
               else (b5, tr))
         else (b4, tr))"

text \<open>The macro \<^verbatim>\<open>MASK_CHANNEL(ATTRIBUTE, VALUE)\<close>, as a function of the mask.\<close>

definition MASK_CHANNEL ::
    "(string \<times> string) list \<Rightarrow> string \<Rightarrow> uint32_t \<Rightarrow> uint32_t \<Rightarrow> uint32_t" where
  "MASK_CHANNEL Attrs ATTRIBUTE VALUE writeMask =
     (if GetNamedItem Attrs ATTRIBUTE = ''TRUE'' then writeMask OR VALUE else writeMask)"

text \<open>The \<^verbatim>\<open>color\<close> branch.\<close>

definition colorTag :: "(string \<times> string) list \<Rightarrow> BlendStateDesc \<Rightarrow> BlendStateDesc" where
  "colorTag Attrs b =
     (let m0 = 0;
          m1 = MASK_CHANNEL Attrs ''mask_red'' RED m0;
          m2 = MASK_CHANNEL Attrs ''mask_green'' GREEN m1;
          m3 = MASK_CHANNEL Attrs ''mask_blue'' BLUE m2;
          m4 = MASK_CHANNEL Attrs ''mask_alpha'' ALPHA m3
      in b\<lparr>colorWriteMask := m4\<rparr>)"

text \<open>The \<^verbatim>\<open>cull\<close> branch.\<close>

definition cullTag ::
    "Env \<Rightarrow> (string \<times> string) list \<Rightarrow> RasterizationStateDesc \<Rightarrow> RasterizationStateDesc" where
  "cullTag env Attrs r0 =
     (let r1 = (if GetNamedItem Attrs ''mode'' \<noteq> []
                then r0\<lparr>cullMode := ParseCullMode env (GetNamedItem Attrs ''mode'')\<rparr> else r0);
          r2 = (if GetNamedItem Attrs ''front_face'' \<noteq> []
                then r1\<lparr>frontFace := ParseFrontFace env (GetNamedItem Attrs ''front_face'')\<rparr>
                else r1)
      in r2)"

text \<open>The \<^verbatim>\<open>depth\<close> branch.\<close>

definition depthTag ::
    "Env \<Rightarrow> (string \<times> string) list \<Rightarrow> DepthStencilStateDesc \<Rightarrow> DepthStencilStateDesc" where
  "depthTag env Attrs d0 =
     (let d1 = (if GetNamedItem Attrs ''test'' \<noteq> []
                then d0\<lparr>depthTestEnabled := (GetNamedItem Attrs ''test'' = ''TRUE'')\<rparr> else d0);
          d2 = (if GetNamedItem Attrs ''func'' \<noteq> []
                then d1\<lparr>depthCompareOp := ParseCompareOp env (GetNamedItem Attrs ''func'')\<rparr>
                else d1);
          d3 = (if GetNamedItem Attrs ''mask'' \<noteq> []
                then d2\<lparr>depthWriteEnabled := (GetNamedItem Attrs ''mask'' = ''true'')\<rparr> else d2)
      in d3)"

text \<open>The \<^verbatim>\<open>polygon\<close> branch.\<close>

definition polygonTag ::
    "Env \<Rightarrow> (string \<times> string) list \<Rightarrow> RasterizationStateDesc \<Rightarrow> RasterizationStateDesc" where
  "polygonTag env Attrs r =
     (if GetNamedItem Attrs ''mode'' \<noteq> []
      then r\<lparr>polygonMode := ParsePolygonMode env (GetNamedItem Attrs ''mode'')\<rparr> else r)"

text \<open>The \<^verbatim>\<open>stencil\<close> branch.\<close>

definition stencilTag ::
    "Env \<Rightarrow> (string \<times> string) list \<Rightarrow> DepthStencilStateDesc \<Rightarrow> DepthStencilStateDesc" where
  "stencilTag env Attrs d0 =
     (let d1 = (if GetNamedItem Attrs ''test'' \<noteq> []
                then d0\<lparr>stencilTestEnabled := (GetNamedItem Attrs ''test'' = ''TRUE'')\<rparr> else d0);
          d2 = (if GetNamedItem Attrs ''reference'' \<noteq> []
                then d1\<lparr>stencilReference := ToULong env (GetNamedItem Attrs ''reference'')\<rparr>
                else d1);
          d3 = (if GetNamedItem Attrs ''mask_read'' \<noteq> []
                then d2\<lparr>stencilReadMask := ToULong env (GetNamedItem Attrs ''mask_read'')\<rparr>
                else d2);
          d4 = (if GetNamedItem Attrs ''mask'' \<noteq> []
                then d3\<lparr>stencilWriteMask := ToULong env (GetNamedItem Attrs ''mask'')\<rparr>
                else d3);
          d5 = (if GetNamedItem Attrs ''compare'' \<noteq> []
                then d4\<lparr>stencilFrontFace := (stencilFrontFace d4)
                          \<lparr>compareOp := ParseCompareOp env (GetNamedItem Attrs ''compare'')\<rparr>,
                        stencilBackFace := (stencilBackFace d4)
                          \<lparr>compareOp := ParseCompareOp env (GetNamedItem Attrs ''compare'')\<rparr>\<rparr>
                else d4);
          d6 = (if GetNamedItem Attrs ''fail'' \<noteq> []
                then d5\<lparr>stencilFrontFace := (stencilFrontFace d5)
                          \<lparr>failOp := ParseStencilOp env (GetNamedItem Attrs ''fail'')\<rparr>,
                        stencilBackFace := (stencilBackFace d5)
                          \<lparr>failOp := ParseStencilOp env (GetNamedItem Attrs ''fail'')\<rparr>\<rparr>
                else d5);
          d7 = (if GetNamedItem Attrs ''pass'' \<noteq> []
                then d6\<lparr>stencilFrontFace := (stencilFrontFace d6)
                          \<lparr>passOp := ParseStencilOp env (GetNamedItem Attrs ''pass'')\<rparr>,
                        stencilBackFace := (stencilBackFace d6)
                          \<lparr>passOp := ParseStencilOp env (GetNamedItem Attrs ''pass'')\<rparr>\<rparr>
                else d6);
          d8 = (if GetNamedItem Attrs ''depth_fail'' \<noteq> []
                then d7\<lparr>stencilFrontFace := (stencilFrontFace d7)
                          \<lparr>depthFailOp := ParseStencilOp env (GetNamedItem Attrs ''depth_fail'')\<rparr>,
                        stencilBackFace := (stencilBackFace d7)
                          \<lparr>depthFailOp := ParseStencilOp env (GetNamedItem Attrs ''depth_fail'')\<rparr>\<rparr>
                else d7)
      in d8)"

text \<open>
  The body of the loop over the children of a \<^verbatim>\<open>pass\<close> element. It updates the defines
  of the pass, its pipeline state descriptor and the trace.
\<close>

definition passElement ::
    "Env \<Rightarrow> CShaderDefines \<times> GraphicsPipelineStateDesc \<times> event list \<Rightarrow> XMBElement
       \<Rightarrow> CShaderDefines \<times> GraphicsPipelineStateDesc \<times> event list" where
  "passElement env st Element =
     (case st of (passDefines, d, tr) \<Rightarrow>
        (let Attrs = GetAttributes Element
         in if GetNodeName Element = ''define'' then
              (Add (GetNamedItem Attrs ''name'') (GetNamedItem Attrs ''value'') passDefines, d, tr)
            else if GetNodeName Element = ''blend'' then
              (let (b, tr1) = blendTag env Attrs (blendState d) tr
               in (passDefines, d\<lparr>blendState := b\<rparr>, tr1))
            else if GetNodeName Element = ''color'' then
              (passDefines, d\<lparr>blendState := colorTag Attrs (blendState d)\<rparr>, tr)
            else if GetNodeName Element = ''cull'' then
              (passDefines, d\<lparr>rasterizationState := cullTag env Attrs (rasterizationState d)\<rparr>, tr)
            else if GetNodeName Element = ''depth'' then
              (passDefines, d\<lparr>depthStencilState := depthTag env Attrs (depthStencilState d)\<rparr>, tr)
            else if GetNodeName Element = ''polygon'' then
              (passDefines, d\<lparr>rasterizationState := polygonTag env Attrs (rasterizationState d)\<rparr>,
               tr)
            else if GetNodeName Element = ''stencil'' then
              (passDefines, d\<lparr>depthStencilState := stencilTag env Attrs (depthStencilState d)\<rparr>,
               tr)
            else (passDefines, d, tr)))"

text \<open>
  The loop over the children of a pass, from the defines of the technique, the default
  descriptor and the current trace.
\<close>

definition passElements ::
    "Env \<Rightarrow> CShaderDefines \<Rightarrow> event list \<Rightarrow> XMBElement list
       \<Rightarrow> CShaderDefines \<times> GraphicsPipelineStateDesc \<times> event list" where
  "passElements env techDefines tr Elements =
     foldl (passElement env) (techDefines, MakeDefaultGraphicsPipelineStateDesc env, tr) Elements"

subsection \<open>Loading an effect\<close>

text \<open>
  The body of the loop over the children of a candidate technique, which looks at its
  \<^verbatim>\<open>require\<close> children: the flag \<^verbatim>\<open>isUsable\<close> and the trace.
\<close>

definition requireChild ::
    "Env \<Rightarrow> CShaderDefines \<Rightarrow> bool \<times> event list \<Rightarrow> XMBElement \<Rightarrow> bool \<times> event list" where
  "requireChild env baseDefines st Child =
     (let isUsable = fst st; tr = snd st; Attrs = GetAttributes Child
      in if GetNodeName Child = ''require'' then
           (if GetNamedItem Attrs ''shaders'' = ''arb'' then
              (if GetBackend env \<noteq> GL_ARB \<or> \<not> ARBShaders env then (False, tr)
               else (isUsable, tr))
            else if GetNamedItem Attrs ''shaders'' = ''glsl'' then
              (if GetBackend env \<noteq> GL then (False, tr) else (isUsable, tr))
            else if GetNamedItem Attrs ''context'' \<noteq> [] then
              (let cond = GetNamedItem Attrs ''context'';
                   tr1 = tr @ [TestConditional_call cond]
               in if \<not> TestConditional env baseDefines cond then (False, tr1)
                  else (isUsable, tr1))
            else (isUsable, tr))
         else (isUsable, tr))"

text \<open>The body of the loop over the candidate techniques of the document.\<close>

definition techniqueCandidate ::
    "Env \<Rightarrow> CShaderDefines \<Rightarrow> XMBElement list \<times> event list \<Rightarrow> XMBElement
       \<Rightarrow> XMBElement list \<times> event list" where
  "techniqueCandidate env baseDefines st Technique =
     (let usableTechs = fst st;
          (isUsable, tr) = foldl (requireChild env baseDefines) (True, snd st)
                             (GetChildNodes Technique)
      in if isUsable then (usableTechs @ [Technique], tr) else (usableTechs, tr))"

text \<open>
  The body of the first loop over the children of the chosen technique: its defines and
  the sort-by-distance flag of the technique object.
\<close>

definition techChild ::
    "CShaderDefines \<times> CShaderTechnique \<Rightarrow> XMBElement \<Rightarrow> CShaderDefines \<times> CShaderTechnique" where
  "techChild st Child =
     (let techDefines = fst st; tech = snd st
      in if GetNodeName Child = ''define'' then
           (Add (GetNamedItem (GetAttributes Child) ''name'')
              (GetNamedItem (GetAttributes Child) ''value'') techDefines, tech)
         else if GetNodeName Child = ''sort_by_distance'' then
           (techDefines, tech\<lparr>sortByDistance := True\<rparr>)
         else (techDefines, tech))"

text \<open>
  The body of the second loop over the children of the chosen technique: each \<^verbatim>\<open>pass\<close>
  child adds one pass, whose program is loaded with the defines of the pass.
\<close>

definition passChild ::
    "Env \<Rightarrow> CShaderDefines \<Rightarrow> CShaderPass list \<times> CShaderManager \<Rightarrow> XMBElement
       \<Rightarrow> CShaderPass list \<times> CShaderManager" where
  "passChild env techDefines st Child =
     (let techPasses = fst st; s = snd st
      in if GetNodeName Child = ''pass'' then
           (let (passDefines, passPipelineStateDesc, tr) =
                  passElements env techDefines (trace s) (GetChildNodes Child);
                (program, s1) =
                  LoadProgram env (GetNamedItem (GetAttributes Child) ''shader'') passDefines
                    (s\<lparr>trace := tr\<rparr>)
            in (techPasses @
                  [\<lparr>pipelineStateDesc = passPipelineStateDesc, shader = program\<rparr>], s1))
         else (techPasses, s))"

text \<open>
  The part of \<^verbatim>\<open>NewEffect\<close> after the choice of a technique: the two loops over the
  children of \<^verbatim>\<open>usableTechs[0]\<close> and \<^verbatim>\<open>SetPasses\<close>.
\<close>

definition techniqueFrom ::
    "Env \<Rightarrow> CShaderDefines \<Rightarrow> XMBElement \<Rightarrow> CShaderTechnique \<Rightarrow> CShaderManager
       \<Rightarrow> CShaderTechnique \<times> CShaderManager" where
  "techniqueFrom env baseDefines Technique tech0 s =
     (let (techDefines, tech1) = foldl techChild (baseDefines, tech0) (GetChildNodes Technique);
          (techPasses, s1) = foldl (passChild env techDefines) ([], s) (GetChildNodes Technique)
      in (tech1\<lparr>passes := techPasses\<rparr>, s1))"

text \<open>
  \<^verbatim>\<open>CShaderManager::NewEffect\<close>. The technique object behind \<^verbatim>\<open>tech\<close> is passed and
  returned by value.
\<close>

definition NewEffect ::
    "Env \<Rightarrow> string \<Rightarrow> CShaderDefines \<Rightarrow> CShaderTechnique \<Rightarrow> CShaderManager
       \<Rightarrow> bool \<times> CShaderTechnique \<times> CShaderManager" where
  "NewEffect env name baseDefines tech s0 =
     (let xmlFilename = ''shaders/effects/'' @ name @ ''.xml'';
          s1 = emit (XeroFile_Load xmlFilename) s0
      in case Load env xmlFilename of
           None \<Rightarrow> (False, tech, s1)
         | Some Root \<Rightarrow>
             (let (usableTechs, tr) = foldl (techniqueCandidate env baseDefines) ([], trace s1)
                                        (GetChildNodes Root)
              in case usableTechs of
                   [] \<Rightarrow> (False, tech, s1\<lparr>trace := tr @ [debug_warn ''Can't find a usable technique'']\<rparr>)
                 | Technique # _ \<Rightarrow>
                     (let (tech1, s2) = techniqueFrom env baseDefines Technique tech
                                          (s1\<lparr>trace := tr\<rparr>)
                      in (True, tech1, s2))))"

text \<open>
  Modelled from the spec: a technique object as \<^verbatim>\<open>new CShaderTechnique()\<close> leaves it
  (graphics/ShaderTechnique, outside these sources): no passes, not sorted by distance.
\<close>

definition CShaderTechnique_new :: CShaderTechnique where
  "CShaderTechnique_new = \<lparr>sortByDistance = False, passes = []\<rparr>"

text \<open>\<^verbatim>\<open>CShaderManager::LoadEffect(CStrIntern name, const CShaderDefines& defines)\<close>\<close>

definition LoadEffect ::
    "Env \<Rightarrow> string \<Rightarrow> CShaderDefines \<Rightarrow> CShaderManager \<Rightarrow> CShaderTechniquePtr \<times> CShaderManager" where
  "LoadEffect env name defs s =
     (let key = \<lparr>key_name = name, key_defines = defs\<rparr>
      in case m_EffectCache s key of
           Some tech \<Rightarrow> (tech, s)
         | None \<Rightarrow>
             (let (ok, t, s1) = NewEffect env name defs CShaderTechnique_new s;
                  (tech, s2) =
                    (if \<not> ok then (None, emit (LOGERROR ''Failed to load effect %s'' name) s1)
                     else (Some (next_address s1),
                           s1\<lparr>techniques := (techniques s1)(next_address s1 \<mapsto> t),
                              next_address := Suc (next_address s1)\<rparr>))
              in (tech, s2\<lparr>m_EffectCache := (m_EffectCache s2)(key \<mapsto> tech)\<rparr>)))"

text \<open>\<^verbatim>\<open>CShaderManager::LoadEffect(CStrIntern name)\<close>\<close>

definition LoadEffect_name :: "Env \<Rightarrow> string \<Rightarrow> CShaderManager \<Rightarrow> CShaderTechniquePtr \<times> CShaderManager" where
  "LoadEffect_name env name s = LoadEffect env name [] s"

text \<open>\<^verbatim>\<open>CShaderManager::GetNumEffectsLoaded\<close>\<close>

definition GetNumEffectsLoaded :: "CShaderManager \<Rightarrow> nat" where
  "GetNumEffectsLoaded s = card (dom (m_EffectCache s))"

subsection \<open>Well-formed define sets, later states, and instances for the examples\<close>

text \<open>The items of a define set are sorted by name, and no name occurs twice.\<close>

definition wf_defines :: "CShaderDefines \<Rightarrow> bool" where
  "wf_defines d \<longleftrightarrow> sorted (map fst d) \<and> distinct (map fst d)"

text \<open>One instance of the hashing parameters.\<close>

definition seed_combine :: "size_t \<Rightarrow> size_t \<Rightarrow> size_t" where
  "seed_combine seed v = seed XOR (v + 0x9e3779b9 + push_bit 6 seed + drop_bit 2 seed)"

definition exampleHashing :: Hashing where
  "exampleHashing =
     \<lparr>name_GetHash = (\<lambda>n. of_nat (length n)),
      defines_GetHash = (\<lambda>d. of_nat (length d)),
      hash_combine = seed_combine\<rparr>"

text \<open>
  \<open>later s s'\<close>: the manager reaches \<open>s'\<close> from \<open>s\<close> by any number of calls of its
  operations, in any environment, and of destructions of programs.
\<close>

inductive later :: "CShaderManager \<Rightarrow> CShaderManager \<Rightarrow> bool" where
  later_same: "later s s"
| later_LoadProgram: "later s s1 \<Longrightarrow> later s (snd (LoadProgram env name defs s1))"
| later_LoadEffect: "later s s1 \<Longrightarrow> later s (snd (LoadEffect env name defs s1))"
| later_ReloadChangedFile: "later s s1 \<Longrightarrow> later s (snd (ReloadChangedFile path s1))"
| later_destroy: "later s s1 \<Longrightarrow> later s (destroy a s1)"
| later_AddProgramFileDependency:
    "later s s1 \<Longrightarrow> later s (AddProgramFileDependency p path s1)"

text \<open>An instance of the default descriptor.\<close>

definition exampleDefaultDesc :: GraphicsPipelineStateDesc where
  "exampleDefaultDesc =
     \<lparr>depthStencilState =
        \<lparr>depthTestEnabled = True, depthCompareOp = 1, depthWriteEnabled = True,
         stencilTestEnabled = False, stencilReference = 0,
         stencilReadMask = 0xFFFFFFFF, stencilWriteMask = 0xFFFFFFFF,
         stencilFrontFace = \<lparr>compareOp = 7, failOp = 0, passOp = 0, depthFailOp = 0\<rparr>,
         stencilBackFace = \<lparr>compareOp = 7, failOp = 0, passOp = 0, depthFailOp = 0\<rparr>\<rparr>,
      blendState =
        \<lparr>enabled = False, srcColorBlendFactor = 1, dstColorBlendFactor = 0,
         srcAlphaBlendFactor = 1, dstAlphaBlendFactor = 0, colorBlendOp = 0, alphaBlendOp = 0,
         constant' = (0, 0, 0, 0), colorWriteMask = 15\<rparr>,
      rasterizationState = \<lparr>polygonMode = 0, cullMode = 2, frontFace = 0\<rparr>\<rparr>"

text \<open>
  Three candidate techniques, each behind a \<^verbatim>\<open>require\<close> with a context of its own and
  with one pass, and the effect document with the three of them.
\<close>

definition firstTechnique :: XMBElement where
  "firstTechnique =
     XMBElement ''technique'' []
       [XMBElement ''require'' [(''context'', ''FIRST'')] [],
        XMBElement ''pass'' [(''shader'', ''one'')] []]"

definition secondTechnique :: XMBElement where
  "secondTechnique =
     XMBElement ''technique'' []
       [XMBElement ''require'' [(''context'', ''SECOND'')] [],
        XMBElement ''pass'' [(''shader'', ''shadow'')] []]"

definition thirdTechnique :: XMBElement where
  "thirdTechnique =
     XMBElement ''technique'' []
       [XMBElement ''require'' [(''context'', ''THIRD'')] [],
        XMBElement ''pass'' [(''shader'', ''three'')] []]"

definition threeTechniques :: XMBElement where
  "threeTechniques =
     XMBElement ''effect'' [] ([firstTechnique] @ [secondTechnique] @ [thirdTechnique])"

text \<open>
  The children of a technique whose \<^verbatim>\<open>define\<close> tags stand between and after its two
  passes, the first of which has a define of its own; the same children with the
  \<^verbatim>\<open>define\<close> tags first; and an effect document with the former technique.
\<close>

definition layeredChildren :: "XMBElement list" where
  "layeredChildren =
     [XMBElement ''pass'' [(''shader'', ''solid'')]
        [XMBElement ''define'' [(''name'', ''MODE''), (''value'', ''2'')] []],
      XMBElement ''define'' [(''name'', ''MODE''), (''value'', ''1'')] [],
      XMBElement ''pass'' [(''shader'', ''solid'')] [],
      XMBElement ''define'' [(''name'', ''FOG''), (''value'', ''1'')] []]"

definition definesFirst :: "XMBElement list" where
  "definesFirst =
     [XMBElement ''define'' [(''name'', ''MODE''), (''value'', ''1'')] [],
      XMBElement ''define'' [(''name'', ''FOG''), (''value'', ''1'')] [],
      XMBElement ''pass'' [(''shader'', ''solid'')]
        [XMBElement ''define'' [(''name'', ''MODE''), (''value'', ''2'')] []],
      XMBElement ''pass'' [(''shader'', ''solid'')] []]"

definition layeredTechnique :: XMBElement where
  "layeredTechnique = XMBElement ''effect'' [] [XMBElement ''technique'' [] layeredChildren]"

text \<open>A GLSL program document with a vertex attribute of an unknown semantics.\<close>

definition unknownSemantics :: XMBElement where
  "unknownSemantics =
     XMBElement ''program'' [(''type'', ''glsl'')]
       [XMBElement ''vertex'' [(''file'', ''glsl/unknown.vs'')]
          [XMBElement ''attrib'' [(''name'', ''a_extra''), (''semantics'', ''gl_Tangent'')] []],
        XMBElement ''fragment'' [(''file'', ''glsl/unknown.fs'')] []]"

text \<open>An ARB program document with a fragment uniform of a type outside the list.\<close>

definition shadowSampler :: XMBElement where
  "shadowSampler =
     XMBElement ''program'' [(''type'', ''arb'')]
       [XMBElement ''vertex'' [(''file'', ''arb/shadow.vp'')] [],
        XMBElement ''fragment'' [(''file'', ''arb/shadow.fp'')]
          [XMBElement ''uniform''
             [(''name'', ''shadowTex''), (''loc'', ''2''), (''type'', ''sampler2DShadow'')] []]]"

definition exampleLoad :: "VfsPath \<Rightarrow> XMBElement option" where
  "exampleLoad path =
     (if path = ''shaders/effects/three.xml'' then Some threeTechniques
      else if path = ''shaders/effects/layered.xml'' then Some layeredTechnique
      else if path = ''shaders/unknown.xml'' then Some unknownSemantics
      else if path = ''shaders/shadow.xml'' then Some shadowSampler
      else None)"

definition programFiles :: "CShaderProgram \<Rightarrow> VfsPath list" where
  "programFiles program =
     (case program of
        ConstructGLSL v f d a fl \<Rightarrow> [v, f]
      | ConstructARB v f d vu fu fl \<Rightarrow> [v, f])"

text \<open>Decimal digits read as a number, for the instance of the string conversions.\<close>

definition decimal :: "string \<Rightarrow> nat" where
  "decimal str = foldl (\<lambda>n c. 10 * n + (of_char c - 48)) 0 str"

text \<open>
  An instance of the environment: the GL backend, a preprocessor for which a conditional
  holds when it names a define of value 1, decimal conversions, string lengths for the
  parsers of the backend, and a colour parser that knows one colour.
\<close>

definition exampleEnv :: Env where
  "exampleEnv =
     \<lparr>AddValidator = True,
      Load = exampleLoad,
      Validate = (\<lambda>name root. True),
      TestConditional = (\<lambda>defs cond. map_of defs cond = Some ''1''),
      GetBackend = GL,
      ARBShaders = False,
      CONFIG2_GLES = False,
      ToInt = (\<lambda>str. int (decimal str)),
      ToULong = (\<lambda>str. of_nat (decimal str)),
      ParseBlendFactor = length,
      ParseBlendOp = length,
      ParseCullMode = length,
      ParseFrontFace = length,
      ParseCompareOp = length,
      ParsePolygonMode = length,
      ParseStencilOp = length,
      ParseString = (\<lambda>c str. if str = ''0 0 0 255'' then (True, (0, 0, 0, 255)) else (False, c)),
      MakeDefaultGraphicsPipelineStateDesc = exampleDefaultDesc,
      GetFileDependencies = programFiles\<rparr>"

text \<open>
  Every entry of the hotload table is a set: no weak pointer occurs twice in its list.
\<close>

definition hotload_sets :: "CShaderManager \<Rightarrow> bool" where
  "hotload_sets s \<longleftrightarrow> (\<forall>path files. m_HotloadFiles s path = Some files \<longrightarrow> distinct files)"


text \<open>The semantics strings that \<open>ParseAttribSemantics\<close> knows.\<close>

definition knownSemantics :: "string list" where
  "knownSemantics =
     [''gl_Vertex'', ''gl_Normal'', ''gl_Color'', ''gl_SecondaryColor'', ''gl_FogCoord'',
      ''gl_MultiTexCoord0'', ''gl_MultiTexCoord1'', ''gl_MultiTexCoord2'', ''gl_MultiTexCoord3'',
      ''gl_MultiTexCoord4'', ''gl_MultiTexCoord5'', ''gl_MultiTexCoord6'', ''gl_MultiTexCoord7'',
      ''CustomAttribute0'', ''CustomAttribute1'', ''CustomAttribute2'']"

text \<open>The sampler types that the fragment uniform branch of \<open>NewProgram\<close> lists.\<close>

definition listedSamplers :: "string list" where
  "listedSamplers = [''sampler1D'', ''sampler2D'', ''sampler3D'', ''samplerCube'']"

text \<open>
  What the markup of a pass leaves out: no child element of the pass has the tag, or no
  child element with the tag has the attribute (an absent attribute reads as empty).
\<close>

definition tagAbsent :: "string \<Rightarrow> XMBElement list \<Rightarrow> bool" where
  "tagAbsent tag Elements \<longleftrightarrow> (\<forall>e\<in>set Elements. GetNodeName e \<noteq> tag)"

definition attributeAbsent :: "string \<Rightarrow> string \<Rightarrow> XMBElement list \<Rightarrow> bool" where
  "attributeAbsent tag attr Elements \<longleftrightarrow>
     (\<forall>e\<in>set Elements. GetNodeName e = tag \<longrightarrow> GetNamedItem (GetAttributes e) attr = [])"

text \<open>
  The name/value pairs of the \<^verbatim>\<open>define\<close> elements of a list of elements, in document
  order, and the key under which the program of a pass is looked up when the defines of
  its technique are \<open>techDefines\<close>.
\<close>

definition defineTags :: "XMBElement list \<Rightarrow> (string \<times> string) list" where
  "defineTags cs =
     map (\<lambda>c. (GetNamedItem (GetAttributes c) ''name'', GetNamedItem (GetAttributes c) ''value''))
       (filter (\<lambda>c. GetNodeName c = ''define'') cs)"

definition passKey :: "CShaderDefines \<Rightarrow> XMBElement \<Rightarrow> CacheKey" where
  "passKey techDefines Child =
     (GetNamedItem (GetAttributes Child) ''shader'',
      AddAll (defineTags (GetChildNodes Child)) techDefines)"

text \<open>
  What the \<^verbatim>\<open>require\<close> loop of \<open>NewEffect\<close> finds for one candidate technique, taken
  on its own: whether the candidate is usable, and the calls the loop makes. A single
  child of a candidate holds when it leaves the flag of a usable candidate set.
\<close>

definition techniqueUsable :: "Env \<Rightarrow> CShaderDefines \<Rightarrow> XMBElement \<Rightarrow> bool" where
  "techniqueUsable env baseDefines Technique =
     fst (foldl (requireChild env baseDefines) (True, []) (GetChildNodes Technique))"

definition techniqueEvents :: "Env \<Rightarrow> CShaderDefines \<Rightarrow> XMBElement \<Rightarrow> event list" where
  "techniqueEvents env baseDefines Technique =
     snd (foldl (requireChild env baseDefines) (True, []) (GetChildNodes Technique))"

definition requireHolds :: "Env \<Rightarrow> CShaderDefines \<Rightarrow> XMBElement \<Rightarrow> bool" where
  "requireHolds env baseDefines Child = fst (requireChild env baseDefines (True, []) Child)"

text \<open>
  The conditionals that the \<^verbatim>\<open>require\<close> loop tests for a candidate: the contexts of its
  \<^verbatim>\<open>require\<close> children that name neither of the two shader flavours.
\<close>

definition testedContexts :: "XMBElement \<Rightarrow> string list" where
  "testedContexts Technique =
     map (\<lambda>c. GetNamedItem (GetAttributes c) ''context'')
       (filter (\<lambda>c. GetNodeName c = ''require''
                  \<and> GetNamedItem (GetAttributes c) ''shaders'' \<noteq> ''arb''
                  \<and> GetNamedItem (GetAttributes c) ''shaders'' \<noteq> ''glsl''
                  \<and> GetNamedItem (GetAttributes c) ''context'' \<noteq> [])
          (GetChildNodes Technique))"

text \<open>The same state with the events \<open>p\<close> put before its trace.\<close>

definition prepend :: "event list \<Rightarrow> CShaderManager \<Rightarrow> CShaderManager" where
  "prepend p s = s\<lparr>trace := p @ trace s\<rparr>"


section \<open>Properties\<close>

subsection \<open>Define sets are canonical\<close>

lemma map_of_Add: "map_of (Add n v d) = (map_of d)(n \<mapsto> v)"
  by (induction d) (auto simp: fun_eq_iff)

lemma set_fst_Add: "set (map fst (Add n v d)) = insert n (set (map fst d))"
proof (induction d)
  case Nil
  show ?case by simp
next
  case (Cons a d)
  obtain m w where a: "a = (m, w)" by (cases a)
  show ?case using Cons by (simp add: a insert_commute)
qed

lemma wf_Add: "wf_defines d \<Longrightarrow> wf_defines (Add n v d)"
proof (induction d)
  case Nil
  show ?case by (simp add: wf_defines_def)
next
  case (Cons a d)
  obtain m w where a: "a = (m, w)" by (cases a)
  have d: "wf_defines d" using Cons.prems by (simp add: wf_defines_def)
  have ih: "sorted (map fst (Add n v d))" "distinct (map fst (Add n v d))"
    using Cons.IH d by (simp_all add: wf_defines_def)
  have p: "sorted (map fst d)" "distinct (map fst d)"
    "\<forall>x\<in>set (map fst d). m \<le> x" "m \<notin> set (map fst d)"
    using Cons.prems by (simp_all add: wf_defines_def a)
  show ?case
  proof (cases "n = m")
    case True
    then show ?thesis using p unfolding wf_defines_def a by simp
  next
    case False
    show ?thesis
    proof (cases "n < m")
      case True
      then show ?thesis using p unfolding wf_defines_def a
        by (simp del: set_map) (use less_imp_le order_trans in fastforce)
    next
      case nl: False
      have "m < n" using False nl by simp
      then have "\<forall>x\<in>set (map fst (Add n v d)). m \<le> x" "m \<notin> set (map fst (Add n v d))"
        using p(3,4) unfolding set_fst_Add by auto
      then show ?thesis using ih False nl unfolding wf_defines_def a by (simp del: set_map)
    qed
  qed
qed

lemma wf_Nil: "wf_defines []"
  by (simp add: wf_defines_def)

lemma wf_AddAll: "wf_defines d \<Longrightarrow> wf_defines (AddAll ps d)"
  unfolding AddAll_def by (induction ps arbitrary: d) (simp_all add: wf_Add)

lemma wf_unique:
  assumes d: "wf_defines d" and e: "wf_defines e" and m: "map_of d = map_of e"
  shows "d = e"
proof -
  have s: "set d = set e" using d e m by (simp add: wf_defines_def map_of_inject_set)
  have k: "map fst d = map fst e"
    using d e s by (intro sorted_distinct_set_unique) (auto simp: wf_defines_def)
  have "distinct (map fst d)" using d by (simp add: wf_defines_def)
  with k m show ?thesis
    by (metis (mono_tags, lifting) eq_key_imp_eq_value list.inj_map_strong
        map_of_inject_set surjective_pairing)
qed

subsection \<open>Cache keys\<close>

text \<open>
  C6. Two effect cache keys are equal under \<^verbatim>\<open>operator==\<close> exactly when their names and
  their define sets are equal, which is equality of the keys; keys equal under
  \<^verbatim>\<open>operator==\<close> have the same hash, whatever the component hashes and the combining
  function are; and two define sets built from the empty set that hold the same
  name/value pairs, in whatever order the pairs were added, give equal keys with equal
  hashes, which select the same entry of the effect cache.
\<close>

theorem EffectCacheKey_equality_hash:
  "(EffectCacheKey_eq a b \<longleftrightarrow> key_name a = key_name b \<and> key_defines a = key_defines b)
   \<and> (EffectCacheKey_eq a b \<longleftrightarrow> a = b)
   \<and> (EffectCacheKey_eq a b \<longrightarrow> EffectCacheKeyHash h a = EffectCacheKeyHash h b)
   \<and> (map_of (AddAll ps []) = map_of (AddAll qs []) \<longrightarrow>
        EffectCacheKey_eq \<lparr>key_name = n, key_defines = AddAll ps []\<rparr>
                          \<lparr>key_name = n, key_defines = AddAll qs []\<rparr>
        \<and> EffectCacheKeyHash h \<lparr>key_name = n, key_defines = AddAll ps []\<rparr>
            = EffectCacheKeyHash h \<lparr>key_name = n, key_defines = AddAll qs []\<rparr>
        \<and> m_EffectCache s \<lparr>key_name = n, key_defines = AddAll ps []\<rparr>
            = m_EffectCache s \<lparr>key_name = n, key_defines = AddAll qs []\<rparr>)"
proof -
  have eq: "EffectCacheKey_eq a b \<longleftrightarrow> a = b"
    by (cases a, cases b) (simp add: EffectCacheKey_eq_def)
  have canon: "map_of (AddAll ps []) = map_of (AddAll qs []) \<Longrightarrow> AddAll ps [] = AddAll qs []"
    by (rule wf_unique) (simp_all add: wf_AddAll wf_Nil)
  show ?thesis using eq canon
    by (auto simp: EffectCacheKey_eq_def)
qed

theorem EffectCacheKey_equality_hash_witness:
  "AddAll [(''USE_FOG'', ''1''), (''MODE'', ''2'')] [] = [(''MODE'', ''2''), (''USE_FOG'', ''1'')]
   \<and> AddAll [(''MODE'', ''2''), (''USE_FOG'', ''1'')] [] = [(''MODE'', ''2''), (''USE_FOG'', ''1'')]
   \<and> EffectCacheKey_eq
        \<lparr>key_name = ''model'', key_defines = AddAll [(''USE_FOG'', ''1''), (''MODE'', ''2'')] []\<rparr>
        \<lparr>key_name = ''model'', key_defines = AddAll [(''MODE'', ''2''), (''USE_FOG'', ''1'')] []\<rparr>
   \<and> EffectCacheKeyHash exampleHashing
        \<lparr>key_name = ''model'', key_defines = AddAll [(''USE_FOG'', ''1''), (''MODE'', ''2'')] []\<rparr>
      = EffectCacheKeyHash exampleHashing
        \<lparr>key_name = ''model'', key_defines = AddAll [(''MODE'', ''2''), (''USE_FOG'', ''1'')] []\<rparr>"
proof -
  have l: "AddAll [(''USE_FOG'', ''1''), (''MODE'', ''2'')] [] = [(''MODE'', ''2''), (''USE_FOG'', ''1'')]"
    by (simp add: AddAll_def)
  have r: "AddAll [(''MODE'', ''2''), (''USE_FOG'', ''1'')] [] = [(''MODE'', ''2''), (''USE_FOG'', ''1'')]"
    by (simp add: AddAll_def)
  have m: "map_of (AddAll [(''USE_FOG'', ''1''), (''MODE'', ''2'')] [])
         = map_of (AddAll [(''MODE'', ''2''), (''USE_FOG'', ''1'')] [])"
    by (simp add: l r)
  show ?thesis
    using EffectCacheKey_equality_hash
      [of "\<lparr>key_name = ''model'', key_defines = AddAll [(''USE_FOG'', ''1''), (''MODE'', ''2'')] []\<rparr>"
          "\<lparr>key_name = ''model'', key_defines = AddAll [(''MODE'', ''2''), (''USE_FOG'', ''1'')] []\<rparr>"
          exampleHashing "[(''USE_FOG'', ''1''), (''MODE'', ''2'')]"
          "[(''MODE'', ''2''), (''USE_FOG'', ''1'')]" "''model''"]
      m l r
    by simp
qed

subsection \<open>What each operation leaves of the caches\<close>

lemma emit_fields [simp]:
  "m_ProgramCache (emit e s) = m_ProgramCache s"
  "m_EffectCache (emit e s) = m_EffectCache s"
  "m_HotloadFiles (emit e s) = m_HotloadFiles s"
  "programs (emit e s) = programs s"
  "techniques (emit e s) = techniques s"
  "next_address (emit e s) = next_address s"
  "trace (emit e s) = trace s @ [e]"
  by (simp_all add: emit_def)

lemma AddProgramFileDependency_fields [simp]:
  "m_ProgramCache (AddProgramFileDependency p path s) = m_ProgramCache s"
  "m_EffectCache (AddProgramFileDependency p path s) = m_EffectCache s"
  "programs (AddProgramFileDependency p path s) = programs s"
  "techniques (AddProgramFileDependency p path s) = techniques s"
  "next_address (AddProgramFileDependency p path s) = next_address s"
  "trace (AddProgramFileDependency p path s) = trace s"
  by (simp_all add: AddProgramFileDependency_def)

lemma AddProgramFileDependencies_fields [simp]:
  "m_ProgramCache (foldl (\<lambda>s path. AddProgramFileDependency p path s) s paths) = m_ProgramCache s"
  "m_EffectCache (foldl (\<lambda>s path. AddProgramFileDependency p path s) s paths) = m_EffectCache s"
  "programs (foldl (\<lambda>s path. AddProgramFileDependency p path s) s paths) = programs s"
  "techniques (foldl (\<lambda>s path. AddProgramFileDependency p path s) s paths) = techniques s"
  "next_address (foldl (\<lambda>s path. AddProgramFileDependency p path s) s paths) = next_address s"
  "trace (foldl (\<lambda>s path. AddProgramFileDependency p path s) s paths) = trace s"
  by (induction paths arbitrary: s) simp_all

lemma NewProgram_caches:
  "m_ProgramCache (snd (snd (NewProgram env name defs s))) = m_ProgramCache s"
  "m_EffectCache (snd (snd (NewProgram env name defs s))) = m_EffectCache s"
  by (simp_all add: NewProgram_def Let_def split: option.split prod.split)

lemma LoadProgram_ProgramCache:
  "m_ProgramCache (snd (LoadProgram env name defs s)) =
     (case m_ProgramCache s (name, defs) of
        Some p \<Rightarrow> m_ProgramCache s
      | None \<Rightarrow> (m_ProgramCache s)((name, defs) \<mapsto> fst (LoadProgram env name defs s)))"
proof (cases "m_ProgramCache s (name, defs)")
  case (Some p)
  then show ?thesis by (simp add: LoadProgram_def)
next
  case None
  obtain ok p s1 where n: "NewProgram env name defs s = (ok, p, s1)"
    by (cases "NewProgram env name defs s") auto
  have "m_ProgramCache s1 = m_ProgramCache s"
    using NewProgram_caches(1) [of env name defs s] n by simp
  then show ?thesis using None n by (simp add: LoadProgram_def)
qed

lemma LoadProgram_EffectCache:
  "m_EffectCache (snd (LoadProgram env name defs s)) = m_EffectCache s"
proof (cases "m_ProgramCache s (name, defs)")
  case (Some p)
  then show ?thesis by (simp add: LoadProgram_def)
next
  case None
  obtain ok p s1 where n: "NewProgram env name defs s = (ok, p, s1)"
    by (cases "NewProgram env name defs s") auto
  have "m_EffectCache s1 = m_EffectCache s"
    using NewProgram_caches(2) [of env name defs s] n by simp
  then show ?thesis using None n by (simp add: LoadProgram_def)
qed

lemma LoadProgram_stored:
  "m_ProgramCache (snd (LoadProgram env name defs s)) (name, defs)
     = Some (fst (LoadProgram env name defs s))"
proof (cases "m_ProgramCache s (name, defs)")
  case (Some p)
  then show ?thesis by (simp add: LoadProgram_def)
next
  case None
  then show ?thesis by (simp add: LoadProgram_ProgramCache)
qed

lemma LoadProgram_keeps:
  "m_ProgramCache s k = Some p \<Longrightarrow> m_ProgramCache (snd (LoadProgram env name defs s)) k = Some p"
  by (auto simp: LoadProgram_ProgramCache split: option.split)

lemma LoadProgram_hit:
  "m_ProgramCache s (name, defs) = Some p \<Longrightarrow> LoadProgram env name defs s = (p, s)"
  by (simp add: LoadProgram_def)

lemma passChild_keeps:
  assumes "m_ProgramCache (snd st) k = Some p"
  shows "m_ProgramCache (snd (passChild env td st Child)) k = Some p"
proof (cases "GetNodeName Child = ''pass''")
  case False
  then show ?thesis using assms by (simp add: passChild_def)
next
  case True
  obtain pd d tr where e: "passElements env td (trace (snd st)) (GetChildNodes Child) = (pd, d, tr)"
    by (cases "passElements env td (trace (snd st)) (GetChildNodes Child)") auto
  have "m_ProgramCache (snd (LoadProgram env (GetNamedItem (GetAttributes Child) ''shader'') pd
          ((snd st)\<lparr>trace := tr\<rparr>))) k = Some p"
    by (rule LoadProgram_keeps) (simp add: assms)
  then show ?thesis using True e by (simp add: passChild_def Let_def case_prod_beta)
qed

lemma passChild_EffectCache:
  "m_EffectCache (snd (passChild env td st Child)) = m_EffectCache (snd st)"
  by (simp add: passChild_def Let_def case_prod_beta LoadProgram_EffectCache)

lemma passes_keep:
  "m_ProgramCache (snd st) k = Some p
   \<Longrightarrow> m_ProgramCache (snd (foldl (passChild env td) st cs)) k = Some p"
  by (induction cs arbitrary: st) (simp_all add: passChild_keeps)

lemma passes_EffectCache:
  "m_EffectCache (snd (foldl (passChild env td) st cs)) = m_EffectCache (snd st)"
  by (induction cs arbitrary: st) (simp_all add: passChild_EffectCache)

lemma techniqueFrom_keeps:
  "m_ProgramCache s k = Some p
   \<Longrightarrow> m_ProgramCache (snd (techniqueFrom env base T tech s)) k = Some p"
  by (simp add: techniqueFrom_def case_prod_beta passes_keep)

lemma techniqueFrom_EffectCache:
  "m_EffectCache (snd (techniqueFrom env base T tech s)) = m_EffectCache s"
  by (simp add: techniqueFrom_def case_prod_beta passes_EffectCache)

lemma NewEffect_keeps:
  "m_ProgramCache s k = Some p
   \<Longrightarrow> m_ProgramCache (snd (snd (NewEffect env name base tech s))) k = Some p"
  by (simp add: NewEffect_def Let_def case_prod_beta techniqueFrom_keeps
      split: option.split list.split)

lemma NewEffect_EffectCache:
  "m_EffectCache (snd (snd (NewEffect env name base tech s))) = m_EffectCache s"
  by (simp add: NewEffect_def Let_def case_prod_beta techniqueFrom_EffectCache
      split: option.split list.split)

lemma LoadEffect_keeps:
  "m_ProgramCache s k = Some p \<Longrightarrow> m_ProgramCache (snd (LoadEffect env name defs s)) k = Some p"
  by (simp add: LoadEffect_def Let_def case_prod_beta NewEffect_keeps split: option.split)

lemma LoadEffect_EffectCache:
  "m_EffectCache (snd (LoadEffect env name defs s)) =
     (case m_EffectCache s \<lparr>key_name = name, key_defines = defs\<rparr> of
        Some t \<Rightarrow> m_EffectCache s
      | None \<Rightarrow> (m_EffectCache s)(\<lparr>key_name = name, key_defines = defs\<rparr>
                    \<mapsto> fst (LoadEffect env name defs s)))"
  by (simp add: LoadEffect_def Let_def case_prod_beta NewEffect_EffectCache split: option.split)

lemma LoadEffect_stored:
  "m_EffectCache (snd (LoadEffect env name defs s)) \<lparr>key_name = name, key_defines = defs\<rparr>
     = Some (fst (LoadEffect env name defs s))"
proof (cases "m_EffectCache s \<lparr>key_name = name, key_defines = defs\<rparr>")
  case (Some t)
  then show ?thesis by (simp add: LoadEffect_def)
next
  case None
  then show ?thesis by (simp add: LoadEffect_EffectCache)
qed

lemma LoadEffect_keeps_effect:
  "m_EffectCache s k = Some t \<Longrightarrow> m_EffectCache (snd (LoadEffect env name defs s)) k = Some t"
  by (auto simp: LoadEffect_EffectCache split: option.split)

lemma LoadEffect_hit:
  "m_EffectCache s \<lparr>key_name = name, key_defines = defs\<rparr> = Some t
   \<Longrightarrow> LoadEffect env name defs s = (t, s)"
  by (simp add: LoadEffect_def)

lemma reloadIfAlive_fields [simp]:
  "m_ProgramCache (reloadIfAlive s ptr) = m_ProgramCache s"
  "m_EffectCache (reloadIfAlive s ptr) = m_EffectCache s"
  "m_HotloadFiles (reloadIfAlive s ptr) = m_HotloadFiles s"
  "programs (reloadIfAlive s ptr) = programs s"
  by (simp_all add: reloadIfAlive_def split: option.split)

lemma reloads_fields [simp]:
  "m_ProgramCache (foldl reloadIfAlive s ptrs) = m_ProgramCache s"
  "m_EffectCache (foldl reloadIfAlive s ptrs) = m_EffectCache s"
  "m_HotloadFiles (foldl reloadIfAlive s ptrs) = m_HotloadFiles s"
  "programs (foldl reloadIfAlive s ptrs) = programs s"
  by (induction ptrs arbitrary: s) simp_all

lemma ReloadChangedFile_fields [simp]:
  "m_ProgramCache (snd (ReloadChangedFile path s)) = m_ProgramCache s"
  "m_EffectCache (snd (ReloadChangedFile path s)) = m_EffectCache s"
  "m_HotloadFiles (snd (ReloadChangedFile path s)) = m_HotloadFiles s"
  "programs (snd (ReloadChangedFile path s)) = programs s"
  by (simp_all add: ReloadChangedFile_def split: option.split)

lemma destroy_fields [simp]:
  "m_ProgramCache (destroy a s) = m_ProgramCache s"
  "m_EffectCache (destroy a s) = m_EffectCache s"
  "m_HotloadFiles (destroy a s) = m_HotloadFiles s"
  "trace (destroy a s) = trace s"
  by (simp_all add: destroy_def)

lemma later_keeps:
  "later s s' \<Longrightarrow>
     (\<forall>k p. m_ProgramCache s k = Some p \<longrightarrow> m_ProgramCache s' k = Some p)
     \<and> (\<forall>k t. m_EffectCache s k = Some t \<longrightarrow> m_EffectCache s' k = Some t)"
proof (induction rule: later.induct)
  case (later_same s)
  show ?case by simp
next
  case (later_LoadProgram s s1 env name defs)
  then show ?case by (simp add: LoadProgram_keeps LoadProgram_EffectCache)
next
  case (later_LoadEffect s s1 env name defs)
  then show ?case by (simp add: LoadEffect_keeps LoadEffect_keeps_effect)
next
  case (later_ReloadChangedFile s s1 path)
  then show ?case by simp
next
  case (later_destroy s s1 a)
  then show ?case by simp
next
  case (later_AddProgramFileDependency s s1 p path)
  then show ?case by simp
qed


subsection \<open>Caching\<close>

text \<open>
  C1. A call of \<open>LoadProgram\<close> or \<open>LoadEffect\<close> whose key equals the key of an earlier
  call, whatever the manager did in between and whatever the files have become, returns
  the handle the earlier call stored and leaves the whole state as it is: no document
  is loaded or validated and nothing is logged. This holds for a stored failure too: when
  the document of a name is missing, two calls in a row both return the null handle, and
  the trace grows by one load of the document and one error in all.
\<close>

theorem cache_hit_returns_stored_handle:
  "(later (snd (LoadProgram env name defs s)) s' \<longrightarrow>
      LoadProgram env' name defs s' = (fst (LoadProgram env name defs s), s'))
   \<and> (later (snd (LoadEffect env name defs s)) s' \<longrightarrow>
      LoadEffect env' name defs s' = (fst (LoadEffect env name defs s), s'))
   \<and> (m_ProgramCache s (name, defs) = None \<and> Load env (''shaders/'' @ name @ ''.xml'') = None \<longrightarrow>
        fst (LoadProgram env name defs s) = None
        \<and> fst (LoadProgram env' name defs (snd (LoadProgram env name defs s))) = None
        \<and> trace (snd (LoadProgram env' name defs (snd (LoadProgram env name defs s))))
            = trace s @ [XeroFile_Load (''shaders/'' @ name @ ''.xml''),
                         LOGERROR ''Failed to load shader %s'' name])
   \<and> (m_EffectCache s \<lparr>key_name = name, key_defines = defs\<rparr> = None
        \<and> Load env (''shaders/effects/'' @ name @ ''.xml'') = None \<longrightarrow>
        fst (LoadEffect env name defs s) = None
        \<and> fst (LoadEffect env' name defs (snd (LoadEffect env name defs s))) = None
        \<and> trace (snd (LoadEffect env' name defs (snd (LoadEffect env name defs s))))
            = trace s @ [XeroFile_Load (''shaders/effects/'' @ name @ ''.xml''),
                         LOGERROR ''Failed to load effect %s'' name])"
proof -
  have hitP: "LoadProgram env' name defs s' = (fst (LoadProgram env name defs s), s')"
    if "later (snd (LoadProgram env name defs s)) s'" for s'
    using later_keeps [OF that] LoadProgram_stored [of env name defs s]
    by (simp add: LoadProgram_hit)
  have hitE: "LoadEffect env' name defs s' = (fst (LoadEffect env name defs s), s')"
    if "later (snd (LoadEffect env name defs s)) s'" for s'
    using later_keeps [OF that] LoadEffect_stored [of env name defs s]
    by (simp add: LoadEffect_hit)
  have missP: "fst (LoadProgram env name defs s) = None
      \<and> trace (snd (LoadProgram env name defs s))
          = trace s @ [XeroFile_Load (''shaders/'' @ name @ ''.xml''),
                       LOGERROR ''Failed to load shader %s'' name]"
    if "m_ProgramCache s (name, defs) = None" "Load env (''shaders/'' @ name @ ''.xml'') = None"
    using that by (simp add: LoadProgram_def NewProgram_def)
  have missE: "fst (LoadEffect env name defs s) = None
      \<and> trace (snd (LoadEffect env name defs s))
          = trace s @ [XeroFile_Load (''shaders/effects/'' @ name @ ''.xml''),
                       LOGERROR ''Failed to load effect %s'' name]"
    if "m_EffectCache s \<lparr>key_name = name, key_defines = defs\<rparr> = None"
       "Load env (''shaders/effects/'' @ name @ ''.xml'') = None"
    using that by (simp add: LoadEffect_def NewEffect_def)
  show ?thesis
    using hitP hitP [OF later_same] hitE hitE [OF later_same] missP missE by simp
qed

theorem cache_hit_returns_stored_handle_witness:
  "LoadProgram exampleEnv ''missing'' []
     (snd (LoadProgram exampleEnv ''missing'' [] (CShaderManager_new exampleEnv)))
     = (None, snd (LoadProgram exampleEnv ''missing'' [] (CShaderManager_new exampleEnv)))
   \<and> trace (snd (LoadProgram exampleEnv ''missing'' []
        (snd (LoadProgram exampleEnv ''missing'' [] (CShaderManager_new exampleEnv)))))
      = [XeroFile_Load ''shaders/missing.xml'', LOGERROR ''Failed to load shader %s'' ''missing'']
   \<and> LoadEffect exampleEnv ''missing'' []
     (snd (LoadEffect exampleEnv ''missing'' [] (CShaderManager_new exampleEnv)))
     = (None, snd (LoadEffect exampleEnv ''missing'' [] (CShaderManager_new exampleEnv)))
   \<and> trace (snd (LoadEffect exampleEnv ''missing'' []
        (snd (LoadEffect exampleEnv ''missing'' [] (CShaderManager_new exampleEnv)))))
      = [XeroFile_Load ''shaders/effects/missing.xml'',
         LOGERROR ''Failed to load effect %s'' ''missing'']"
proof -
  have a: "m_ProgramCache (CShaderManager_new exampleEnv) (''missing'', []) = None"
    by (simp add: CShaderManager_new_def)
  have b: "Load exampleEnv (''shaders/'' @ ''missing'' @ ''.xml'') = None"
    by (simp add: exampleEnv_def exampleLoad_def)
  have c: "m_EffectCache (CShaderManager_new exampleEnv) \<lparr>key_name = ''missing'', key_defines = []\<rparr> = None"
    by (simp add: CShaderManager_new_def)
  have d: "Load exampleEnv (''shaders/effects/'' @ ''missing'' @ ''.xml'') = None"
    by (simp add: exampleEnv_def exampleLoad_def)
  have t: "trace (CShaderManager_new exampleEnv) = []"
    by (simp add: CShaderManager_new_def exampleEnv_def)
  show ?thesis
    using cache_hit_returns_stored_handle
      [of exampleEnv "''missing''" "[]" "CShaderManager_new exampleEnv"
          "snd (LoadProgram exampleEnv ''missing'' [] (CShaderManager_new exampleEnv))"
          exampleEnv]
      cache_hit_returns_stored_handle
      [of exampleEnv "''missing''" "[]" "CShaderManager_new exampleEnv"
          "snd (LoadEffect exampleEnv ''missing'' [] (CShaderManager_new exampleEnv))"
          exampleEnv]
      a b c d t later_same
    by (simp add: prod_eq_iff)
qed

subsection \<open>Hotloading\<close>

lemma hotload_sets_updates [simp]:
  "hotload_sets (emit e s) = hotload_sets s"
  "hotload_sets (s\<lparr>programs := pr\<rparr>) = hotload_sets s"
  "hotload_sets (s\<lparr>techniques := te\<rparr>) = hotload_sets s"
  "hotload_sets (s\<lparr>next_address := n\<rparr>) = hotload_sets s"
  "hotload_sets (s\<lparr>trace := tr\<rparr>) = hotload_sets s"
  "hotload_sets (s\<lparr>m_ProgramCache := pc\<rparr>) = hotload_sets s"
  "hotload_sets (s\<lparr>m_EffectCache := ec\<rparr>) = hotload_sets s"
  by (simp_all add: hotload_sets_def emit_def)












text \<open>The events of one notification.\<close>

lemma lock_reloadIfAlive [simp]: "lock (reloadIfAlive s ptr) q = lock s q"
  by (simp add: lock_def split: option.split)





lemma unknown_loaded:
  "m_HotloadFiles (snd (LoadProgram exampleEnv ''unknown'' [] (CShaderManager_new exampleEnv)))
       ''shaders/glsl/unknown.vs'' = Some [Some 0]"
  "m_HotloadFiles (snd (LoadProgram exampleEnv ''unknown'' [] (CShaderManager_new exampleEnv)))
       ''shaders/glsl/other.vs'' = None"
  "programs (snd (LoadProgram exampleEnv ''unknown'' [] (CShaderManager_new exampleEnv))) 0
     = Some (ConstructGLSL ''shaders/glsl/unknown.vs'' ''shaders/glsl/unknown.fs'' []
              [''a_extra'' \<mapsto> 0] 0)"
  "trace (snd (LoadProgram exampleEnv ''unknown'' [] (CShaderManager_new exampleEnv)))
     = [XeroFile_Load ''shaders/unknown.xml'', ValidateEncoded ''unknown'',
        debug_warn ''Invalid attribute semantics'', Reload 0]"
  "fst (LoadProgram exampleEnv ''unknown'' [] (CShaderManager_new exampleEnv)) = Some 0"
  by (simp_all add: LoadProgram_def NewProgram_def exampleEnv_def exampleLoad_def
      unknownSemantics_def programChild_def vertexParam_def fragmentParam_def condSkips_def
      ParseAttribSemantics_def constructProgram_def programFiles_def AddProgramFileDependency_def
      emit_def CShaderManager_new_def GetNamedItem_def Let_def)







subsection \<open>Program documents\<close>

lemma NewProgram_succeeds:
  "Load env (''shaders/'' @ name @ ''.xml'') = Some root \<Longrightarrow> Validate env name root \<Longrightarrow>
     fst (NewProgram env name base s) \<and> fst (snd (NewProgram env name base s)) = Some (next_address s)
     \<and> programs (snd (snd (NewProgram env name base s))) (next_address s) \<noteq> None"
  by (simp add: NewProgram_def Let_def case_prod_beta emit_def)

lemma ParseAttribSemantics_unknown:
  "str \<notin> set knownSemantics \<Longrightarrow>
     ParseAttribSemantics str = (0, [debug_warn ''Invalid attribute semantics''])"
  by (simp add: knownSemantics_def ParseAttribSemantics_def)

lemma ParseAttribSemantics_known:
  "str \<in> set knownSemantics \<Longrightarrow> snd (ParseAttribSemantics str) = []"
  by (auto simp: ParseAttribSemantics_def knownSemantics_def)

text \<open>
  C7 as amended. A semantics string outside the known names makes \<open>ParseAttribSemantics\<close>
  raise the diagnostic ``Invalid attribute semantics'' and return location 0, and a known
  name raises nothing. The vertex loop then binds the attribute to location 0 and goes on
  with the warning in the trace. Whatever its attributes are, a program document that
  loads and validates makes \<open>NewProgram\<close> return true with a live program, which
  \<open>LoadProgram\<close> returns.
\<close>

theorem unknown_semantics_warns_and_continues:
  "(str \<notin> set knownSemantics \<longrightarrow>
      ParseAttribSemantics str = (0, [debug_warn ''Invalid attribute semantics'']))
   \<and> (str \<in> set knownSemantics \<longrightarrow> snd (ParseAttribSemantics str) = [])
   \<and> (GetNodeName Param = ''attrib''
        \<and> GetNamedItem (GetAttributes Param) ''semantics'' \<notin> set knownSemantics
        \<and> condSkips env base (GetNamedItem (GetAttributes Param) ''if'') tr = (False, tr1) \<longrightarrow>
        vertexParam env base (l, tr) Param
          = (l\<lparr>vertexAttribs := (vertexAttribs l)(GetNamedItem (GetAttributes Param) ''name'' \<mapsto> 0)\<rparr>,
             tr1 @ [debug_warn ''Invalid attribute semantics'']))
   \<and> (Load env (''shaders/'' @ name @ ''.xml'') = Some root \<and> Validate env name root \<longrightarrow>
        fst (NewProgram env name base s)
        \<and> fst (snd (NewProgram env name base s)) = Some (next_address s)
        \<and> programs (snd (snd (NewProgram env name base s))) (next_address s) \<noteq> None
        \<and> fst (LoadProgram env name base (s\<lparr>m_ProgramCache := Map.empty\<rparr>)) = Some (next_address s))"
proof -
  have step: "vertexParam env base (l, tr) Param
      = (l\<lparr>vertexAttribs := (vertexAttribs l)(GetNamedItem (GetAttributes Param) ''name'' \<mapsto> 0)\<rparr>,
         tr1 @ [debug_warn ''Invalid attribute semantics''])"
    if "GetNodeName Param = ''attrib''"
       "GetNamedItem (GetAttributes Param) ''semantics'' \<notin> set knownSemantics"
       "condSkips env base (GetNamedItem (GetAttributes Param) ''if'') tr = (False, tr1)"
    using that by (simp add: vertexParam_def ParseAttribSemantics_unknown)
  have load: "fst (LoadProgram env name base (s\<lparr>m_ProgramCache := Map.empty\<rparr>)) = Some (next_address s)"
    if "Load env (''shaders/'' @ name @ ''.xml'') = Some root" "Validate env name root"
    using NewProgram_succeeds [OF that, of base "s\<lparr>m_ProgramCache := Map.empty\<rparr>"]
    by (simp add: LoadProgram_def case_prod_beta)
  show ?thesis
    using ParseAttribSemantics_unknown ParseAttribSemantics_known step load NewProgram_succeeds
    by blast
qed

theorem unknown_semantics_counterexample:
  "''gl_Tangent'' \<notin> set knownSemantics
   \<and> fst (NewProgram exampleEnv ''unknown'' [] (CShaderManager_new exampleEnv))
   \<and> fst (LoadProgram exampleEnv ''unknown'' [] (CShaderManager_new exampleEnv)) = Some 0
   \<and> programs (snd (LoadProgram exampleEnv ''unknown'' [] (CShaderManager_new exampleEnv))) 0
       = Some (ConstructGLSL ''shaders/glsl/unknown.vs'' ''shaders/glsl/unknown.fs'' []
                [''a_extra'' \<mapsto> 0] 0)
   \<and> trace (snd (LoadProgram exampleEnv ''unknown'' [] (CShaderManager_new exampleEnv)))
       = [XeroFile_Load ''shaders/unknown.xml'', ValidateEncoded ''unknown'',
          debug_warn ''Invalid attribute semantics'', Reload 0]"
proof -
  have "fst (NewProgram exampleEnv ''unknown'' [] (CShaderManager_new exampleEnv))"
    by (simp add: NewProgram_def exampleEnv_def exampleLoad_def Let_def case_prod_beta)
  then show ?thesis by (simp add: unknown_loaded knownSemantics_def)
qed

theorem unknown_semantics_warns_and_continues_witness:
  "''gl_Tangent'' \<notin> set knownSemantics
   \<and> ParseAttribSemantics ''gl_Tangent'' = (0, [debug_warn ''Invalid attribute semantics''])
   \<and> snd (ParseAttribSemantics ''gl_Normal'') = []
   \<and> vertexParam exampleEnv []
        (\<lparr>vertexFile = [], fragmentFile = [], programDefines = [], vertexUniforms = Map.empty,
          fragmentUniforms = Map.empty, vertexAttribs = Map.empty, streamFlags = 0\<rparr>, [])
        (XMBElement ''attrib'' [(''name'', ''a_extra''), (''semantics'', ''gl_Tangent'')] [])
       = (\<lparr>vertexFile = [], fragmentFile = [], programDefines = [], vertexUniforms = Map.empty,
            fragmentUniforms = Map.empty, vertexAttribs = [''a_extra'' \<mapsto> 0], streamFlags = 0\<rparr>,
          [debug_warn ''Invalid attribute semantics''])
   \<and> fst (NewProgram exampleEnv ''unknown'' [] (CShaderManager_new exampleEnv))
   \<and> fst (LoadProgram exampleEnv ''unknown'' []
        ((CShaderManager_new exampleEnv)\<lparr>m_ProgramCache := Map.empty\<rparr>)) = Some 0"
proof -
  have k: "''gl_Tangent'' \<notin> set knownSemantics" "''gl_Normal'' \<in> set knownSemantics"
    by (simp_all add: knownSemantics_def)
  have c: "condSkips exampleEnv []
      (GetNamedItem (GetAttributes
         (XMBElement ''attrib'' [(''name'', ''a_extra''), (''semantics'', ''gl_Tangent'')] [])) ''if'')
      [] = (False, [])"
    by (simp add: condSkips_def GetNamedItem_def)
  have l: "Load exampleEnv (''shaders/'' @ ''unknown'' @ ''.xml'') = Some unknownSemantics"
    "Validate exampleEnv ''unknown'' unknownSemantics"
    by (simp_all add: exampleEnv_def exampleLoad_def)
  have n: "next_address (CShaderManager_new exampleEnv) = 0"
    by (simp add: CShaderManager_new_def)
  show ?thesis
    using unknown_semantics_warns_and_continues
      [of "''gl_Tangent''" "XMBElement ''attrib'' [(''name'', ''a_extra''), (''semantics'', ''gl_Tangent'')] []"
          exampleEnv "[]" "[]" "[]" _ "''unknown''" unknownSemantics "CShaderManager_new exampleEnv"]
      unknown_semantics_warns_and_continues [of "''gl_Normal''"]
      k c l n
    by (simp add: GetNamedItem_def)
qed

lemma samplerType_unlisted:
  "t \<notin> set listedSamplers \<Longrightarrow> samplerType gles t = (GL_TEXTURE_2D, [])"
  by (simp add: samplerType_def listedSamplers_def)

lemma samplerType_gles:
  "samplerType True ''sampler1D''
     = (GL_TEXTURE_2D, [debug_warn ''sampler1D not implemented on GLES''])"
  "samplerType True ''sampler3D''
     = (GL_TEXTURE_2D, [debug_warn ''sampler3D not implemented on GLES''])"
  by (simp_all add: samplerType_def)

text \<open>
  C10. A fragment uniform whose type is none of sampler1D, sampler2D, sampler3D and
  samplerCube gets the 2D texture target and raises nothing: the loop binds its name to
  its location and \<open>GL_TEXTURE_2D\<close> and leaves the trace as the conditional test left it.
  On a GLES build, sampler1D and sampler3D raise one debug warning each and get the 2D
  target as well. In neither case does the resolution fail: a document that loads and
  validates makes \<open>NewProgram\<close> return true with a live program.
\<close>

theorem unlisted_sampler_falls_back_to_2D:
  "(t \<notin> set listedSamplers \<longrightarrow> samplerType gles t = (GL_TEXTURE_2D, []))
   \<and> samplerType True ''sampler1D''
       = (GL_TEXTURE_2D, [debug_warn ''sampler1D not implemented on GLES''])
   \<and> samplerType True ''sampler3D''
       = (GL_TEXTURE_2D, [debug_warn ''sampler3D not implemented on GLES''])
   \<and> (GetNodeName Param = ''uniform''
        \<and> GetNamedItem (GetAttributes Param) ''type'' \<notin> set listedSamplers
        \<and> condSkips env base (GetNamedItem (GetAttributes Param) ''if'') tr = (False, tr1) \<longrightarrow>
        fragmentParam env base (l, tr) Param
          = (l\<lparr>fragmentUniforms := (fragmentUniforms l)
                 (GetNamedItem (GetAttributes Param) ''name''
                    \<mapsto> (ToInt env (GetNamedItem (GetAttributes Param) ''loc''), GL_TEXTURE_2D))\<rparr>,
             tr1))
   \<and> (GetNodeName Param = ''uniform'' \<and> CONFIG2_GLES env
        \<and> GetNamedItem (GetAttributes Param) ''type'' \<in> {''sampler1D'', ''sampler3D''}
        \<and> condSkips env base (GetNamedItem (GetAttributes Param) ''if'') tr = (False, tr1) \<longrightarrow>
        fragmentParam env base (l, tr) Param
          = (l\<lparr>fragmentUniforms := (fragmentUniforms l)
                 (GetNamedItem (GetAttributes Param) ''name''
                    \<mapsto> (ToInt env (GetNamedItem (GetAttributes Param) ''loc''), GL_TEXTURE_2D))\<rparr>,
             tr1 @ [debug_warn (GetNamedItem (GetAttributes Param) ''type''
                                 @ '' not implemented on GLES'')]))
   \<and> (Load env (''shaders/'' @ name @ ''.xml'') = Some root \<and> Validate env name root \<longrightarrow>
        fst (NewProgram env name base s)
        \<and> fst (snd (NewProgram env name base s)) = Some (next_address s)
        \<and> programs (snd (snd (NewProgram env name base s))) (next_address s) \<noteq> None)"
proof -
  have step: "fragmentParam env base (l, tr) Param
          = (l\<lparr>fragmentUniforms := (fragmentUniforms l)
                 (GetNamedItem (GetAttributes Param) ''name''
                    \<mapsto> (ToInt env (GetNamedItem (GetAttributes Param) ''loc''), GL_TEXTURE_2D))\<rparr>,
             tr1)"
    if "GetNodeName Param = ''uniform''"
       "GetNamedItem (GetAttributes Param) ''type'' \<notin> set listedSamplers"
       "condSkips env base (GetNamedItem (GetAttributes Param) ''if'') tr = (False, tr1)"
    using that by (simp add: fragmentParam_def Let_def samplerType_unlisted)
  have gles: "fragmentParam env base (l, tr) Param
          = (l\<lparr>fragmentUniforms := (fragmentUniforms l)
                 (GetNamedItem (GetAttributes Param) ''name''
                    \<mapsto> (ToInt env (GetNamedItem (GetAttributes Param) ''loc''), GL_TEXTURE_2D))\<rparr>,
             tr1 @ [debug_warn (GetNamedItem (GetAttributes Param) ''type''
                                 @ '' not implemented on GLES'')])"
    if "GetNodeName Param = ''uniform''" "CONFIG2_GLES env"
       "GetNamedItem (GetAttributes Param) ''type'' \<in> {''sampler1D'', ''sampler3D''}"
       "condSkips env base (GetNamedItem (GetAttributes Param) ''if'') tr = (False, tr1)"
    using that by (auto simp: fragmentParam_def Let_def samplerType_gles)
  show ?thesis
    using samplerType_unlisted samplerType_gles step gles NewProgram_succeeds
    by blast
qed

lemma shadow_loaded:
  "programs (snd (LoadProgram exampleEnv ''shadow'' [] (CShaderManager_new exampleEnv))) 0
     = Some (ConstructARB ''shaders/arb/shadow.vp'' ''shaders/arb/shadow.fp'' [] Map.empty
              [''shadowTex'' \<mapsto> (2, GL_TEXTURE_2D)] 0)"
  "trace (snd (LoadProgram exampleEnv ''shadow'' [] (CShaderManager_new exampleEnv)))
     = [XeroFile_Load ''shaders/shadow.xml'', ValidateEncoded ''shadow'', Reload 0]"
  "fst (LoadProgram exampleEnv ''shadow'' [] (CShaderManager_new exampleEnv)) = Some 0"
  by (simp_all add: LoadProgram_def NewProgram_def exampleEnv_def exampleLoad_def
      shadowSampler_def programChild_def vertexParam_def fragmentParam_def condSkips_def
      samplerType_def constructProgram_def programFiles_def AddProgramFileDependency_def
      emit_def CShaderManager_new_def GetNamedItem_def Let_def decimal_def)

theorem unlisted_sampler_falls_back_to_2D_witness:
  "''sampler2DShadow'' \<notin> set listedSamplers
   \<and> samplerType False ''sampler2DShadow'' = (GL_TEXTURE_2D, [])
   \<and> fragmentParam exampleEnv []
        (\<lparr>vertexFile = [], fragmentFile = [], programDefines = [], vertexUniforms = Map.empty,
          fragmentUniforms = Map.empty, vertexAttribs = Map.empty, streamFlags = 0\<rparr>, [])
        (XMBElement ''uniform''
           [(''name'', ''shadowTex''), (''loc'', ''2''), (''type'', ''sampler2DShadow'')] [])
       = (\<lparr>vertexFile = [], fragmentFile = [], programDefines = [], vertexUniforms = Map.empty,
            fragmentUniforms = [''shadowTex'' \<mapsto> (2, GL_TEXTURE_2D)],
            vertexAttribs = Map.empty, streamFlags = 0\<rparr>, [])
   \<and> fragmentParam (exampleEnv\<lparr>CONFIG2_GLES := True\<rparr>) []
        (\<lparr>vertexFile = [], fragmentFile = [], programDefines = [], vertexUniforms = Map.empty,
          fragmentUniforms = Map.empty, vertexAttribs = Map.empty, streamFlags = 0\<rparr>, [])
        (XMBElement ''uniform''
           [(''name'', ''noise''), (''loc'', ''3''), (''type'', ''sampler3D'')] [])
       = (\<lparr>vertexFile = [], fragmentFile = [], programDefines = [], vertexUniforms = Map.empty,
            fragmentUniforms = [''noise'' \<mapsto> (3, GL_TEXTURE_2D)],
            vertexAttribs = Map.empty, streamFlags = 0\<rparr>,
          [debug_warn ''sampler3D not implemented on GLES''])
   \<and> fst (NewProgram exampleEnv ''shadow'' [] (CShaderManager_new exampleEnv))"
proof -
  have k: "''sampler2DShadow'' \<notin> set listedSamplers"
    by (simp add: listedSamplers_def)
  have c: "condSkips exampleEnv [] [] [] = (False, [])"
    "condSkips (exampleEnv\<lparr>CONFIG2_GLES := True\<rparr>) [] [] [] = (False, [])"
    by (simp_all add: condSkips_def)
  have l: "Load exampleEnv (''shaders/'' @ ''shadow'' @ ''.xml'') = Some shadowSampler"
    "Validate exampleEnv ''shadow'' shadowSampler"
    by (simp_all add: exampleEnv_def exampleLoad_def)
  have e: "ToInt exampleEnv ''2'' = 2" "ToInt (exampleEnv\<lparr>CONFIG2_GLES := True\<rparr>) ''3'' = 3"
    "CONFIG2_GLES (exampleEnv\<lparr>CONFIG2_GLES := True\<rparr>)"
    by (simp_all add: exampleEnv_def decimal_def)
  show ?thesis
    using unlisted_sampler_falls_back_to_2D
      [of "''sampler2DShadow''" False
          "XMBElement ''uniform''
             [(''name'', ''shadowTex''), (''loc'', ''2''), (''type'', ''sampler2DShadow'')] []"
          exampleEnv "[]" "[]" "[]" _ "''shadow''" shadowSampler "CShaderManager_new exampleEnv"]
      unlisted_sampler_falls_back_to_2D
      [of _ _ "XMBElement ''uniform''
             [(''name'', ''noise''), (''loc'', ''3''), (''type'', ''sampler3D'')] []"
          "exampleEnv\<lparr>CONFIG2_GLES := True\<rparr>" "[]" "[]" "[]"]
      k c l e
    by (simp add: GetNamedItem_def)
qed

subsection \<open>The descriptor of a pass\<close>

text \<open>A property of the descriptor that every element of a list keeps is kept by the loop.\<close>

lemma passElements_keeps:
  assumes "\<And>st e. e \<in> set Elements \<Longrightarrow> F (fst (snd (passElement env st e))) = F (fst (snd st))"
  shows "F (fst (snd (foldl (passElement env) st Elements))) = F (fst (snd st))"
  using assms by (induction Elements arbitrary: st) simp_all

lemma passElement_other_tag:
  "GetNodeName e \<notin> {''blend'', ''color'', ''cull'', ''depth'', ''polygon'', ''stencil''}
   \<Longrightarrow> fst (snd (passElement env st e)) = fst (snd st)"
  by (cases st) (simp add: passElement_def Let_def)

lemma passElement_blendState:
  "GetNodeName e \<noteq> ''blend'' \<Longrightarrow> GetNodeName e \<noteq> ''color''
   \<Longrightarrow> blendState (fst (snd (passElement env st e))) = blendState (fst (snd st))"
  by (cases st) (simp add: passElement_def Let_def)

lemma passElement_rasterizationState:
  "GetNodeName e \<noteq> ''cull'' \<Longrightarrow> GetNodeName e \<noteq> ''polygon''
   \<Longrightarrow> rasterizationState (fst (snd (passElement env st e))) = rasterizationState (fst (snd st))"
  by (cases st) (simp add: passElement_def Let_def case_prod_beta)

lemma passElement_depthStencilState:
  "GetNodeName e \<noteq> ''depth'' \<Longrightarrow> GetNodeName e \<noteq> ''stencil''
   \<Longrightarrow> depthStencilState (fst (snd (passElement env st e))) = depthStencilState (fst (snd st))"
  by (cases st) (simp add: passElement_def Let_def case_prod_beta)

lemma passElement_colorWriteMask:
  "GetNodeName e \<noteq> ''color''
   \<Longrightarrow> colorWriteMask (blendState (fst (snd (passElement env st e))))
       = colorWriteMask (blendState (fst (snd st)))"
  by (cases st) (simp add: passElement_def blendTag_def Let_def case_prod_beta)

lemma passElement_color:
  "GetNodeName e = ''color''
   \<Longrightarrow> colorWriteMask (blendState (fst (snd (passElement env st e))))
       = colorWriteMask (colorTag (GetAttributes e) b)"
  by (cases st) (simp add: passElement_def colorTag_def Let_def)

text \<open>What each tag leaves of the state it works on.\<close>

lemma blendTag_keeps:
  "colorWriteMask (fst (blendTag env A b tr)) = colorWriteMask b"
  "GetNamedItem A ''op'' = [] \<Longrightarrow> colorBlendOp (fst (blendTag env A b tr)) = colorBlendOp b"
  "GetNamedItem A ''op'' = [] \<Longrightarrow> alphaBlendOp (fst (blendTag env A b tr)) = alphaBlendOp b"
  "GetNamedItem A ''constant'' = [] \<Longrightarrow> constant' (fst (blendTag env A b tr)) = constant' b"
  by (simp_all add: blendTag_def Let_def case_prod_beta)

lemma colorTag_keeps:
  "enabled (colorTag A b) = enabled b"
  "srcColorBlendFactor (colorTag A b) = srcColorBlendFactor b"
  "dstColorBlendFactor (colorTag A b) = dstColorBlendFactor b"
  "srcAlphaBlendFactor (colorTag A b) = srcAlphaBlendFactor b"
  "dstAlphaBlendFactor (colorTag A b) = dstAlphaBlendFactor b"
  "colorBlendOp (colorTag A b) = colorBlendOp b"
  "alphaBlendOp (colorTag A b) = alphaBlendOp b"
  "constant' (colorTag A b) = constant' b"
  by (simp_all add: colorTag_def Let_def)

lemma cullTag_keeps:
  "polygonMode (cullTag env A r) = polygonMode r"
  "GetNamedItem A ''mode'' = [] \<Longrightarrow> cullMode (cullTag env A r) = cullMode r"
  "GetNamedItem A ''front_face'' = [] \<Longrightarrow> frontFace (cullTag env A r) = frontFace r"
  by (simp_all add: cullTag_def Let_def)

lemma polygonTag_keeps:
  "cullMode (polygonTag env A r) = cullMode r"
  "frontFace (polygonTag env A r) = frontFace r"
  "GetNamedItem A ''mode'' = [] \<Longrightarrow> polygonMode (polygonTag env A r) = polygonMode r"
  by (simp_all add: polygonTag_def)

lemma depthTag_keeps:
  "stencilTestEnabled (depthTag env A d) = stencilTestEnabled d"
  "stencilReference (depthTag env A d) = stencilReference d"
  "stencilReadMask (depthTag env A d) = stencilReadMask d"
  "stencilWriteMask (depthTag env A d) = stencilWriteMask d"
  "stencilFrontFace (depthTag env A d) = stencilFrontFace d"
  "stencilBackFace (depthTag env A d) = stencilBackFace d"
  "GetNamedItem A ''test'' = [] \<Longrightarrow> depthTestEnabled (depthTag env A d) = depthTestEnabled d"
  "GetNamedItem A ''func'' = [] \<Longrightarrow> depthCompareOp (depthTag env A d) = depthCompareOp d"
  "GetNamedItem A ''mask'' = [] \<Longrightarrow> depthWriteEnabled (depthTag env A d) = depthWriteEnabled d"
  by (simp_all add: depthTag_def Let_def)

lemma stencilTag_keeps_depth:
  "depthTestEnabled (stencilTag env A d) = depthTestEnabled d"
  "depthCompareOp (stencilTag env A d) = depthCompareOp d"
  "depthWriteEnabled (stencilTag env A d) = depthWriteEnabled d"
  by (simp_all add: stencilTag_def Let_def)

lemma stencilTag_keeps:
  "GetNamedItem A ''test'' = [] \<Longrightarrow> stencilTestEnabled (stencilTag env A d) = stencilTestEnabled d"
  "GetNamedItem A ''reference'' = [] \<Longrightarrow> stencilReference (stencilTag env A d) = stencilReference d"
  "GetNamedItem A ''mask_read'' = [] \<Longrightarrow> stencilReadMask (stencilTag env A d) = stencilReadMask d"
  "GetNamedItem A ''mask'' = [] \<Longrightarrow> stencilWriteMask (stencilTag env A d) = stencilWriteMask d"
  by (simp_all add: stencilTag_def Let_def)

lemma stencilTag_keeps_ops:
  "GetNamedItem A ''compare'' = [] \<Longrightarrow>
     compareOp (stencilFrontFace (stencilTag env A d)) = compareOp (stencilFrontFace d)
     \<and> compareOp (stencilBackFace (stencilTag env A d)) = compareOp (stencilBackFace d)"
  "GetNamedItem A ''fail'' = [] \<Longrightarrow>
     failOp (stencilFrontFace (stencilTag env A d)) = failOp (stencilFrontFace d)
     \<and> failOp (stencilBackFace (stencilTag env A d)) = failOp (stencilBackFace d)"
  "GetNamedItem A ''pass'' = [] \<Longrightarrow>
     passOp (stencilFrontFace (stencilTag env A d)) = passOp (stencilFrontFace d)
     \<and> passOp (stencilBackFace (stencilTag env A d)) = passOp (stencilBackFace d)"
  "GetNamedItem A ''depth_fail'' = [] \<Longrightarrow>
     depthFailOp (stencilFrontFace (stencilTag env A d)) = depthFailOp (stencilFrontFace d)
     \<and> depthFailOp (stencilBackFace (stencilTag env A d)) = depthFailOp (stencilBackFace d)"
  by (simp_all add: stencilTag_def Let_def)

lemmas tag_keeps = blendTag_keeps colorTag_keeps cullTag_keeps polygonTag_keeps depthTag_keeps
  stencilTag_keeps_depth stencilTag_keeps stencilTag_keeps_ops

text \<open>
  A field of the descriptor keeps its default through the loop of a pass when the tag
  that sets it, or the attribute of that tag, is absent from the pass.
\<close>

lemma default_enabled:
  assumes "tagAbsent ''blend'' Elements"
  shows "enabled (blendState (fst (snd (passElements env td tr Elements))))
            = enabled (blendState (MakeDefaultGraphicsPipelineStateDesc env))"
proof -
  have k: "enabled (blendState (fst (snd (passElement env st e))))
              = enabled (blendState (fst (snd st)))"
    if "e \<in> set Elements" for st e
    using assms that
    by (cases st) (auto simp: tagAbsent_def attributeAbsent_def passElement_def Let_def
        case_prod_beta tag_keeps)
  show ?thesis
    unfolding passElements_def
    using passElements_keeps
        [where F = "\<lambda>d. enabled (blendState d)" and env = env and Elements = Elements
        and st = "(td, MakeDefaultGraphicsPipelineStateDesc env, tr)", OF k]
    by simp
qed

lemma default_srcColorBlendFactor:
  assumes "tagAbsent ''blend'' Elements"
  shows "srcColorBlendFactor (blendState (fst (snd (passElements env td tr Elements))))
            = srcColorBlendFactor (blendState (MakeDefaultGraphicsPipelineStateDesc env))"
proof -
  have k: "srcColorBlendFactor (blendState (fst (snd (passElement env st e))))
              = srcColorBlendFactor (blendState (fst (snd st)))"
    if "e \<in> set Elements" for st e
    using assms that
    by (cases st) (auto simp: tagAbsent_def attributeAbsent_def passElement_def Let_def
        case_prod_beta tag_keeps)
  show ?thesis
    unfolding passElements_def
    using passElements_keeps
        [where F = "\<lambda>d. srcColorBlendFactor (blendState d)" and env = env and Elements = Elements
        and st = "(td, MakeDefaultGraphicsPipelineStateDesc env, tr)", OF k]
    by simp
qed

lemma default_dstColorBlendFactor:
  assumes "tagAbsent ''blend'' Elements"
  shows "dstColorBlendFactor (blendState (fst (snd (passElements env td tr Elements))))
            = dstColorBlendFactor (blendState (MakeDefaultGraphicsPipelineStateDesc env))"
proof -
  have k: "dstColorBlendFactor (blendState (fst (snd (passElement env st e))))
              = dstColorBlendFactor (blendState (fst (snd st)))"
    if "e \<in> set Elements" for st e
    using assms that
    by (cases st) (auto simp: tagAbsent_def attributeAbsent_def passElement_def Let_def
        case_prod_beta tag_keeps)
  show ?thesis
    unfolding passElements_def
    using passElements_keeps
        [where F = "\<lambda>d. dstColorBlendFactor (blendState d)" and env = env and Elements = Elements
        and st = "(td, MakeDefaultGraphicsPipelineStateDesc env, tr)", OF k]
    by simp
qed

lemma default_srcAlphaBlendFactor:
  assumes "tagAbsent ''blend'' Elements"
  shows "srcAlphaBlendFactor (blendState (fst (snd (passElements env td tr Elements))))
            = srcAlphaBlendFactor (blendState (MakeDefaultGraphicsPipelineStateDesc env))"
proof -
  have k: "srcAlphaBlendFactor (blendState (fst (snd (passElement env st e))))
              = srcAlphaBlendFactor (blendState (fst (snd st)))"
    if "e \<in> set Elements" for st e
    using assms that
    by (cases st) (auto simp: tagAbsent_def attributeAbsent_def passElement_def Let_def
        case_prod_beta tag_keeps)
  show ?thesis
    unfolding passElements_def
    using passElements_keeps
        [where F = "\<lambda>d. srcAlphaBlendFactor (blendState d)" and env = env and Elements = Elements
        and st = "(td, MakeDefaultGraphicsPipelineStateDesc env, tr)", OF k]
    by simp
qed

lemma default_dstAlphaBlendFactor:
  assumes "tagAbsent ''blend'' Elements"
  shows "dstAlphaBlendFactor (blendState (fst (snd (passElements env td tr Elements))))
            = dstAlphaBlendFactor (blendState (MakeDefaultGraphicsPipelineStateDesc env))"
proof -
  have k: "dstAlphaBlendFactor (blendState (fst (snd (passElement env st e))))
              = dstAlphaBlendFactor (blendState (fst (snd st)))"
    if "e \<in> set Elements" for st e
    using assms that
    by (cases st) (auto simp: tagAbsent_def attributeAbsent_def passElement_def Let_def
        case_prod_beta tag_keeps)
  show ?thesis
    unfolding passElements_def
    using passElements_keeps
        [where F = "\<lambda>d. dstAlphaBlendFactor (blendState d)" and env = env and Elements = Elements
        and st = "(td, MakeDefaultGraphicsPipelineStateDesc env, tr)", OF k]
    by simp
qed

lemma default_colorBlendOp:
  assumes "attributeAbsent ''blend'' ''op'' Elements"
  shows "colorBlendOp (blendState (fst (snd (passElements env td tr Elements))))
            = colorBlendOp (blendState (MakeDefaultGraphicsPipelineStateDesc env))"
proof -
  have k: "colorBlendOp (blendState (fst (snd (passElement env st e))))
              = colorBlendOp (blendState (fst (snd st)))"
    if "e \<in> set Elements" for st e
    using assms that
    by (cases st) (auto simp: tagAbsent_def attributeAbsent_def passElement_def Let_def
        case_prod_beta tag_keeps)
  show ?thesis
    unfolding passElements_def
    using passElements_keeps
        [where F = "\<lambda>d. colorBlendOp (blendState d)" and env = env and Elements = Elements
        and st = "(td, MakeDefaultGraphicsPipelineStateDesc env, tr)", OF k]
    by simp
qed

lemma default_alphaBlendOp:
  assumes "attributeAbsent ''blend'' ''op'' Elements"
  shows "alphaBlendOp (blendState (fst (snd (passElements env td tr Elements))))
            = alphaBlendOp (blendState (MakeDefaultGraphicsPipelineStateDesc env))"
proof -
  have k: "alphaBlendOp (blendState (fst (snd (passElement env st e))))
              = alphaBlendOp (blendState (fst (snd st)))"
    if "e \<in> set Elements" for st e
    using assms that
    by (cases st) (auto simp: tagAbsent_def attributeAbsent_def passElement_def Let_def
        case_prod_beta tag_keeps)
  show ?thesis
    unfolding passElements_def
    using passElements_keeps
        [where F = "\<lambda>d. alphaBlendOp (blendState d)" and env = env and Elements = Elements
        and st = "(td, MakeDefaultGraphicsPipelineStateDesc env, tr)", OF k]
    by simp
qed

lemma default_constant:
  assumes "attributeAbsent ''blend'' ''constant'' Elements"
  shows "constant' (blendState (fst (snd (passElements env td tr Elements))))
            = constant' (blendState (MakeDefaultGraphicsPipelineStateDesc env))"
proof -
  have k: "constant' (blendState (fst (snd (passElement env st e))))
              = constant' (blendState (fst (snd st)))"
    if "e \<in> set Elements" for st e
    using assms that
    by (cases st) (auto simp: tagAbsent_def attributeAbsent_def passElement_def Let_def
        case_prod_beta tag_keeps)
  show ?thesis
    unfolding passElements_def
    using passElements_keeps
        [where F = "\<lambda>d. constant' (blendState d)" and env = env and Elements = Elements
        and st = "(td, MakeDefaultGraphicsPipelineStateDesc env, tr)", OF k]
    by simp
qed

lemma default_polygonMode:
  assumes "attributeAbsent ''polygon'' ''mode'' Elements"
  shows "polygonMode (rasterizationState (fst (snd (passElements env td tr Elements))))
            = polygonMode (rasterizationState (MakeDefaultGraphicsPipelineStateDesc env))"
proof -
  have k: "polygonMode (rasterizationState (fst (snd (passElement env st e))))
              = polygonMode (rasterizationState (fst (snd st)))"
    if "e \<in> set Elements" for st e
    using assms that
    by (cases st) (auto simp: tagAbsent_def attributeAbsent_def passElement_def Let_def
        case_prod_beta tag_keeps)
  show ?thesis
    unfolding passElements_def
    using passElements_keeps
        [where F = "\<lambda>d. polygonMode (rasterizationState d)" and env = env and Elements = Elements
        and st = "(td, MakeDefaultGraphicsPipelineStateDesc env, tr)", OF k]
    by simp
qed

lemma default_cullMode:
  assumes "attributeAbsent ''cull'' ''mode'' Elements"
  shows "cullMode (rasterizationState (fst (snd (passElements env td tr Elements))))
            = cullMode (rasterizationState (MakeDefaultGraphicsPipelineStateDesc env))"
proof -
  have k: "cullMode (rasterizationState (fst (snd (passElement env st e))))
              = cullMode (rasterizationState (fst (snd st)))"
    if "e \<in> set Elements" for st e
    using assms that
    by (cases st) (auto simp: tagAbsent_def attributeAbsent_def passElement_def Let_def
        case_prod_beta tag_keeps)
  show ?thesis
    unfolding passElements_def
    using passElements_keeps
        [where F = "\<lambda>d. cullMode (rasterizationState d)" and env = env and Elements = Elements
        and st = "(td, MakeDefaultGraphicsPipelineStateDesc env, tr)", OF k]
    by simp
qed

lemma default_frontFace:
  assumes "attributeAbsent ''cull'' ''front_face'' Elements"
  shows "frontFace (rasterizationState (fst (snd (passElements env td tr Elements))))
            = frontFace (rasterizationState (MakeDefaultGraphicsPipelineStateDesc env))"
proof -
  have k: "frontFace (rasterizationState (fst (snd (passElement env st e))))
              = frontFace (rasterizationState (fst (snd st)))"
    if "e \<in> set Elements" for st e
    using assms that
    by (cases st) (auto simp: tagAbsent_def attributeAbsent_def passElement_def Let_def
        case_prod_beta tag_keeps)
  show ?thesis
    unfolding passElements_def
    using passElements_keeps
        [where F = "\<lambda>d. frontFace (rasterizationState d)" and env = env and Elements = Elements
        and st = "(td, MakeDefaultGraphicsPipelineStateDesc env, tr)", OF k]
    by simp
qed

lemma default_depthTestEnabled:
  assumes "attributeAbsent ''depth'' ''test'' Elements"
  shows "depthTestEnabled (depthStencilState (fst (snd (passElements env td tr Elements))))
            = depthTestEnabled (depthStencilState (MakeDefaultGraphicsPipelineStateDesc env))"
proof -
  have k: "depthTestEnabled (depthStencilState (fst (snd (passElement env st e))))
              = depthTestEnabled (depthStencilState (fst (snd st)))"
    if "e \<in> set Elements" for st e
    using assms that
    by (cases st) (auto simp: tagAbsent_def attributeAbsent_def passElement_def Let_def
        case_prod_beta tag_keeps)
  show ?thesis
    unfolding passElements_def
    using passElements_keeps
        [where F = "\<lambda>d. depthTestEnabled (depthStencilState d)" and env = env and Elements = Elements
        and st = "(td, MakeDefaultGraphicsPipelineStateDesc env, tr)", OF k]
    by simp
qed

lemma default_depthCompareOp:
  assumes "attributeAbsent ''depth'' ''func'' Elements"
  shows "depthCompareOp (depthStencilState (fst (snd (passElements env td tr Elements))))
            = depthCompareOp (depthStencilState (MakeDefaultGraphicsPipelineStateDesc env))"
proof -
  have k: "depthCompareOp (depthStencilState (fst (snd (passElement env st e))))
              = depthCompareOp (depthStencilState (fst (snd st)))"
    if "e \<in> set Elements" for st e
    using assms that
    by (cases st) (auto simp: tagAbsent_def attributeAbsent_def passElement_def Let_def
        case_prod_beta tag_keeps)
  show ?thesis
    unfolding passElements_def
    using passElements_keeps
        [where F = "\<lambda>d. depthCompareOp (depthStencilState d)" and env = env and Elements = Elements
        and st = "(td, MakeDefaultGraphicsPipelineStateDesc env, tr)", OF k]
    by simp
qed

lemma default_depthWriteEnabled:
  assumes "attributeAbsent ''depth'' ''mask'' Elements"
  shows "depthWriteEnabled (depthStencilState (fst (snd (passElements env td tr Elements))))
            = depthWriteEnabled (depthStencilState (MakeDefaultGraphicsPipelineStateDesc env))"
proof -
  have k: "depthWriteEnabled (depthStencilState (fst (snd (passElement env st e))))
              = depthWriteEnabled (depthStencilState (fst (snd st)))"
    if "e \<in> set Elements" for st e
    using assms that
    by (cases st) (auto simp: tagAbsent_def attributeAbsent_def passElement_def Let_def
        case_prod_beta tag_keeps)
  show ?thesis
    unfolding passElements_def
    using passElements_keeps
        [where F = "\<lambda>d. depthWriteEnabled (depthStencilState d)" and env = env and Elements = Elements
        and st = "(td, MakeDefaultGraphicsPipelineStateDesc env, tr)", OF k]
    by simp
qed

lemma default_stencilTestEnabled:
  assumes "attributeAbsent ''stencil'' ''test'' Elements"
  shows "stencilTestEnabled (depthStencilState (fst (snd (passElements env td tr Elements))))
            = stencilTestEnabled (depthStencilState (MakeDefaultGraphicsPipelineStateDesc env))"
proof -
  have k: "stencilTestEnabled (depthStencilState (fst (snd (passElement env st e))))
              = stencilTestEnabled (depthStencilState (fst (snd st)))"
    if "e \<in> set Elements" for st e
    using assms that
    by (cases st) (auto simp: tagAbsent_def attributeAbsent_def passElement_def Let_def
        case_prod_beta tag_keeps)
  show ?thesis
    unfolding passElements_def
    using passElements_keeps
        [where F = "\<lambda>d. stencilTestEnabled (depthStencilState d)" and env = env and Elements = Elements
        and st = "(td, MakeDefaultGraphicsPipelineStateDesc env, tr)", OF k]
    by simp
qed

lemma default_stencilReference:
  assumes "attributeAbsent ''stencil'' ''reference'' Elements"
  shows "stencilReference (depthStencilState (fst (snd (passElements env td tr Elements))))
            = stencilReference (depthStencilState (MakeDefaultGraphicsPipelineStateDesc env))"
proof -
  have k: "stencilReference (depthStencilState (fst (snd (passElement env st e))))
              = stencilReference (depthStencilState (fst (snd st)))"
    if "e \<in> set Elements" for st e
    using assms that
    by (cases st) (auto simp: tagAbsent_def attributeAbsent_def passElement_def Let_def
        case_prod_beta tag_keeps)
  show ?thesis
    unfolding passElements_def
    using passElements_keeps
        [where F = "\<lambda>d. stencilReference (depthStencilState d)" and env = env and Elements = Elements
        and st = "(td, MakeDefaultGraphicsPipelineStateDesc env, tr)", OF k]
    by simp
qed

lemma default_stencilReadMask:
  assumes "attributeAbsent ''stencil'' ''mask_read'' Elements"
  shows "stencilReadMask (depthStencilState (fst (snd (passElements env td tr Elements))))
            = stencilReadMask (depthStencilState (MakeDefaultGraphicsPipelineStateDesc env))"
proof -
  have k: "stencilReadMask (depthStencilState (fst (snd (passElement env st e))))
              = stencilReadMask (depthStencilState (fst (snd st)))"
    if "e \<in> set Elements" for st e
    using assms that
    by (cases st) (auto simp: tagAbsent_def attributeAbsent_def passElement_def Let_def
        case_prod_beta tag_keeps)
  show ?thesis
    unfolding passElements_def
    using passElements_keeps
        [where F = "\<lambda>d. stencilReadMask (depthStencilState d)" and env = env and Elements = Elements
        and st = "(td, MakeDefaultGraphicsPipelineStateDesc env, tr)", OF k]
    by simp
qed

lemma default_stencilWriteMask:
  assumes "attributeAbsent ''stencil'' ''mask'' Elements"
  shows "stencilWriteMask (depthStencilState (fst (snd (passElements env td tr Elements))))
            = stencilWriteMask (depthStencilState (MakeDefaultGraphicsPipelineStateDesc env))"
proof -
  have k: "stencilWriteMask (depthStencilState (fst (snd (passElement env st e))))
              = stencilWriteMask (depthStencilState (fst (snd st)))"
    if "e \<in> set Elements" for st e
    using assms that
    by (cases st) (auto simp: tagAbsent_def attributeAbsent_def passElement_def Let_def
        case_prod_beta tag_keeps)
  show ?thesis
    unfolding passElements_def
    using passElements_keeps
        [where F = "\<lambda>d. stencilWriteMask (depthStencilState d)" and env = env and Elements = Elements
        and st = "(td, MakeDefaultGraphicsPipelineStateDesc env, tr)", OF k]
    by simp
qed

lemma default_compareOp_stencilFrontFace:
  assumes "attributeAbsent ''stencil'' ''compare'' Elements"
  shows "compareOp (stencilFrontFace (depthStencilState (fst (snd (passElements env td tr Elements)))))
            = compareOp (stencilFrontFace (depthStencilState (MakeDefaultGraphicsPipelineStateDesc env)))"
proof -
  have k: "compareOp (stencilFrontFace (depthStencilState (fst (snd (passElement env st e)))))
              = compareOp (stencilFrontFace (depthStencilState (fst (snd st))))"
    if "e \<in> set Elements" for st e
    using assms that
    by (cases st) (auto simp: tagAbsent_def attributeAbsent_def passElement_def Let_def
        case_prod_beta tag_keeps)
  show ?thesis
    unfolding passElements_def
    using passElements_keeps
        [where F = "\<lambda>d. compareOp (stencilFrontFace (depthStencilState d))" and env = env and Elements = Elements
        and st = "(td, MakeDefaultGraphicsPipelineStateDesc env, tr)", OF k]
    by simp
qed

lemma default_compareOp_stencilBackFace:
  assumes "attributeAbsent ''stencil'' ''compare'' Elements"
  shows "compareOp (stencilBackFace (depthStencilState (fst (snd (passElements env td tr Elements)))))
            = compareOp (stencilBackFace (depthStencilState (MakeDefaultGraphicsPipelineStateDesc env)))"
proof -
  have k: "compareOp (stencilBackFace (depthStencilState (fst (snd (passElement env st e)))))
              = compareOp (stencilBackFace (depthStencilState (fst (snd st))))"
    if "e \<in> set Elements" for st e
    using assms that
    by (cases st) (auto simp: tagAbsent_def attributeAbsent_def passElement_def Let_def
        case_prod_beta tag_keeps)
  show ?thesis
    unfolding passElements_def
    using passElements_keeps
        [where F = "\<lambda>d. compareOp (stencilBackFace (depthStencilState d))" and env = env and Elements = Elements
        and st = "(td, MakeDefaultGraphicsPipelineStateDesc env, tr)", OF k]
    by simp
qed

lemma default_failOp_stencilFrontFace:
  assumes "attributeAbsent ''stencil'' ''fail'' Elements"
  shows "failOp (stencilFrontFace (depthStencilState (fst (snd (passElements env td tr Elements)))))
            = failOp (stencilFrontFace (depthStencilState (MakeDefaultGraphicsPipelineStateDesc env)))"
proof -
  have k: "failOp (stencilFrontFace (depthStencilState (fst (snd (passElement env st e)))))
              = failOp (stencilFrontFace (depthStencilState (fst (snd st))))"
    if "e \<in> set Elements" for st e
    using assms that
    by (cases st) (auto simp: tagAbsent_def attributeAbsent_def passElement_def Let_def
        case_prod_beta tag_keeps)
  show ?thesis
    unfolding passElements_def
    using passElements_keeps
        [where F = "\<lambda>d. failOp (stencilFrontFace (depthStencilState d))" and env = env and Elements = Elements
        and st = "(td, MakeDefaultGraphicsPipelineStateDesc env, tr)", OF k]
    by simp
qed

lemma default_failOp_stencilBackFace:
  assumes "attributeAbsent ''stencil'' ''fail'' Elements"
  shows "failOp (stencilBackFace (depthStencilState (fst (snd (passElements env td tr Elements)))))
            = failOp (stencilBackFace (depthStencilState (MakeDefaultGraphicsPipelineStateDesc env)))"
proof -
  have k: "failOp (stencilBackFace (depthStencilState (fst (snd (passElement env st e)))))
              = failOp (stencilBackFace (depthStencilState (fst (snd st))))"
    if "e \<in> set Elements" for st e
    using assms that
    by (cases st) (auto simp: tagAbsent_def attributeAbsent_def passElement_def Let_def
        case_prod_beta tag_keeps)
  show ?thesis
    unfolding passElements_def
    using passElements_keeps
        [where F = "\<lambda>d. failOp (stencilBackFace (depthStencilState d))" and env = env and Elements = Elements
        and st = "(td, MakeDefaultGraphicsPipelineStateDesc env, tr)", OF k]
    by simp
qed

lemma default_passOp_stencilFrontFace:
  assumes "attributeAbsent ''stencil'' ''pass'' Elements"
  shows "passOp (stencilFrontFace (depthStencilState (fst (snd (passElements env td tr Elements)))))
            = passOp (stencilFrontFace (depthStencilState (MakeDefaultGraphicsPipelineStateDesc env)))"
proof -
  have k: "passOp (stencilFrontFace (depthStencilState (fst (snd (passElement env st e)))))
              = passOp (stencilFrontFace (depthStencilState (fst (snd st))))"
    if "e \<in> set Elements" for st e
    using assms that
    by (cases st) (auto simp: tagAbsent_def attributeAbsent_def passElement_def Let_def
        case_prod_beta tag_keeps)
  show ?thesis
    unfolding passElements_def
    using passElements_keeps
        [where F = "\<lambda>d. passOp (stencilFrontFace (depthStencilState d))" and env = env and Elements = Elements
        and st = "(td, MakeDefaultGraphicsPipelineStateDesc env, tr)", OF k]
    by simp
qed

lemma default_passOp_stencilBackFace:
  assumes "attributeAbsent ''stencil'' ''pass'' Elements"
  shows "passOp (stencilBackFace (depthStencilState (fst (snd (passElements env td tr Elements)))))
            = passOp (stencilBackFace (depthStencilState (MakeDefaultGraphicsPipelineStateDesc env)))"
proof -
  have k: "passOp (stencilBackFace (depthStencilState (fst (snd (passElement env st e)))))
              = passOp (stencilBackFace (depthStencilState (fst (snd st))))"
    if "e \<in> set Elements" for st e
    using assms that
    by (cases st) (auto simp: tagAbsent_def attributeAbsent_def passElement_def Let_def
        case_prod_beta tag_keeps)
  show ?thesis
    unfolding passElements_def
    using passElements_keeps
        [where F = "\<lambda>d. passOp (stencilBackFace (depthStencilState d))" and env = env and Elements = Elements
        and st = "(td, MakeDefaultGraphicsPipelineStateDesc env, tr)", OF k]
    by simp
qed

lemma default_depthFailOp_stencilFrontFace:
  assumes "attributeAbsent ''stencil'' ''depth_fail'' Elements"
  shows "depthFailOp (stencilFrontFace (depthStencilState (fst (snd (passElements env td tr Elements)))))
            = depthFailOp (stencilFrontFace (depthStencilState (MakeDefaultGraphicsPipelineStateDesc env)))"
proof -
  have k: "depthFailOp (stencilFrontFace (depthStencilState (fst (snd (passElement env st e)))))
              = depthFailOp (stencilFrontFace (depthStencilState (fst (snd st))))"
    if "e \<in> set Elements" for st e
    using assms that
    by (cases st) (auto simp: tagAbsent_def attributeAbsent_def passElement_def Let_def
        case_prod_beta tag_keeps)
  show ?thesis
    unfolding passElements_def
    using passElements_keeps
        [where F = "\<lambda>d. depthFailOp (stencilFrontFace (depthStencilState d))" and env = env and Elements = Elements
        and st = "(td, MakeDefaultGraphicsPipelineStateDesc env, tr)", OF k]
    by simp
qed

lemma default_depthFailOp_stencilBackFace:
  assumes "attributeAbsent ''stencil'' ''depth_fail'' Elements"
  shows "depthFailOp (stencilBackFace (depthStencilState (fst (snd (passElements env td tr Elements)))))
            = depthFailOp (stencilBackFace (depthStencilState (MakeDefaultGraphicsPipelineStateDesc env)))"
proof -
  have k: "depthFailOp (stencilBackFace (depthStencilState (fst (snd (passElement env st e)))))
              = depthFailOp (stencilBackFace (depthStencilState (fst (snd st))))"
    if "e \<in> set Elements" for st e
    using assms that
    by (cases st) (auto simp: tagAbsent_def attributeAbsent_def passElement_def Let_def
        case_prod_beta tag_keeps)
  show ?thesis
    unfolding passElements_def
    using passElements_keeps
        [where F = "\<lambda>d. depthFailOp (stencilBackFace (depthStencilState d))" and env = env and Elements = Elements
        and st = "(td, MakeDefaultGraphicsPipelineStateDesc env, tr)", OF k]
    by simp
qed

lemma default_colorWriteMask:
  assumes "tagAbsent ''color'' Elements"
  shows "colorWriteMask (blendState (fst (snd (passElements env td tr Elements))))
            = colorWriteMask (blendState (MakeDefaultGraphicsPipelineStateDesc env))"
proof -
  have k: "colorWriteMask (blendState (fst (snd (passElement env st e))))
              = colorWriteMask (blendState (fst (snd st)))"
    if "e \<in> set Elements" for st e
    using assms that
    by (cases st) (auto simp: tagAbsent_def attributeAbsent_def passElement_def Let_def
        case_prod_beta tag_keeps)
  show ?thesis
    unfolding passElements_def
    using passElements_keeps
        [where F = "\<lambda>d. colorWriteMask (blendState d)" and env = env and Elements = Elements
        and st = "(td, MakeDefaultGraphicsPipelineStateDesc env, tr)", OF k]
    by simp
qed


lemma passElements_last_tag:
  assumes "\<And>st x. x \<in> set after \<Longrightarrow> F (fst (snd (passElement env st x))) = F (fst (snd st))"
  shows "F (fst (snd (passElements env td tr (before @ [e] @ after))))
           = F (fst (snd (passElement env (passElements env td tr before) e)))"
  by (simp add: passElements_def passElements_keeps [OF assms])

lemma colorTag_mask:
  "colorWriteMask (colorTag A b)
     = (if GetNamedItem A ''mask_red'' = ''TRUE'' then RED else 0)
       OR (if GetNamedItem A ''mask_green'' = ''TRUE'' then GREEN else 0)
       OR (if GetNamedItem A ''mask_blue'' = ''TRUE'' then BLUE else 0)
       OR (if GetNamedItem A ''mask_alpha'' = ''TRUE'' then ALPHA else 0)"
  by (simp add: colorTag_def MASK_CHANNEL_def Let_def or.assoc)

lemma channel_bits:
  fixes r g b a :: bool
  defines "m \<equiv> (if r then RED else 0) OR (if g then GREEN else 0)
                 OR (if b then BLUE else 0) OR (if a then ALPHA else 0)"
  shows "(m AND RED = RED) = r" "(m AND GREEN = GREEN) = g" "(m AND BLUE = BLUE) = b"
    "(m AND ALPHA = ALPHA) = a" "m AND NOT (RED OR GREEN OR BLUE OR ALPHA) = 0"
  unfolding m_def by (cases r; cases g; cases b; cases a; simp add: RED_def GREEN_def BLUE_def ALPHA_def)+

text \<open>
  C8. In a pass with a \<^verbatim>\<open>color\<close> tag, the colour write mask of the descriptor is the one
  its last \<^verbatim>\<open>color\<close> tag builds from zero: the bit of a channel is set exactly when the
  attribute of the channel is the string TRUE, for each of the four channels, no other
  bit is set, and the mask of the default descriptor plays no part.
\<close>

theorem color_tag_rebuilds_mask:
  "GetNodeName e = ''color'' \<and> tagAbsent ''color'' after \<longrightarrow>
     (let m = colorWriteMask (blendState (fst (snd
                (passElements env td tr (before @ [e] @ after)))));
          A = GetAttributes e
      in m = (if GetNamedItem A ''mask_red'' = ''TRUE'' then RED else 0)
             OR (if GetNamedItem A ''mask_green'' = ''TRUE'' then GREEN else 0)
             OR (if GetNamedItem A ''mask_blue'' = ''TRUE'' then BLUE else 0)
             OR (if GetNamedItem A ''mask_alpha'' = ''TRUE'' then ALPHA else 0)
         \<and> (m AND RED = RED \<longleftrightarrow> GetNamedItem A ''mask_red'' = ''TRUE'')
         \<and> (m AND GREEN = GREEN \<longleftrightarrow> GetNamedItem A ''mask_green'' = ''TRUE'')
         \<and> (m AND BLUE = BLUE \<longleftrightarrow> GetNamedItem A ''mask_blue'' = ''TRUE'')
         \<and> (m AND ALPHA = ALPHA \<longleftrightarrow> GetNamedItem A ''mask_alpha'' = ''TRUE'')
         \<and> m AND NOT (RED OR GREEN OR BLUE OR ALPHA) = 0)"
proof (intro impI, elim conjE)
  assume e: "GetNodeName e = ''color''" and a: "tagAbsent ''color'' after"
  have k: "colorWriteMask (blendState (fst (snd (passElement env st x))))
             = colorWriteMask (blendState (fst (snd st)))"
    if "x \<in> set after" for st x
    using a that by (simp add: tagAbsent_def passElement_colorWriteMask)
  have "colorWriteMask (blendState (fst (snd (passElements env td tr (before @ [e] @ after)))))
          = colorWriteMask (blendState (fst (snd
              (passElement env (passElements env td tr before) e))))"
    by (rule passElements_last_tag [where F = "\<lambda>d. colorWriteMask (blendState d)", OF k])
  also have "\<dots> = colorWriteMask (colorTag (GetAttributes e) b)"
    for b by (rule passElement_color [OF e])
  finally have m: "colorWriteMask (blendState (fst (snd
        (passElements env td tr (before @ [e] @ after)))))
      = (if GetNamedItem (GetAttributes e) ''mask_red'' = ''TRUE'' then RED else 0)
        OR (if GetNamedItem (GetAttributes e) ''mask_green'' = ''TRUE'' then GREEN else 0)
        OR (if GetNamedItem (GetAttributes e) ''mask_blue'' = ''TRUE'' then BLUE else 0)
        OR (if GetNamedItem (GetAttributes e) ''mask_alpha'' = ''TRUE'' then ALPHA else 0)"
    by (simp add: colorTag_mask)
  show "let m = colorWriteMask (blendState (fst (snd
                (passElements env td tr (before @ [e] @ after)))));
          A = GetAttributes e
      in m = (if GetNamedItem A ''mask_red'' = ''TRUE'' then RED else 0)
             OR (if GetNamedItem A ''mask_green'' = ''TRUE'' then GREEN else 0)
             OR (if GetNamedItem A ''mask_blue'' = ''TRUE'' then BLUE else 0)
             OR (if GetNamedItem A ''mask_alpha'' = ''TRUE'' then ALPHA else 0)
         \<and> (m AND RED = RED \<longleftrightarrow> GetNamedItem A ''mask_red'' = ''TRUE'')
         \<and> (m AND GREEN = GREEN \<longleftrightarrow> GetNamedItem A ''mask_green'' = ''TRUE'')
         \<and> (m AND BLUE = BLUE \<longleftrightarrow> GetNamedItem A ''mask_blue'' = ''TRUE'')
         \<and> (m AND ALPHA = ALPHA \<longleftrightarrow> GetNamedItem A ''mask_alpha'' = ''TRUE'')
         \<and> m AND NOT (RED OR GREEN OR BLUE OR ALPHA) = 0"
    unfolding Let_def m by (simp only: channel_bits simp_thms)
qed

theorem color_tag_rebuilds_mask_witness:
  "colorWriteMask (blendState (MakeDefaultGraphicsPipelineStateDesc exampleEnv)) = 15
   \<and> colorWriteMask (blendState (fst (snd (passElements exampleEnv [] []
        ([XMBElement ''blend'' [(''src'', ''one''), (''dst'', ''zero'')] []]
         @ [XMBElement ''color'' [(''mask_red'', ''TRUE''), (''mask_alpha'', ''true'')] []]
         @ [XMBElement ''depth'' [(''test'', ''TRUE'')] []]))))) = RED"
proof -
  have a: "tagAbsent ''color'' [XMBElement ''depth'' [(''test'', ''TRUE'')] []]"
    by (simp add: tagAbsent_def)
  have d: "colorWriteMask (blendState (MakeDefaultGraphicsPipelineStateDesc exampleEnv)) = 15"
    by (simp add: exampleEnv_def exampleDefaultDesc_def)
  show ?thesis
    using color_tag_rebuilds_mask
      [of "XMBElement ''color'' [(''mask_red'', ''TRUE''), (''mask_alpha'', ''true'')] []"
          "[XMBElement ''depth'' [(''test'', ''TRUE'')] []]" exampleEnv "[]" "[]"
          "[XMBElement ''blend'' [(''src'', ''one''), (''dst'', ''zero'')] []]"]
      a d
    by (simp add: Let_def GetNamedItem_def)
qed

lemma passElement_depth:
  "GetNodeName e = ''depth'' \<Longrightarrow>
     depthStencilState (fst (snd (passElement env st e)))
       = depthTag env (GetAttributes e) (depthStencilState (fst (snd st)))"
  by (cases st) (simp add: passElement_def Let_def)

lemma passElement_stencil:
  "GetNodeName e = ''stencil'' \<Longrightarrow>
     depthStencilState (fst (snd (passElement env st e)))
       = stencilTag env (GetAttributes e) (depthStencilState (fst (snd st)))"
  by (cases st) (simp add: passElement_def Let_def)

lemma passElement_keeps_depth_fields:
  "GetNodeName e \<noteq> ''depth'' \<Longrightarrow>
     depthTestEnabled (depthStencilState (fst (snd (passElement env st e))))
       = depthTestEnabled (depthStencilState (fst (snd st)))"
  "GetNodeName e \<noteq> ''depth'' \<Longrightarrow>
     depthWriteEnabled (depthStencilState (fst (snd (passElement env st e))))
       = depthWriteEnabled (depthStencilState (fst (snd st)))"
  "GetNodeName e \<noteq> ''stencil'' \<Longrightarrow>
     stencilTestEnabled (depthStencilState (fst (snd (passElement env st e))))
       = stencilTestEnabled (depthStencilState (fst (snd st)))"
  by (cases st, simp add: passElement_def Let_def case_prod_beta tag_keeps)+

lemma depthTag_sets:
  "GetNamedItem A ''test'' \<noteq> [] \<Longrightarrow>
     depthTestEnabled (depthTag env A d) = (GetNamedItem A ''test'' = ''TRUE'')"
  "GetNamedItem A ''mask'' \<noteq> [] \<Longrightarrow>
     depthWriteEnabled (depthTag env A d) = (GetNamedItem A ''mask'' = ''true'')"
  by (simp_all add: depthTag_def Let_def)

lemma stencilTag_sets:
  "GetNamedItem A ''test'' \<noteq> [] \<Longrightarrow>
     stencilTestEnabled (stencilTag env A d) = (GetNamedItem A ''test'' = ''TRUE'')"
  by (simp add: stencilTag_def Let_def)

text \<open>
  C9. A \<^verbatim>\<open>depth\<close> tag with a \<^verbatim>\<open>test\<close> attribute enables the depth test exactly when the
  attribute is the upper-case string TRUE, and so does a \<^verbatim>\<open>stencil\<close> tag for the stencil
  test; a \<^verbatim>\<open>depth\<close> tag with a \<^verbatim>\<open>mask\<close> attribute enables depth writes exactly when
  the attribute is the lower-case string true, so that mask="TRUE" disables them. The
  last such tag of a pass decides the field of the descriptor of the pass.
\<close>

theorem depth_attributes_differ_in_case:
  "(GetNamedItem A ''test'' \<noteq> [] \<longrightarrow>
      depthTestEnabled (depthTag env A d) = (GetNamedItem A ''test'' = ''TRUE''))
   \<and> (GetNamedItem A ''test'' \<noteq> [] \<longrightarrow>
      stencilTestEnabled (stencilTag env A d) = (GetNamedItem A ''test'' = ''TRUE''))
   \<and> (GetNamedItem A ''mask'' \<noteq> [] \<longrightarrow>
      depthWriteEnabled (depthTag env A d) = (GetNamedItem A ''mask'' = ''true''))
   \<and> (GetNamedItem A ''mask'' = ''TRUE'' \<longrightarrow> \<not> depthWriteEnabled (depthTag env A d))
   \<and> (GetNodeName e = ''depth'' \<and> tagAbsent ''depth'' after \<longrightarrow>
        (let s = depthStencilState (fst (snd (passElements env td tr (before @ [e] @ after))))
         in (GetNamedItem (GetAttributes e) ''test'' \<noteq> [] \<longrightarrow>
               depthTestEnabled s = (GetNamedItem (GetAttributes e) ''test'' = ''TRUE''))
            \<and> (GetNamedItem (GetAttributes e) ''mask'' \<noteq> [] \<longrightarrow>
               depthWriteEnabled s = (GetNamedItem (GetAttributes e) ''mask'' = ''true''))
            \<and> (GetNamedItem (GetAttributes e) ''mask'' = ''TRUE'' \<longrightarrow> \<not> depthWriteEnabled s)))
   \<and> (GetNodeName e = ''stencil'' \<and> tagAbsent ''stencil'' after
        \<and> GetNamedItem (GetAttributes e) ''test'' \<noteq> [] \<longrightarrow>
        stencilTestEnabled (depthStencilState (fst (snd
            (passElements env td tr (before @ [e] @ after)))))
          = (GetNamedItem (GetAttributes e) ''test'' = ''TRUE''))"
proof -
  have up: "\<not> depthWriteEnabled (depthTag env A d)" if "GetNamedItem A ''mask'' = ''TRUE''" for A d
    using that depthTag_sets(2) [of A env d] by simp
  have dt: "depthTestEnabled (depthStencilState (fst (snd
              (passElements env td tr (before @ [e] @ after)))))
            = depthTestEnabled (depthTag env (GetAttributes e)
                (depthStencilState (fst (snd (passElements env td tr before)))))"
    if "GetNodeName e = ''depth''" "tagAbsent ''depth'' after"
    using that
      passElements_last_tag [where F = "\<lambda>d. depthTestEnabled (depthStencilState d)"
        and after = after and env = env and td = td and tr = tr and before = before and e = e]
    by (simp add: tagAbsent_def passElement_keeps_depth_fields passElement_depth)
  have dw: "depthWriteEnabled (depthStencilState (fst (snd
              (passElements env td tr (before @ [e] @ after)))))
            = depthWriteEnabled (depthTag env (GetAttributes e)
                (depthStencilState (fst (snd (passElements env td tr before)))))"
    if "GetNodeName e = ''depth''" "tagAbsent ''depth'' after"
    using that
      passElements_last_tag [where F = "\<lambda>d. depthWriteEnabled (depthStencilState d)"
        and after = after and env = env and td = td and tr = tr and before = before and e = e]
    by (simp add: tagAbsent_def passElement_keeps_depth_fields passElement_depth)
  have st: "stencilTestEnabled (depthStencilState (fst (snd
              (passElements env td tr (before @ [e] @ after)))))
            = stencilTestEnabled (stencilTag env (GetAttributes e)
                (depthStencilState (fst (snd (passElements env td tr before)))))"
    if "GetNodeName e = ''stencil''" "tagAbsent ''stencil'' after"
    using that
      passElements_last_tag [where F = "\<lambda>d. stencilTestEnabled (depthStencilState d)"
        and after = after and env = env and td = td and tr = tr and before = before and e = e]
    by (simp add: tagAbsent_def passElement_keeps_depth_fields passElement_stencil)
  show ?thesis
    unfolding Let_def
    using depthTag_sets stencilTag_sets up dt dw st by simp
qed

theorem depth_attributes_differ_in_case_witness:
  "depthWriteEnabled (depthStencilState (MakeDefaultGraphicsPipelineStateDesc exampleEnv))
   \<and> \<not> depthWriteEnabled (depthTag exampleEnv [(''mask'', ''TRUE'')]
            (depthStencilState (MakeDefaultGraphicsPipelineStateDesc exampleEnv)))
   \<and> depthWriteEnabled (depthTag exampleEnv [(''mask'', ''true'')]
            (depthStencilState (MakeDefaultGraphicsPipelineStateDesc exampleEnv)))
   \<and> depthTestEnabled (depthTag exampleEnv [(''test'', ''TRUE'')]
            (depthStencilState (MakeDefaultGraphicsPipelineStateDesc exampleEnv)))
   \<and> \<not> depthTestEnabled (depthTag exampleEnv [(''test'', ''true'')]
            (depthStencilState (MakeDefaultGraphicsPipelineStateDesc exampleEnv)))
   \<and> \<not> depthWriteEnabled (depthStencilState (fst (snd (passElements exampleEnv [] []
          ([] @ [XMBElement ''depth'' [(''test'', ''TRUE''), (''mask'', ''TRUE'')] []]
           @ [XMBElement ''stencil'' [(''test'', ''true'')] []])))))
   \<and> \<not> stencilTestEnabled (depthStencilState (fst (snd (passElements exampleEnv [] []
          ([XMBElement ''depth'' [(''test'', ''TRUE''), (''mask'', ''TRUE'')] []]
           @ [XMBElement ''stencil'' [(''test'', ''true'')] []] @ [])))))"
proof -
  have a: "tagAbsent ''depth'' [XMBElement ''stencil'' [(''test'', ''true'')] []]"
    "tagAbsent ''stencil'' []"
    by (simp_all add: tagAbsent_def)
  have d: "depthWriteEnabled (depthStencilState (MakeDefaultGraphicsPipelineStateDesc exampleEnv))"
    by (simp add: exampleEnv_def exampleDefaultDesc_def)
  show ?thesis
    using depth_attributes_differ_in_case
      [of "[(''mask'', ''TRUE'')]" exampleEnv
          "depthStencilState (MakeDefaultGraphicsPipelineStateDesc exampleEnv)"
          "XMBElement ''depth'' [(''test'', ''TRUE''), (''mask'', ''TRUE'')] []"
          "[XMBElement ''stencil'' [(''test'', ''true'')] []]" "[]" "[]" "[]"]
      depth_attributes_differ_in_case
      [of "[(''mask'', ''true'')]" exampleEnv
          "depthStencilState (MakeDefaultGraphicsPipelineStateDesc exampleEnv)"
          "XMBElement ''stencil'' [(''test'', ''true'')] []" "[]" "[]" "[]"
          "[XMBElement ''depth'' [(''test'', ''TRUE''), (''mask'', ''TRUE'')] []]"]
      depth_attributes_differ_in_case
      [of "[(''test'', ''TRUE'')]" exampleEnv
          "depthStencilState (MakeDefaultGraphicsPipelineStateDesc exampleEnv)"]
      depth_attributes_differ_in_case
      [of "[(''test'', ''true'')]" exampleEnv
          "depthStencilState (MakeDefaultGraphicsPipelineStateDesc exampleEnv)"]
      a d
    by (simp add: Let_def GetNamedItem_def)
qed

lemma passElement_blend:
  "GetNodeName e = ''blend'' \<Longrightarrow>
     blendState (fst (snd (passElement env st e)))
       = fst (blendTag env (GetAttributes e) (blendState (fst (snd st))) (snd (snd st)))"
  by (cases st) (simp add: passElement_def Let_def case_prod_beta)

lemma blendTag_sets:
  "enabled (fst (blendTag env A b tr))"
  "srcColorBlendFactor (fst (blendTag env A b tr)) = ParseBlendFactor env (GetNamedItem A ''src'')"
  "srcAlphaBlendFactor (fst (blendTag env A b tr)) = ParseBlendFactor env (GetNamedItem A ''src'')"
  "dstColorBlendFactor (fst (blendTag env A b tr)) = ParseBlendFactor env (GetNamedItem A ''dst'')"
  "dstAlphaBlendFactor (fst (blendTag env A b tr)) = ParseBlendFactor env (GetNamedItem A ''dst'')"
  by (simp_all add: blendTag_def Let_def case_prod_beta)

lemma passElement_keeps_blend_fields:
  "GetNodeName e \<noteq> ''blend'' \<Longrightarrow>
     enabled (blendState (fst (snd (passElement env st e))))
       = enabled (blendState (fst (snd st)))"
  "GetNodeName e \<noteq> ''blend'' \<Longrightarrow>
     srcColorBlendFactor (blendState (fst (snd (passElement env st e))))
       = srcColorBlendFactor (blendState (fst (snd st)))"
  "GetNodeName e \<noteq> ''blend'' \<Longrightarrow>
     srcAlphaBlendFactor (blendState (fst (snd (passElement env st e))))
       = srcAlphaBlendFactor (blendState (fst (snd st)))"
  "GetNodeName e \<noteq> ''blend'' \<Longrightarrow>
     dstColorBlendFactor (blendState (fst (snd (passElement env st e))))
       = dstColorBlendFactor (blendState (fst (snd st)))"
  "GetNodeName e \<noteq> ''blend'' \<Longrightarrow>
     dstAlphaBlendFactor (blendState (fst (snd (passElement env st e))))
       = dstAlphaBlendFactor (blendState (fst (snd st)))"
  by (cases st, simp add: passElement_def Let_def case_prod_beta tag_keeps)+

lemma channel_masks:
  fixes r g b a :: bool
  defines "m \<equiv> (if r then RED else 0) OR (if g then GREEN else 0)
                 OR (if b then BLUE else 0) OR (if a then ALPHA else 0)"
  shows "m AND RED = (if r then RED else 0)" "m AND GREEN = (if g then GREEN else 0)"
    "m AND BLUE = (if b then BLUE else 0)" "m AND ALPHA = (if a then ALPHA else 0)"
  unfolding m_def by (cases r; cases g; cases b; cases a; simp add: RED_def GREEN_def BLUE_def ALPHA_def)+

lemma last_blend_tag:
  assumes e: "GetNodeName e = ''blend''" and a: "tagAbsent ''blend'' after"
  shows "enabled (blendState (fst (snd (passElements env td tr (before @ [e] @ after)))))"
    and "srcColorBlendFactor (blendState (fst (snd (passElements env td tr (before @ [e] @ after)))))
           = ParseBlendFactor env (GetNamedItem (GetAttributes e) ''src'')"
    and "srcAlphaBlendFactor (blendState (fst (snd (passElements env td tr (before @ [e] @ after)))))
           = ParseBlendFactor env (GetNamedItem (GetAttributes e) ''src'')"
    and "dstColorBlendFactor (blendState (fst (snd (passElements env td tr (before @ [e] @ after)))))
           = ParseBlendFactor env (GetNamedItem (GetAttributes e) ''dst'')"
    and "dstAlphaBlendFactor (blendState (fst (snd (passElements env td tr (before @ [e] @ after)))))
           = ParseBlendFactor env (GetNamedItem (GetAttributes e) ''dst'')"
proof -
  have n: "GetNodeName x \<noteq> ''blend''" if "x \<in> set after" for x
    using a that by (simp add: tagAbsent_def)
  show "enabled (blendState (fst (snd (passElements env td tr (before @ [e] @ after)))))"
    using passElements_last_tag [where F = "\<lambda>d. enabled (blendState d)" and after = after
        and env = env and td = td and tr = tr and before = before and e = e]
    by (simp add: n passElement_keeps_blend_fields passElement_blend [OF e] blendTag_sets)
  show "srcColorBlendFactor (blendState (fst (snd (passElements env td tr (before @ [e] @ after)))))
           = ParseBlendFactor env (GetNamedItem (GetAttributes e) ''src'')"
    using passElements_last_tag [where F = "\<lambda>d. srcColorBlendFactor (blendState d)"
        and after = after and env = env and td = td and tr = tr and before = before and e = e]
    by (simp add: n passElement_keeps_blend_fields passElement_blend [OF e] blendTag_sets)
  show "srcAlphaBlendFactor (blendState (fst (snd (passElements env td tr (before @ [e] @ after)))))
           = ParseBlendFactor env (GetNamedItem (GetAttributes e) ''src'')"
    using passElements_last_tag [where F = "\<lambda>d. srcAlphaBlendFactor (blendState d)"
        and after = after and env = env and td = td and tr = tr and before = before and e = e]
    by (simp add: n passElement_keeps_blend_fields passElement_blend [OF e] blendTag_sets)
  show "dstColorBlendFactor (blendState (fst (snd (passElements env td tr (before @ [e] @ after)))))
           = ParseBlendFactor env (GetNamedItem (GetAttributes e) ''dst'')"
    using passElements_last_tag [where F = "\<lambda>d. dstColorBlendFactor (blendState d)"
        and after = after and env = env and td = td and tr = tr and before = before and e = e]
    by (simp add: n passElement_keeps_blend_fields passElement_blend [OF e] blendTag_sets)
  show "dstAlphaBlendFactor (blendState (fst (snd (passElements env td tr (before @ [e] @ after)))))
           = ParseBlendFactor env (GetNamedItem (GetAttributes e) ''dst'')"
    using passElements_last_tag [where F = "\<lambda>d. dstAlphaBlendFactor (blendState d)"
        and after = after and env = env and td = td and tr = tr and before = before and e = e]
    by (simp add: n passElement_keeps_blend_fields passElement_blend [OF e] blendTag_sets)
qed

lemma present_blend_tag_enables:
  assumes "\<not> tagAbsent ''blend'' Elements"
  shows "enabled (blendState (fst (snd (passElements env td tr Elements))))"
proof -
  have "\<exists>x\<in>set Elements. GetNodeName x = ''blend''"
    using assms by (simp add: tagAbsent_def)
  then obtain before e after where s: "Elements = before @ e # after"
    and e: "GetNodeName e = ''blend''" and a: "\<forall>x\<in>set after. GetNodeName x \<noteq> ''blend''"
    using split_list_last_prop [of Elements "\<lambda>x. GetNodeName x = ''blend''"] by blast
  have "tagAbsent ''blend'' after" using a by (simp add: tagAbsent_def)
  then show ?thesis using last_blend_tag(1) [OF e, of after env td tr before] s by simp
qed

lemma last_color_tag:
  assumes e: "GetNodeName e = ''color''" and a: "tagAbsent ''color'' after"
  shows "colorWriteMask (blendState (fst (snd (passElements env td tr (before @ [e] @ after)))))
           = (if GetNamedItem (GetAttributes e) ''mask_red'' = ''TRUE'' then RED else 0)
             OR (if GetNamedItem (GetAttributes e) ''mask_green'' = ''TRUE'' then GREEN else 0)
             OR (if GetNamedItem (GetAttributes e) ''mask_blue'' = ''TRUE'' then BLUE else 0)
             OR (if GetNamedItem (GetAttributes e) ''mask_alpha'' = ''TRUE'' then ALPHA else 0)"
proof -
  have k: "colorWriteMask (blendState (fst (snd (passElement env st x))))
             = colorWriteMask (blendState (fst (snd st)))"
    if "x \<in> set after" for st x
    using a that by (simp add: tagAbsent_def passElement_colorWriteMask)
  have "colorWriteMask (blendState (fst (snd (passElements env td tr (before @ [e] @ after)))))
          = colorWriteMask (blendState (fst (snd
              (passElement env (passElements env td tr before) e))))"
    by (rule passElements_last_tag [where F = "\<lambda>d. colorWriteMask (blendState d)", OF k])
  also have "\<dots> = colorWriteMask (colorTag (GetAttributes e) b)"
    for b by (rule passElement_color [OF e])
  finally show ?thesis by (simp add: colorTag_mask)
qed

lemma absent_channels_disabled:
  assumes e: "GetNodeName e = ''color''" and a: "tagAbsent ''color'' after"
  shows "GetNamedItem (GetAttributes e) ''mask_red'' = [] \<Longrightarrow>
           colorWriteMask (blendState (fst (snd
             (passElements env td tr (before @ [e] @ after))))) AND RED = 0"
    and "GetNamedItem (GetAttributes e) ''mask_green'' = [] \<Longrightarrow>
           colorWriteMask (blendState (fst (snd
             (passElements env td tr (before @ [e] @ after))))) AND GREEN = 0"
    and "GetNamedItem (GetAttributes e) ''mask_blue'' = [] \<Longrightarrow>
           colorWriteMask (blendState (fst (snd
             (passElements env td tr (before @ [e] @ after))))) AND BLUE = 0"
    and "GetNamedItem (GetAttributes e) ''mask_alpha'' = [] \<Longrightarrow>
           colorWriteMask (blendState (fst (snd
             (passElements env td tr (before @ [e] @ after))))) AND ALPHA = 0"
  unfolding last_color_tag [OF e a] by (simp_all only: channel_masks) simp_all

lemma passChild_descriptor:
  "GetNodeName c = ''pass'' \<Longrightarrow>
     map pipelineStateDesc (fst (passChild env td (ps, s) c))
       = map pipelineStateDesc ps @ [fst (snd (passElements env td (trace s) (GetChildNodes c)))]"
  by (simp add: passChild_def Let_def case_prod_beta)

text \<open>
  C4 as amended. The descriptor of a pass starts as the default descriptor, and a field
  keeps its default value when what sets it is absent from the pass: the \<^verbatim>\<open>blend\<close> tag
  for the enabled flag and the four factors, the \<^verbatim>\<open>color\<close> tag for the write mask, and
  for every other field the attribute of its tag (op and constant of \<^verbatim>\<open>blend\<close>; mode of
  \<^verbatim>\<open>polygon\<close>; mode and front\_face of \<^verbatim>\<open>cull\<close>; test, func and mask of \<^verbatim>\<open>depth\<close>;
  test, reference, mask\_read, mask, compare, fail, pass and depth\_fail of
  \<^verbatim>\<open>stencil\<close>). In particular a pass with nothing but a depth tag with a test attribute
  has the blend state, the rasterization state and every stencil field of the default.
  A \<^verbatim>\<open>blend\<close> tag that is present always enables blending, and the last one sets the
  colour and alpha source factors to what the parser makes of its src attribute and the
  destination factors to what it makes of its dst attribute, absent or not. The last
  \<^verbatim>\<open>color\<close> tag that is present clears the bit of every channel whose attribute is
  absent. The descriptor that the loop over the tags of a pass builds is the one stored
  in the pass.
\<close>

theorem sparse_overrides:
  "passElements env td tr [] = (td, MakeDefaultGraphicsPipelineStateDesc env, tr)
   \<and> (let d = fst (snd (passElements env td tr Elements));
           d0 = MakeDefaultGraphicsPipelineStateDesc env;
           b = blendState d; b0 = blendState d0;
           r = rasterizationState d; r0 = rasterizationState d0;
           s = depthStencilState d; s0 = depthStencilState d0
       in (tagAbsent ''blend'' Elements \<longrightarrow>
             enabled b = enabled b0
             \<and> srcColorBlendFactor b = srcColorBlendFactor b0
             \<and> dstColorBlendFactor b = dstColorBlendFactor b0
             \<and> srcAlphaBlendFactor b = srcAlphaBlendFactor b0
             \<and> dstAlphaBlendFactor b = dstAlphaBlendFactor b0)
          \<and> (attributeAbsent ''blend'' ''op'' Elements \<longrightarrow>
                colorBlendOp b = colorBlendOp b0 \<and> alphaBlendOp b = alphaBlendOp b0)
          \<and> (attributeAbsent ''blend'' ''constant'' Elements \<longrightarrow> constant' b = constant' b0)
          \<and> (tagAbsent ''color'' Elements \<longrightarrow> colorWriteMask b = colorWriteMask b0)
          \<and> (attributeAbsent ''polygon'' ''mode'' Elements \<longrightarrow> polygonMode r = polygonMode r0)
          \<and> (attributeAbsent ''cull'' ''mode'' Elements \<longrightarrow> cullMode r = cullMode r0)
          \<and> (attributeAbsent ''cull'' ''front_face'' Elements \<longrightarrow> frontFace r = frontFace r0)
          \<and> (attributeAbsent ''depth'' ''test'' Elements \<longrightarrow>
                depthTestEnabled s = depthTestEnabled s0)
          \<and> (attributeAbsent ''depth'' ''func'' Elements \<longrightarrow> depthCompareOp s = depthCompareOp s0)
          \<and> (attributeAbsent ''depth'' ''mask'' Elements \<longrightarrow>
                depthWriteEnabled s = depthWriteEnabled s0)
          \<and> (attributeAbsent ''stencil'' ''test'' Elements \<longrightarrow>
                stencilTestEnabled s = stencilTestEnabled s0)
          \<and> (attributeAbsent ''stencil'' ''reference'' Elements \<longrightarrow>
                stencilReference s = stencilReference s0)
          \<and> (attributeAbsent ''stencil'' ''mask_read'' Elements \<longrightarrow>
                stencilReadMask s = stencilReadMask s0)
          \<and> (attributeAbsent ''stencil'' ''mask'' Elements \<longrightarrow>
                stencilWriteMask s = stencilWriteMask s0)
          \<and> (attributeAbsent ''stencil'' ''compare'' Elements \<longrightarrow>
                compareOp (stencilFrontFace s) = compareOp (stencilFrontFace s0)
                \<and> compareOp (stencilBackFace s) = compareOp (stencilBackFace s0))
          \<and> (attributeAbsent ''stencil'' ''fail'' Elements \<longrightarrow>
                failOp (stencilFrontFace s) = failOp (stencilFrontFace s0)
                \<and> failOp (stencilBackFace s) = failOp (stencilBackFace s0))
          \<and> (attributeAbsent ''stencil'' ''pass'' Elements \<longrightarrow>
                passOp (stencilFrontFace s) = passOp (stencilFrontFace s0)
                \<and> passOp (stencilBackFace s) = passOp (stencilBackFace s0))
          \<and> (attributeAbsent ''stencil'' ''depth_fail'' Elements \<longrightarrow>
                depthFailOp (stencilFrontFace s) = depthFailOp (stencilFrontFace s0)
                \<and> depthFailOp (stencilBackFace s) = depthFailOp (stencilBackFace s0))
          \<and> (Elements = [XMBElement ''depth'' [(''test'', v)] cs] \<longrightarrow>
                b = b0 \<and> r = r0
                \<and> s = s0\<lparr>depthTestEnabled :=
                          (if v = [] then depthTestEnabled s0 else v = ''TRUE'')\<rparr>))
   \<and> (\<not> tagAbsent ''blend'' Elements \<longrightarrow>
        enabled (blendState (fst (snd (passElements env td tr Elements)))))
   \<and> (GetNodeName e = ''blend'' \<and> tagAbsent ''blend'' after \<longrightarrow>
        (let b = blendState (fst (snd (passElements env td tr (before @ [e] @ after))));
             A = GetAttributes e
         in enabled b
            \<and> srcColorBlendFactor b = ParseBlendFactor env (GetNamedItem A ''src'')
            \<and> srcAlphaBlendFactor b = ParseBlendFactor env (GetNamedItem A ''src'')
            \<and> dstColorBlendFactor b = ParseBlendFactor env (GetNamedItem A ''dst'')
            \<and> dstAlphaBlendFactor b = ParseBlendFactor env (GetNamedItem A ''dst'')))
   \<and> (GetNodeName e = ''color'' \<and> tagAbsent ''color'' after \<longrightarrow>
        (let m = colorWriteMask (blendState (fst (snd
                   (passElements env td tr (before @ [e] @ after)))));
             A = GetAttributes e
         in (GetNamedItem A ''mask_red'' = [] \<longrightarrow> m AND RED = 0)
            \<and> (GetNamedItem A ''mask_green'' = [] \<longrightarrow> m AND GREEN = 0)
            \<and> (GetNamedItem A ''mask_blue'' = [] \<longrightarrow> m AND BLUE = 0)
            \<and> (GetNamedItem A ''mask_alpha'' = [] \<longrightarrow> m AND ALPHA = 0)))
   \<and> (GetNodeName c = ''pass'' \<longrightarrow>
        map pipelineStateDesc (fst (passChild env td (ps, s) c))
          = map pipelineStateDesc ps
            @ [fst (snd (passElements env td (trace s) (GetChildNodes c)))])"
proof -
  have init: "passElements env td tr [] = (td, MakeDefaultGraphicsPipelineStateDesc env, tr)"
    by (simp add: passElements_def)
  have only:
    "blendState (fst (snd (passElements env td tr [XMBElement ''depth'' [(''test'', v)] cs])))
       = blendState (MakeDefaultGraphicsPipelineStateDesc env)"
    "rasterizationState (fst (snd (passElements env td tr
         [XMBElement ''depth'' [(''test'', v)] cs])))
       = rasterizationState (MakeDefaultGraphicsPipelineStateDesc env)"
    "depthStencilState (fst (snd (passElements env td tr
         [XMBElement ''depth'' [(''test'', v)] cs])))
       = (depthStencilState (MakeDefaultGraphicsPipelineStateDesc env))
           \<lparr>depthTestEnabled :=
              (if v = [] then depthTestEnabled
                                (depthStencilState (MakeDefaultGraphicsPipelineStateDesc env))
               else v = ''TRUE'')\<rparr>"
    by (simp_all add: passElements_def passElement_def depthTag_def GetNamedItem_def)
  show ?thesis
    unfolding Let_def
    by (intro conjI impI init)
       (simp_all add: default_enabled default_srcColorBlendFactor default_dstColorBlendFactor
          default_srcAlphaBlendFactor default_dstAlphaBlendFactor default_colorBlendOp
          default_alphaBlendOp default_constant default_polygonMode default_cullMode
          default_frontFace default_depthTestEnabled default_depthCompareOp
          default_depthWriteEnabled default_stencilTestEnabled default_stencilReference
          default_stencilReadMask default_stencilWriteMask default_compareOp_stencilFrontFace
          default_compareOp_stencilBackFace default_failOp_stencilFrontFace
          default_failOp_stencilBackFace default_passOp_stencilFrontFace
          default_passOp_stencilBackFace default_depthFailOp_stencilFrontFace
          default_depthFailOp_stencilBackFace default_colorWriteMask only
          present_blend_tag_enables last_blend_tag [simplified]
          absent_channels_disabled [simplified] passChild_descriptor)
qed

theorem sparse_overrides_counterexample:
  "attributeAbsent ''color'' ''mask_green'' [XMBElement ''color'' [(''mask_red'', ''TRUE'')] []]
   \<and> colorWriteMask (blendState (MakeDefaultGraphicsPipelineStateDesc exampleEnv)) = 15
   \<and> colorWriteMask (blendState (fst (snd (passElements exampleEnv [] []
        [XMBElement ''color'' [(''mask_red'', ''TRUE'')] []])))) = 1
   \<and> attributeAbsent ''blend'' ''src'' [XMBElement ''blend'' [(''dst'', ''zero'')] []]
   \<and> srcColorBlendFactor (blendState (MakeDefaultGraphicsPipelineStateDesc exampleEnv)) = 1
   \<and> srcColorBlendFactor (blendState (fst (snd (passElements exampleEnv [] []
        [XMBElement ''blend'' [(''dst'', ''zero'')] []])))) = 0
   \<and> \<not> enabled (blendState (MakeDefaultGraphicsPipelineStateDesc exampleEnv))
   \<and> enabled (blendState (fst (snd (passElements exampleEnv [] []
        [XMBElement ''blend'' [(''dst'', ''zero'')] []]))))"
  by (simp add: attributeAbsent_def passElements_def passElement_def colorTag_def blendTag_def
      MASK_CHANNEL_def GetNamedItem_def exampleEnv_def exampleDefaultDesc_def RED_def Let_def)

theorem sparse_overrides_witness:
  "depthTestEnabled (depthStencilState (MakeDefaultGraphicsPipelineStateDesc exampleEnv))
   \<and> fst (snd (passElements exampleEnv [] [] [XMBElement ''depth'' [(''test'', ''FALSE'')] []]))
       = exampleDefaultDesc
           \<lparr>depthStencilState := (depthStencilState exampleDefaultDesc)\<lparr>depthTestEnabled := False\<rparr>\<rparr>
   \<and> cullMode (rasterizationState (fst (snd (passElements exampleEnv [] []
        [XMBElement ''depth'' [(''test'', ''FALSE'')] []])))) = 2
   \<and> colorWriteMask (blendState (fst (snd (passElements exampleEnv [] []
        [XMBElement ''depth'' [(''test'', ''FALSE'')] []])))) = 15
   \<and> \<not> enabled (blendState (MakeDefaultGraphicsPipelineStateDesc exampleEnv))
   \<and> enabled (blendState (fst (snd (passElements exampleEnv [] []
        ([] @ [XMBElement ''blend'' [(''dst'', ''zero'')] []]
         @ [XMBElement ''depth'' [(''test'', ''FALSE'')] []])))))
   \<and> srcColorBlendFactor (blendState (fst (snd (passElements exampleEnv [] []
        ([] @ [XMBElement ''blend'' [(''dst'', ''zero'')] []]
         @ [XMBElement ''depth'' [(''test'', ''FALSE'')] []]))))) = 0
   \<and> dstAlphaBlendFactor (blendState (fst (snd (passElements exampleEnv [] []
        ([] @ [XMBElement ''blend'' [(''dst'', ''zero'')] []]
         @ [XMBElement ''depth'' [(''test'', ''FALSE'')] []]))))) = 4
   \<and> colorWriteMask (blendState (fst (snd (passElements exampleEnv [] []
        ([] @ [XMBElement ''color'' [(''mask_red'', ''TRUE'')] []]
         @ [XMBElement ''depth'' [(''test'', ''FALSE'')] []]))))) AND GREEN = 0
   \<and> map pipelineStateDesc (fst (passChild exampleEnv [] ([], CShaderManager_new exampleEnv)
         (XMBElement ''pass'' [(''shader'', ''missing'')]
            [XMBElement ''depth'' [(''test'', ''FALSE'')] []])))
       = [exampleDefaultDesc
            \<lparr>depthStencilState :=
               (depthStencilState exampleDefaultDesc)\<lparr>depthTestEnabled := False\<rparr>\<rparr>]"
proof -
  let ?E = "[XMBElement ''depth'' [(''test'', ''FALSE'')] []]"
  let ?B = "XMBElement ''blend'' [(''dst'', ''zero'')] []"
  let ?C = "XMBElement ''color'' [(''mask_red'', ''TRUE'')] []"
  let ?P = "XMBElement ''pass'' [(''shader'', ''missing'')] ?E"
  have a: "tagAbsent ''blend'' ?E" "tagAbsent ''color'' ?E" "attributeAbsent ''blend'' ''op'' ?E"
    "attributeAbsent ''blend'' ''constant'' ?E" "attributeAbsent ''polygon'' ''mode'' ?E"
    "attributeAbsent ''cull'' ''mode'' ?E" "attributeAbsent ''cull'' ''front_face'' ?E"
    "attributeAbsent ''depth'' ''func'' ?E" "attributeAbsent ''depth'' ''mask'' ?E"
    "attributeAbsent ''stencil'' ''test'' ?E" "attributeAbsent ''stencil'' ''reference'' ?E"
    "attributeAbsent ''stencil'' ''mask_read'' ?E" "attributeAbsent ''stencil'' ''mask'' ?E"
    "attributeAbsent ''stencil'' ''compare'' ?E" "attributeAbsent ''stencil'' ''fail'' ?E"
    "attributeAbsent ''stencil'' ''pass'' ?E" "attributeAbsent ''stencil'' ''depth_fail'' ?E"
    by (simp_all add: tagAbsent_def attributeAbsent_def GetNamedItem_def)
  have d: "MakeDefaultGraphicsPipelineStateDesc exampleEnv = exampleDefaultDesc"
    by (simp add: exampleEnv_def)
  have v: "cullMode (rasterizationState exampleDefaultDesc) = 2"
    "colorWriteMask (blendState exampleDefaultDesc) = 15"
    "depthTestEnabled (depthStencilState exampleDefaultDesc)"
    "\<not> enabled (blendState exampleDefaultDesc)"
    by (simp_all add: exampleDefaultDesc_def)
  have eq: "x = exampleDefaultDesc
             \<lparr>depthStencilState := (depthStencilState exampleDefaultDesc)\<lparr>depthTestEnabled := False\<rparr>\<rparr>"
    if "blendState x = blendState exampleDefaultDesc"
       "rasterizationState x = rasterizationState exampleDefaultDesc"
       "depthStencilState x = (depthStencilState exampleDefaultDesc)\<lparr>depthTestEnabled := False\<rparr>"
    for x :: GraphicsPipelineStateDesc
    using that by (cases x) (simp add: exampleDefaultDesc_def)
  have only: "fst (snd (passElements exampleEnv [] [] ?E))
      = exampleDefaultDesc
          \<lparr>depthStencilState := (depthStencilState exampleDefaultDesc)\<lparr>depthTestEnabled := False\<rparr>\<rparr>"
    "cullMode (rasterizationState (fst (snd (passElements exampleEnv [] [] ?E)))) = 2"
    "colorWriteMask (blendState (fst (snd (passElements exampleEnv [] [] ?E)))) = 15"
    using sparse_overrides [of exampleEnv "[]" "[]" ?E "''FALSE''" "[]"] a d v
    by (simp_all add: Let_def eq)
  have p: "ParseBlendFactor exampleEnv (GetNamedItem (GetAttributes ?B) ''src'') = 0"
    "ParseBlendFactor exampleEnv (GetNamedItem (GetAttributes ?B) ''dst'') = 4"
    "GetNamedItem (GetAttributes ?C) ''mask_green'' = []"
    "trace (CShaderManager_new exampleEnv) = []"
    by (simp_all add: exampleEnv_def GetNamedItem_def CShaderManager_new_def)
  have blend: "enabled (blendState (fst (snd (passElements exampleEnv [] [] ([] @ [?B] @ ?E)))))"
    "srcColorBlendFactor (blendState (fst (snd (passElements exampleEnv [] []
        ([] @ [?B] @ ?E))))) = 0"
    "dstAlphaBlendFactor (blendState (fst (snd (passElements exampleEnv [] []
        ([] @ [?B] @ ?E))))) = 4"
    using sparse_overrides [of exampleEnv "[]" "[]" _ _ _ ?B ?E "[]"] a p
    by (simp_all add: Let_def)
  have color: "colorWriteMask (blendState (fst (snd (passElements exampleEnv [] []
        ([] @ [?C] @ ?E))))) AND GREEN = 0"
    using sparse_overrides [of exampleEnv "[]" "[]" _ _ _ ?C ?E "[]"] a p
    by (simp add: Let_def)
  have stored: "map pipelineStateDesc
        (fst (passChild exampleEnv [] ([], CShaderManager_new exampleEnv) ?P))
      = [fst (snd (passElements exampleEnv [] [] ?E))]"
    using sparse_overrides [of exampleEnv "[]" _ _ _ _ _ _ _ ?P "[]" "CShaderManager_new exampleEnv"] p
    by simp
  show ?thesis
    using only blend color stored d v by simp
qed

subsection \<open>Defines of a technique and of its passes\<close>

lemma foldl_skip:
  assumes "\<And>a x. \<not> P x \<Longrightarrow> f a x = a"
  shows "foldl f a xs = foldl f a (filter P xs)"
  using assms by (induction xs arbitrary: a) simp_all

lemma AddAll_Cons: "AddAll (p # ps) d = AddAll ps (Add (fst p) (snd p) d)"
  by (simp add: AddAll_def)

lemma AddAll_Nil: "AddAll [] d = d"
  by (simp add: AddAll_def)

lemma map_of_AddAll: "map_of (AddAll ps d) = map_of d ++ map_of (rev ps)"
proof (induction ps arbitrary: d)
  case Nil
  show ?case by (simp add: AddAll_Nil)
next
  case (Cons p ps)
  show ?case
    by (cases p) (simp add: AddAll_Cons Cons.IH map_of_Add map_add_upd_left fun_eq_iff map_add_def
        split: option.split)
qed

lemma defineTags_Cons:
  "defineTags (c # cs) =
     (if GetNodeName c = ''define''
      then (GetNamedItem (GetAttributes c) ''name'', GetNamedItem (GetAttributes c) ''value'')
             # defineTags cs
      else defineTags cs)"
  by (simp add: defineTags_def)

lemma techChild_step:
  "techChild (td, tech) c
     = (if GetNodeName c = ''define''
        then (Add (GetNamedItem (GetAttributes c) ''name'')
                (GetNamedItem (GetAttributes c) ''value'') td, tech)
        else if GetNodeName c = ''sort_by_distance'' then (td, tech\<lparr>sortByDistance := True\<rparr>)
        else (td, tech))"
  by (simp add: techChild_def)

lemma techChildren:
  "foldl techChild (td, tech) cs
     = (AddAll (defineTags cs) td,
        tech\<lparr>sortByDistance := sortByDistance tech
                 \<or> (\<exists>c\<in>set cs. GetNodeName c = ''sort_by_distance'')\<rparr>)"
proof (induction cs arbitrary: td tech)
  case Nil
  show ?case by (simp add: defineTags_def AddAll_Nil)
next
  case (Cons c cs)
  show ?case
    by (auto simp: techChild_step Cons.IH defineTags_Cons AddAll_Cons)
qed

lemma passElement_defines:
  "fst (passElement env st e)
     = (if GetNodeName e = ''define''
        then Add (GetNamedItem (GetAttributes e) ''name'') (GetNamedItem (GetAttributes e) ''value'')
               (fst st)
        else fst st)"
  by (cases st) (simp add: passElement_def Let_def case_prod_beta)

lemma passElements_defines_aux:
  "fst (foldl (passElement env) st Elements) = AddAll (defineTags Elements) (fst st)"
  by (induction Elements arbitrary: st)
     (simp_all add: defineTags_Cons AddAll_Cons AddAll_Nil passElement_defines defineTags_def)

lemma passElements_defines:
  "fst (passElements env td tr Elements) = AddAll (defineTags Elements) td"
  by (simp add: passElements_def passElements_defines_aux)

text \<open>The program of each pass is the one the cache holds under the key of the pass.\<close>

lemma passChild_pass:
  assumes "GetNodeName c = ''pass''"
  shows "\<exists>pass. fst (passChild env td (ps, s) c) = ps @ [pass]
           \<and> m_ProgramCache (snd (passChild env td (ps, s) c)) (passKey td c) = Some (shader pass)"
proof -
  obtain pd d tr where e: "passElements env td (trace s) (GetChildNodes c) = (pd, d, tr)"
    by (cases "passElements env td (trace s) (GetChildNodes c)") auto
  have pd: "pd = AddAll (defineTags (GetChildNodes c)) td"
    using passElements_defines [of env td "trace s" "GetChildNodes c"] e by simp
  show ?thesis
    using assms e LoadProgram_stored [of env "GetNamedItem (GetAttributes c) ''shader''" pd
        "s\<lparr>trace := tr\<rparr>"]
    by (simp add: passChild_def Let_def case_prod_beta passKey_def pd)
qed

lemma passChild_other:
  "GetNodeName c \<noteq> ''pass'' \<Longrightarrow> passChild env td st c = st"
  by (simp add: passChild_def)

lemma passes_shaders:
  "map (\<lambda>pass. Some (shader pass)) (fst (foldl (passChild env td) (ps, s) cs))
     = map (\<lambda>pass. Some (shader pass)) ps
       @ map (\<lambda>c. m_ProgramCache (snd (foldl (passChild env td) (ps, s) cs)) (passKey td c))
           (filter (\<lambda>c. GetNodeName c = ''pass'') cs)"
proof (induction cs arbitrary: ps s)
  case Nil
  show ?case by simp
next
  case (Cons c cs)
  show ?case
  proof (cases "GetNodeName c = ''pass''")
    case False
    then show ?thesis using Cons.IH [of ps s] by (simp add: passChild_other)
  next
    case True
    obtain pass where p: "fst (passChild env td (ps, s) c) = ps @ [pass]"
      "m_ProgramCache (snd (passChild env td (ps, s) c)) (passKey td c) = Some (shader pass)"
      using passChild_pass [OF True] by blast
    obtain s1 where st: "passChild env td (ps, s) c = (ps @ [pass], s1)"
      using p(1) by (cases "passChild env td (ps, s) c") auto
    have k: "m_ProgramCache (snd (foldl (passChild env td) (ps @ [pass], s1) cs)) (passKey td c)
               = Some (shader pass)"
      using p(2) st by (intro passes_keep) simp
    show ?thesis using True Cons.IH [of "ps @ [pass]" s1] st k by simp
  qed
qed


lemma filter_tag_of_rest:
  assumes "filter (\<lambda>c. GetNodeName c \<noteq> ''define'') cs' = filter (\<lambda>c. GetNodeName c \<noteq> ''define'') cs"
    and "tag \<noteq> ''define''"
  shows "filter (\<lambda>c. GetNodeName c = tag) cs' = filter (\<lambda>c. GetNodeName c = tag) cs"
proof -
  have "filter (\<lambda>c. GetNodeName c = tag) xs
          = filter (\<lambda>c. GetNodeName c = tag) (filter (\<lambda>c. GetNodeName c \<noteq> ''define'') xs)" for xs
    using assms(2) by (induction xs) auto
  then show ?thesis using assms(1) by metis
qed

lemma requireChild_other:
  "GetNodeName c \<noteq> ''require'' \<Longrightarrow> requireChild env base u c = u"
  by (simp add: requireChild_def)

lemma techniqueFrom_reordered:
  assumes d: "defineTags cs' = defineTags cs"
    and r: "filter (\<lambda>c. GetNodeName c \<noteq> ''define'') cs' = filter (\<lambda>c. GetNodeName c \<noteq> ''define'') cs"
  shows "techniqueFrom env base (XMBElement n as cs') tech s
           = techniqueFrom env base (XMBElement n as cs) tech s"
    and "foldl (requireChild env base) u cs' = foldl (requireChild env base) u cs"
proof -
  have p: "filter (\<lambda>c. GetNodeName c = ''pass'') cs' = filter (\<lambda>c. GetNodeName c = ''pass'') cs"
    by (rule filter_tag_of_rest [OF r]) simp
  have q: "filter (\<lambda>c. GetNodeName c = ''require'') cs' = filter (\<lambda>c. GetNodeName c = ''require'') cs"
    by (rule filter_tag_of_rest [OF r]) simp
  have "set (filter (\<lambda>c. GetNodeName c = ''sort_by_distance'') cs')
          = set (filter (\<lambda>c. GetNodeName c = ''sort_by_distance'') cs)"
    using filter_tag_of_rest [OF r, of "''sort_by_distance''"] by simp
  then have sd: "(\<exists>c\<in>set cs'. GetNodeName c = ''sort_by_distance'')
                   = (\<exists>c\<in>set cs. GetNodeName c = ''sort_by_distance'')"
    by auto
  have t: "foldl techChild (base, tech) cs' = foldl techChild (base, tech) cs"
    by (simp only: techChildren d sd)
  have l: "foldl (passChild env td) st cs' = foldl (passChild env td) st cs" for td st
    using foldl_skip [where f = "passChild env td" and P = "\<lambda>c. GetNodeName c = ''pass''"
        and a = st, OF passChild_other] p
    by metis
  show "techniqueFrom env base (XMBElement n as cs') tech s
           = techniqueFrom env base (XMBElement n as cs) tech s"
    by (simp add: techniqueFrom_def t l)
  show "foldl (requireChild env base) u cs' = foldl (requireChild env base) u cs"
    using foldl_skip [where f = "requireChild env base" and P = "\<lambda>c. GetNodeName c = ''require''"
        and a = u, OF requireChild_other] q
    by metis
qed

lemma techniqueFrom_shaders:
  "map (\<lambda>pass. Some (shader pass)) (passes (fst (techniqueFrom env base T tech s)))
     = map (\<lambda>c. m_ProgramCache (snd (techniqueFrom env base T tech s))
                  (passKey (AddAll (defineTags (GetChildNodes T)) base) c))
         (filter (\<lambda>c. GetNodeName c = ''pass'') (GetChildNodes T))"
  using passes_shaders [of env "AddAll (defineTags (GetChildNodes T)) base" "[]" s "GetChildNodes T"]
  by (simp add: techniqueFrom_def techChildren case_prod_beta)

text \<open>
  C3. The first loop over the children of the chosen technique collects the defines of
  all its \<^verbatim>\<open>define\<close> children, in document order, on top of the base defines, and only
  then does the second loop come to the passes. Each pass adds the defines of its own
  \<^verbatim>\<open>define\<close> children, in document order, to the defines of the technique; an added pair
  overrides an earlier value of its name. The program of each pass is the one cached
  under the name of its shader and these defines, which depend on nothing of the other
  passes. Moving \<^verbatim>\<open>define\<close> children among the other children of the technique changes
  neither the technique built nor the state, nor what the \<^verbatim>\<open>require\<close> loop computes;
  and when the \<^verbatim>\<open>define\<close> children of the technique have different names, putting them
  in any other order leaves every pass with the same key.
\<close>

theorem define_layering:
  "fst (foldl techChild (base, tech) cs) = AddAll (defineTags cs) base
   \<and> fst (passElements env td tr Elements) = AddAll (defineTags Elements) td
   \<and> map_of (AddAll ps d) = map_of d ++ map_of (rev ps)
   \<and> map (\<lambda>pass. Some (shader pass)) (passes (fst (techniqueFrom env base T tech s)))
       = map (\<lambda>c. m_ProgramCache (snd (techniqueFrom env base T tech s))
                    (passKey (AddAll (defineTags (GetChildNodes T)) base) c))
           (filter (\<lambda>c. GetNodeName c = ''pass'') (GetChildNodes T))
   \<and> (defineTags cs' = defineTags cs
        \<and> filter (\<lambda>c. GetNodeName c \<noteq> ''define'') cs'
            = filter (\<lambda>c. GetNodeName c \<noteq> ''define'') cs \<longrightarrow>
        techniqueFrom env base (XMBElement n as cs') tech s
          = techniqueFrom env base (XMBElement n as cs) tech s
        \<and> foldl (requireChild env base) u cs' = foldl (requireChild env base) u cs)
   \<and> (wf_defines base \<and> distinct (map fst (defineTags cs))
        \<and> distinct (map fst (defineTags cs')) \<and> set (defineTags cs') = set (defineTags cs) \<longrightarrow>
        passKey (AddAll (defineTags cs') base) c = passKey (AddAll (defineTags cs) base) c)"
proof -
  have perm: "AddAll (defineTags cs') base = AddAll (defineTags cs) base"
    if w: "wf_defines base" and d: "distinct (map fst (defineTags cs))"
      and d': "distinct (map fst (defineTags cs'))"
      and s: "set (defineTags cs') = set (defineTags cs)"
  proof (rule wf_unique)
    show "wf_defines (AddAll (defineTags cs') base)" "wf_defines (AddAll (defineTags cs) base)"
      using w by (simp_all add: wf_AddAll)
    have "map_of (rev (defineTags cs')) = map_of (rev (defineTags cs))"
      using d d' s by (subst map_of_inject_set) (simp_all add: rev_map [symmetric])
    then show "map_of (AddAll (defineTags cs') base) = map_of (AddAll (defineTags cs) base)"
      by (simp add: map_of_AddAll)
  qed
  show ?thesis
    using techniqueFrom_reordered(1) [of cs' cs env base n as tech s]
      techniqueFrom_reordered(2) [of cs' cs env base u] perm
    by (simp add: techChildren passElements_defines map_of_AddAll techniqueFrom_shaders
        passKey_def)
qed

theorem define_layering_witness:
  "AddAll (defineTags layeredChildren) [] = [(''FOG'', ''1''), (''MODE'', ''1'')]
   \<and> map (passKey (AddAll (defineTags layeredChildren) []))
         (filter (\<lambda>c. GetNodeName c = ''pass'') layeredChildren)
       = [(''solid'', [(''FOG'', ''1''), (''MODE'', ''2'')]),
          (''solid'', [(''FOG'', ''1''), (''MODE'', ''1'')])]
   \<and> map_of (AddAll [(''MODE'', ''2'')] [(''FOG'', ''1''), (''MODE'', ''1'')]) ''MODE'' = Some ''2''
   \<and> techniqueFrom exampleEnv [] (XMBElement ''technique'' [] definesFirst) CShaderTechnique_new
         (CShaderManager_new exampleEnv)
       = techniqueFrom exampleEnv [] (XMBElement ''technique'' [] layeredChildren)
           CShaderTechnique_new (CShaderManager_new exampleEnv)
   \<and> map (\<lambda>pass. Some (shader pass))
         (passes (fst (techniqueFrom exampleEnv [] (XMBElement ''technique'' [] layeredChildren)
            CShaderTechnique_new (CShaderManager_new exampleEnv))))
       = [m_ProgramCache
            (snd (techniqueFrom exampleEnv [] (XMBElement ''technique'' [] layeredChildren)
               CShaderTechnique_new (CShaderManager_new exampleEnv)))
            (''solid'', [(''FOG'', ''1''), (''MODE'', ''2'')]),
          m_ProgramCache
            (snd (techniqueFrom exampleEnv [] (XMBElement ''technique'' [] layeredChildren)
               CShaderTechnique_new (CShaderManager_new exampleEnv)))
            (''solid'', [(''FOG'', ''1''), (''MODE'', ''1'')])]
   \<and> defineTags (rev layeredChildren) = [(''FOG'', ''1''), (''MODE'', ''1'')]
   \<and> passKey (AddAll (defineTags (rev layeredChildren)) [])
         (XMBElement ''pass'' [(''shader'', ''solid'')] [])
       = passKey (AddAll (defineTags layeredChildren) [])
           (XMBElement ''pass'' [(''shader'', ''solid'')] [])"
proof -
  have t: "defineTags layeredChildren = [(''MODE'', ''1''), (''FOG'', ''1'')]"
    "defineTags definesFirst = [(''MODE'', ''1''), (''FOG'', ''1'')]"
    "defineTags (rev layeredChildren) = [(''FOG'', ''1''), (''MODE'', ''1'')]"
    by (simp_all add: defineTags_def layeredChildren_def definesFirst_def GetNamedItem_def)
  have w: "wf_defines []" by (rule wf_Nil)
  have a: "AddAll [(''MODE'', ''1''), (''FOG'', ''1'')] [] = [(''FOG'', ''1''), (''MODE'', ''1'')]"
    by (simp add: AddAll_def)
  have f: "filter (\<lambda>c. GetNodeName c \<noteq> ''define'') definesFirst
             = filter (\<lambda>c. GetNodeName c \<noteq> ''define'') layeredChildren"
    by (simp add: layeredChildren_def definesFirst_def)
  have k: "map (passKey [(''FOG'', ''1''), (''MODE'', ''1'')])
             (filter (\<lambda>c. GetNodeName c = ''pass'') layeredChildren)
           = [(''solid'', [(''FOG'', ''1''), (''MODE'', ''2'')]),
              (''solid'', [(''FOG'', ''1''), (''MODE'', ''1'')])]"
    by (simp add: layeredChildren_def passKey_def defineTags_def GetNamedItem_def AddAll_def)
  have k': "map (\<lambda>c. F (passKey [(''FOG'', ''1''), (''MODE'', ''1'')] c))
             (filter (\<lambda>c. GetNodeName c = ''pass'') layeredChildren)
           = [F (''solid'', [(''FOG'', ''1''), (''MODE'', ''2'')]),
              F (''solid'', [(''FOG'', ''1''), (''MODE'', ''1'')])]" for F :: "CacheKey \<Rightarrow> nat option option"
    using arg_cong [OF k, of "map F"] by (simp add: o_def)
  show ?thesis
    using define_layering
      [of "[]" CShaderTechnique_new layeredChildren exampleEnv "[]" "[]" "[]"
          "[(''MODE'', ''2'')]" "[(''FOG'', ''1''), (''MODE'', ''1'')]"
          "XMBElement ''technique'' [] layeredChildren" "CShaderManager_new exampleEnv"
          definesFirst "''technique''" "[]" "(True, [])"]
      define_layering
      [of "[]" CShaderTechnique_new layeredChildren exampleEnv "[]" "[]" "[]"
          "[(''MODE'', ''2'')]" "[(''FOG'', ''1''), (''MODE'', ''1'')]"
          "XMBElement ''technique'' [] layeredChildren" "CShaderManager_new exampleEnv"
          "rev layeredChildren" "''technique''" "[]" "(True, [])"
          "XMBElement ''pass'' [(''shader'', ''solid'')] []"]
      t a f k k' w
    by (simp add: map_add_def insert_commute)
qed

subsection \<open>Events put before a trace stay in front\<close>

lemma prepend_fields [simp]:
  "m_ProgramCache (prepend p s) = m_ProgramCache s"
  "m_EffectCache (prepend p s) = m_EffectCache s"
  "m_HotloadFiles (prepend p s) = m_HotloadFiles s"
  "programs (prepend p s) = programs s"
  "techniques (prepend p s) = techniques s"
  "next_address (prepend p s) = next_address s"
  "trace (prepend p s) = p @ trace s"
  by (simp_all add: prepend_def)

lemma prepend_emit: "emit e (prepend p s) = prepend p (emit e s)"
  by (simp add: emit_def prepend_def)

lemma prepend_Add:
  "AddProgramFileDependency a path (prepend p s) = prepend p (AddProgramFileDependency a path s)"
  by (simp add: AddProgramFileDependency_def prepend_def)

lemma prepend_Adds:
  "foldl (\<lambda>s path. AddProgramFileDependency a path s) (prepend p s) paths
     = prepend p (foldl (\<lambda>s path. AddProgramFileDependency a path s) s paths)"
  by (induction paths arbitrary: s) (simp_all add: prepend_Add)

lemma condSkips_prefix:
  "condSkips env base cond (p @ tr)
     = (fst (condSkips env base cond tr), p @ snd (condSkips env base cond tr))"
  by (simp add: condSkips_def)

lemma vertexParam_prefix:
  "vertexParam env base (l, p @ tr) x
     = (fst (vertexParam env base (l, tr) x), p @ snd (vertexParam env base (l, tr) x))"
  by (simp add: vertexParam_def condSkips_prefix Let_def case_prod_beta)

lemma fragmentParam_prefix:
  "fragmentParam env base (l, p @ tr) x
     = (fst (fragmentParam env base (l, tr) x), p @ snd (fragmentParam env base (l, tr) x))"
  by (simp add: fragmentParam_def condSkips_prefix Let_def case_prod_beta)

lemma foldl_prefix:
  assumes "\<And>l tr x. f (l, p @ tr) x = (fst (f (l, tr) x), p @ snd (f (l, tr) x))"
  shows "foldl f (l, p @ tr) xs = (fst (foldl f (l, tr) xs), p @ snd (foldl f (l, tr) xs))"
proof (induction xs arbitrary: l tr)
  case Nil
  show ?case by simp
next
  case (Cons x xs)
  show ?case
    using Cons.IH [of "fst (f (l, tr) x)" "snd (f (l, tr) x)"]
    by (simp add: assms)
qed

lemma programChild_prefix:
  "programChild env base (l, p @ tr) x
     = (fst (programChild env base (l, tr) x), p @ snd (programChild env base (l, tr) x))"
  by (simp add: programChild_def Let_def
      foldl_prefix [where f = "vertexParam env base", OF vertexParam_prefix]
      foldl_prefix [where f = "fragmentParam env base", OF fragmentParam_prefix])

lemmas programChildren_prefix =
  foldl_prefix [where f = "programChild env base" for env base, OF programChild_prefix]

lemma NewProgram_prepend:
  "NewProgram env name base (prepend p s)
     = (fst (NewProgram env name base s), fst (snd (NewProgram env name base s)),
        prepend p (snd (snd (NewProgram env name base s))))"
proof (cases "Load env (''shaders/'' @ name @ ''.xml'')")
  case None
  then show ?thesis by (simp add: NewProgram_def prepend_emit)
next
  case (Some root)
  show ?thesis
  proof (cases "Validate env name root")
    case False
    then show ?thesis using Some by (simp add: NewProgram_def prepend_emit)
  next
    case True
    have s3: "s'\<lparr>programs := pr, next_address := n, trace := p @ tr\<rparr>
               = prepend p (s'\<lparr>programs := pr, next_address := n, trace := tr\<rparr>)" for s' pr n tr
      by (simp add: prepend_def)
    show ?thesis using Some True
      by (simp add: NewProgram_def prepend_emit Let_def case_prod_beta programChildren_prefix
          prepend_Adds [symmetric] s3 [symmetric])
         (simp add: prepend_def emit_def)
  qed
qed


lemma LoadProgram_prepend:
  "LoadProgram env name defs (prepend p s)
     = (fst (LoadProgram env name defs s), prepend p (snd (LoadProgram env name defs s)))"
proof (cases "m_ProgramCache s (name, defs)")
  case (Some h)
  then show ?thesis by (simp add: LoadProgram_def)
next
  case None
  have c: "(prepend p s')\<lparr>m_ProgramCache := m\<rparr> = prepend p (s'\<lparr>m_ProgramCache := m\<rparr>)" for s' m
    by (simp add: prepend_def)
  show ?thesis using None
    by (simp add: LoadProgram_def NewProgram_prepend case_prod_beta prepend_emit c)
qed

lemma blendTag_prefix:
  "blendTag env A b (p @ tr) = (fst (blendTag env A b tr), p @ snd (blendTag env A b tr))"
  by (simp add: blendTag_def Let_def case_prod_beta)

lemma passElement_prefix:
  "passElement env (pd, d, p @ tr) e
     = (fst (passElement env (pd, d, tr) e), fst (snd (passElement env (pd, d, tr) e)),
        p @ snd (snd (passElement env (pd, d, tr) e)))"
  by (simp add: passElement_def Let_def case_prod_beta blendTag_prefix)

lemma passElements_prefix_aux:
  "foldl (passElement env) (pd, d, p @ tr) es
     = (fst (foldl (passElement env) (pd, d, tr) es),
        fst (snd (foldl (passElement env) (pd, d, tr) es)),
        p @ snd (snd (foldl (passElement env) (pd, d, tr) es)))"
proof (induction es arbitrary: pd d tr)
  case Nil
  show ?case by simp
next
  case (Cons e es)
  obtain pd1 d1 tr1 where e: "passElement env (pd, d, tr) e = (pd1, d1, tr1)"
    by (cases "passElement env (pd, d, tr) e") auto
  show ?case using Cons.IH [of pd1 d1 tr1] e by (simp add: passElement_prefix)
qed

lemma passElements_prefix:
  "passElements env td (p @ tr) es
     = (fst (passElements env td tr es), fst (snd (passElements env td tr es)),
        p @ snd (snd (passElements env td tr es)))"
  by (simp add: passElements_def passElements_prefix_aux)

lemma passChild_prepend:
  "passChild env td (ps, prepend p s) c
     = (fst (passChild env td (ps, s) c), prepend p (snd (passChild env td (ps, s) c)))"
proof (cases "GetNodeName c = ''pass''")
  case False
  then show ?thesis by (simp add: passChild_def)
next
  case True
  have t: "(prepend p s)\<lparr>trace := p @ tr\<rparr> = prepend p (s\<lparr>trace := tr\<rparr>)" for tr
    by (simp add: prepend_def)
  show ?thesis using True
    by (simp add: passChild_def Let_def case_prod_beta passElements_prefix t LoadProgram_prepend)
qed

lemma passes_prepend:
  "foldl (passChild env td) (ps, prepend p s) cs
     = (fst (foldl (passChild env td) (ps, s) cs),
        prepend p (snd (foldl (passChild env td) (ps, s) cs)))"
proof (induction cs arbitrary: ps s)
  case Nil
  show ?case by simp
next
  case (Cons c cs)
  obtain ps1 s1 where e: "passChild env td (ps, s) c = (ps1, s1)"
    by (cases "passChild env td (ps, s) c") auto
  show ?case using Cons.IH [of ps1 s1] e by (simp add: passChild_prepend)
qed

lemma techniqueFrom_prepend:
  "techniqueFrom env base T tech (prepend p s)
     = (fst (techniqueFrom env base T tech s), prepend p (snd (techniqueFrom env base T tech s)))"
  by (simp add: techniqueFrom_def case_prod_beta passes_prepend)

subsection \<open>Choice of the technique\<close>

lemma requireChild_frame:
  "requireChild env base (u, tr) c
     = (u \<and> fst (requireChild env base (True, []) c),
        tr @ snd (requireChild env base (True, []) c))"
  by (simp add: requireChild_def Let_def)

lemma requireChildren_frame:
  "foldl (requireChild env base) (u, tr) cs
     = (u \<and> fst (foldl (requireChild env base) (True, []) cs),
        tr @ snd (foldl (requireChild env base) (True, []) cs))"
proof (induction cs arbitrary: u tr)
  case Nil
  show ?case by simp
next
  case (Cons c cs)
  show ?case
    using Cons.IH [of "u \<and> fst (requireChild env base (True, []) c)"
                      "tr @ snd (requireChild env base (True, []) c)"]
      Cons.IH [of "fst (requireChild env base (True, []) c)"
                  "snd (requireChild env base (True, []) c)"]
    by (simp add: requireChild_frame [of env base u tr c]
        requireChild_frame [of env base True "[]" c, symmetric])
qed

lemma techniqueCandidate_step:
  "techniqueCandidate env base (us, tr) T
     = (if techniqueUsable env base T then us @ [T] else us, tr @ techniqueEvents env base T)"
  by (simp add: techniqueCandidate_def techniqueUsable_def techniqueEvents_def case_prod_beta
      requireChildren_frame [of env base True tr])

lemma candidates:
  "foldl (techniqueCandidate env base) (us, tr) techs
     = (us @ filter (techniqueUsable env base) techs,
        tr @ concat (map (techniqueEvents env base) techs))"
  by (induction techs arbitrary: us tr) (simp_all add: techniqueCandidate_step)

lemma techniqueUsable_all:
  "techniqueUsable env base T = list_all (requireHolds env base) (GetChildNodes T)"
proof -
  have "fst (foldl (requireChild env base) (True, []) cs) = list_all (requireHolds env base) cs" for cs
  proof (induction cs)
    case Nil
    show ?case by simp
  next
    case (Cons c cs)
    show ?case
      using requireChildren_frame [of env base "fst (requireChild env base (True, []) c)"
          "snd (requireChild env base (True, []) c)" cs] Cons.IH
      by (simp add: requireHolds_def)
  qed
  then show ?thesis by (simp add: techniqueUsable_def)
qed

lemma techniqueEvents_tests:
  "techniqueEvents env base T = map TestConditional_call (testedContexts T)"
proof -
  have "snd (foldl (requireChild env base) (True, []) cs)
          = map TestConditional_call
              (map (\<lambda>c. GetNamedItem (GetAttributes c) ''context'')
                 (filter (\<lambda>c. GetNodeName c = ''require''
                            \<and> GetNamedItem (GetAttributes c) ''shaders'' \<noteq> ''arb''
                            \<and> GetNamedItem (GetAttributes c) ''shaders'' \<noteq> ''glsl''
                            \<and> GetNamedItem (GetAttributes c) ''context'' \<noteq> []) cs))" for cs
  proof (induction cs)
    case Nil
    show ?case by simp
  next
    case (Cons c cs)
    have s: "snd (requireChild env base (True, []) c)
               = (if GetNodeName c = ''require''
                     \<and> GetNamedItem (GetAttributes c) ''shaders'' \<noteq> ''arb''
                     \<and> GetNamedItem (GetAttributes c) ''shaders'' \<noteq> ''glsl''
                     \<and> GetNamedItem (GetAttributes c) ''context'' \<noteq> []
                  then [TestConditional_call (GetNamedItem (GetAttributes c) ''context'')]
                  else [])"
      by (simp add: requireChild_def Let_def)
    obtain u1 e1 where r: "requireChild env base (True, []) c = (u1, e1)"
      by (cases "requireChild env base (True, []) c") auto
    have "snd (foldl (requireChild env base) (True, []) (c # cs))
            = e1 @ snd (foldl (requireChild env base) (True, []) cs)"
      using requireChildren_frame [of env base u1 e1 cs] r by simp
    then show ?case using Cons.IH s r by simp
  qed
  then show ?thesis by (simp add: techniqueEvents_def testedContexts_def)
qed

lemma three_usable:
  "\<not> techniqueUsable exampleEnv [(''SECOND'', ''1''), (''THIRD'', ''1'')] firstTechnique"
  "techniqueUsable exampleEnv [(''SECOND'', ''1''), (''THIRD'', ''1'')] secondTechnique"
  "techniqueUsable exampleEnv [(''SECOND'', ''1''), (''THIRD'', ''1'')] thirdTechnique"
  "techniqueEvents exampleEnv [(''SECOND'', ''1''), (''THIRD'', ''1'')] firstTechnique
     = [TestConditional_call ''FIRST'']"
  "techniqueEvents exampleEnv [(''SECOND'', ''1''), (''THIRD'', ''1'')] secondTechnique
     = [TestConditional_call ''SECOND'']"
  "techniqueEvents exampleEnv [(''SECOND'', ''1''), (''THIRD'', ''1'')] thirdTechnique
     = [TestConditional_call ''THIRD'']"
  by (simp_all add: techniqueUsable_def techniqueEvents_def requireChild_def firstTechnique_def
      secondTechnique_def thirdTechnique_def exampleEnv_def GetNamedItem_def Let_def)


text \<open>
  C2 as amended. A candidate is usable exactly when each of its children holds as a
  requirement, and the calls its \<^verbatim>\<open>require\<close> loop makes are the tests of its contexts.
  When the document loads and its candidates are some unusable ones, then a usable
  candidate \<open>T\<close>, then any others, \<open>NewEffect\<close> returns true with the technique built from
  \<open>T\<close> alone: the technique and the state are those that the two loops over \<open>T\<close> give
  from the state before the call, whatever the later candidates are; only the trace
  shows them, for it holds, after the load of the document and before the calls of the
  building, the tests of the contexts of all the candidates, the later ones included.
  When no candidate is usable, \<open>NewEffect\<close> warns ``Can't find a usable technique'',
  returns false and leaves the technique as it was.
\<close>

theorem first_usable_technique:
  "techniqueUsable env base T = list_all (requireHolds env base) (GetChildNodes T)
   \<and> techniqueEvents env base T = map TestConditional_call (testedContexts T)
   \<and> (Load env (''shaders/effects/'' @ name @ ''.xml'') = Some Root
        \<and> GetChildNodes Root = before @ [T] @ after
        \<and> (\<forall>B\<in>set before. \<not> techniqueUsable env base B)
        \<and> techniqueUsable env base T \<longrightarrow>
        NewEffect env name base tech s
          = (True, fst (techniqueFrom env base T tech (s\<lparr>trace := []\<rparr>)),
             prepend (trace s @ [XeroFile_Load (''shaders/effects/'' @ name @ ''.xml'')]
                        @ concat (map (techniqueEvents env base) (before @ [T] @ after)))
               (snd (techniqueFrom env base T tech (s\<lparr>trace := []\<rparr>)))))
   \<and> (Load env (''shaders/effects/'' @ name @ ''.xml'') = Some Root
        \<and> (\<forall>B\<in>set (GetChildNodes Root). \<not> techniqueUsable env base B) \<longrightarrow>
        NewEffect env name base tech s
          = (False, tech,
             s\<lparr>trace := trace s @ [XeroFile_Load (''shaders/effects/'' @ name @ ''.xml'')]
                  @ concat (map (techniqueEvents env base) (GetChildNodes Root))
                  @ [debug_warn ''Can't find a usable technique'']\<rparr>))"
proof -
  let ?path = "''shaders/effects/'' @ name @ ''.xml''"
  have chosen: "NewEffect env name base tech s
          = (True, fst (techniqueFrom env base T tech (s\<lparr>trace := []\<rparr>)),
             prepend (trace s @ [XeroFile_Load ?path]
                        @ concat (map (techniqueEvents env base) (before @ [T] @ after)))
               (snd (techniqueFrom env base T tech (s\<lparr>trace := []\<rparr>))))"
    if l: "Load env ?path = Some Root" and c: "GetChildNodes Root = before @ [T] @ after"
      and b: "\<forall>B\<in>set before. \<not> techniqueUsable env base B" and t: "techniqueUsable env base T"
  proof -
    have f: "filter (techniqueUsable env base) (before @ [T] @ after)
               = T # filter (techniqueUsable env base) after"
      using b t by (simp add: filter_empty_conv)
    have p: "(emit e s)\<lparr>trace := tr\<rparr> = prepend tr (s\<lparr>trace := []\<rparr>)" for e tr
      by (simp add: emit_def prepend_def)
    have cand: "foldl (techniqueCandidate env base) ([], tr) (GetChildNodes Root)
                  = (T # filter (techniqueUsable env base) after,
                     tr @ concat (map (techniqueEvents env base) (before @ [T] @ after)))" for tr
      unfolding c candidates f by simp
    show ?thesis
      using l
      by (simp add: NewEffect_def Let_def cand p techniqueFrom_prepend case_prod_beta)
  qed
  have none: "NewEffect env name base tech s
          = (False, tech,
             s\<lparr>trace := trace s @ [XeroFile_Load ?path]
                  @ concat (map (techniqueEvents env base) (GetChildNodes Root))
                  @ [debug_warn ''Can't find a usable technique'']\<rparr>)"
    if l: "Load env ?path = Some Root"
      and b: "\<forall>B\<in>set (GetChildNodes Root). \<not> techniqueUsable env base B"
  proof -
    have f: "filter (techniqueUsable env base) (GetChildNodes Root) = []"
      using b by (simp add: filter_empty_conv)
    show ?thesis
      using l by (simp add: NewEffect_def Let_def candidates f emit_def)
  qed
  show ?thesis
    using techniqueUsable_all [of env base T] techniqueEvents_tests [of env base T] chosen none
    by blast
qed

theorem first_usable_technique_counterexample:
  "\<not> techniqueUsable exampleEnv [(''SECOND'', ''1''), (''THIRD'', ''1'')] firstTechnique
   \<and> techniqueUsable exampleEnv [(''SECOND'', ''1''), (''THIRD'', ''1'')] secondTechnique
   \<and> techniqueUsable exampleEnv [(''SECOND'', ''1''), (''THIRD'', ''1'')] thirdTechnique
   \<and> Load exampleEnv ''shaders/effects/three.xml''
       = Some (XMBElement ''effect'' [] [firstTechnique, secondTechnique, thirdTechnique])
   \<and> testedContexts thirdTechnique = [''THIRD'']
   \<and> trace (snd (snd (NewEffect exampleEnv ''three'' [(''SECOND'', ''1''), (''THIRD'', ''1'')]
        CShaderTechnique_new (CShaderManager_new exampleEnv))))
       = [XeroFile_Load ''shaders/effects/three.xml'', TestConditional_call ''FIRST'',
          TestConditional_call ''SECOND'', TestConditional_call ''THIRD'',
          XeroFile_Load ''shaders/shadow.xml'', ValidateEncoded ''shadow'', Reload 0]"
proof -
  have l: "Load exampleEnv ''shaders/effects/three.xml''
       = Some (XMBElement ''effect'' [] [firstTechnique, secondTechnique, thirdTechnique])"
    by (simp add: exampleEnv_def exampleLoad_def threeTechniques_def)
  have c: "testedContexts thirdTechnique = [''THIRD'']"
    by (simp add: testedContexts_def thirdTechnique_def GetNamedItem_def)
  have t: "trace (snd (snd (NewEffect exampleEnv ''three'' [(''SECOND'', ''1''), (''THIRD'', ''1'')]
        CShaderTechnique_new (CShaderManager_new exampleEnv))))
       = [XeroFile_Load ''shaders/effects/three.xml'', TestConditional_call ''FIRST'',
          TestConditional_call ''SECOND'', TestConditional_call ''THIRD'',
          XeroFile_Load ''shaders/shadow.xml'', ValidateEncoded ''shadow'', Reload 0]"
    by (simp add: NewEffect_def techniqueCandidate_def requireChild_def techniqueFrom_def
        techChild_def passChild_def passElements_def LoadProgram_def NewProgram_def
        exampleEnv_def exampleLoad_def threeTechniques_def firstTechnique_def
        secondTechnique_def thirdTechnique_def shadowSampler_def programChild_def
        vertexParam_def fragmentParam_def condSkips_def samplerType_def constructProgram_def
        programFiles_def AddProgramFileDependency_def emit_def CShaderManager_new_def
        CShaderTechnique_new_def GetNamedItem_def Let_def decimal_def)
  show ?thesis using three_usable l c t by simp
qed

theorem first_usable_technique_witness:
  "Load exampleEnv ''shaders/effects/three.xml'' = Some threeTechniques
   \<and> GetChildNodes threeTechniques = [firstTechnique] @ [secondTechnique] @ [thirdTechnique]
   \<and> \<not> techniqueUsable exampleEnv [(''SECOND'', ''1''), (''THIRD'', ''1'')] firstTechnique
   \<and> techniqueUsable exampleEnv [(''SECOND'', ''1''), (''THIRD'', ''1'')] secondTechnique
   \<and> NewEffect exampleEnv ''three'' [(''SECOND'', ''1''), (''THIRD'', ''1'')]
        CShaderTechnique_new (CShaderManager_new exampleEnv)
       = (True,
          fst (techniqueFrom exampleEnv [(''SECOND'', ''1''), (''THIRD'', ''1'')] secondTechnique
                 CShaderTechnique_new (CShaderManager_new exampleEnv)),
          prepend [XeroFile_Load ''shaders/effects/three.xml'', TestConditional_call ''FIRST'',
                   TestConditional_call ''SECOND'', TestConditional_call ''THIRD'']
            (snd (techniqueFrom exampleEnv [(''SECOND'', ''1''), (''THIRD'', ''1'')]
                    secondTechnique CShaderTechnique_new (CShaderManager_new exampleEnv))))
   \<and> NewEffect exampleEnv ''three'' [] CShaderTechnique_new (CShaderManager_new exampleEnv)
       = (False, CShaderTechnique_new,
          (CShaderManager_new exampleEnv)
            \<lparr>trace := [XeroFile_Load ''shaders/effects/three.xml'', TestConditional_call ''FIRST'',
                       TestConditional_call ''SECOND'', TestConditional_call ''THIRD'',
                       debug_warn ''Can't find a usable technique'']\<rparr>)"
proof -
  have l: "Load exampleEnv (''shaders/effects/'' @ ''three'' @ ''.xml'') = Some threeTechniques"
    by (simp add: exampleEnv_def exampleLoad_def)
  have c: "GetChildNodes threeTechniques = [firstTechnique] @ [secondTechnique] @ [thirdTechnique]"
    by (simp add: threeTechniques_def)
  have n: "trace (CShaderManager_new exampleEnv) = []"
    "(CShaderManager_new exampleEnv)\<lparr>trace := []\<rparr> = CShaderManager_new exampleEnv"
    by (simp_all add: CShaderManager_new_def exampleEnv_def)
  have u: "\<forall>B\<in>set (GetChildNodes threeTechniques). \<not> techniqueUsable exampleEnv [] B"
    "techniqueEvents exampleEnv [] firstTechnique = [TestConditional_call ''FIRST'']"
    "techniqueEvents exampleEnv [] secondTechnique = [TestConditional_call ''SECOND'']"
    "techniqueEvents exampleEnv [] thirdTechnique = [TestConditional_call ''THIRD'']"
    by (simp_all add: techniqueUsable_def techniqueEvents_def requireChild_def firstTechnique_def
      secondTechnique_def thirdTechnique_def threeTechniques_def exampleEnv_def GetNamedItem_def
      Let_def)
  have b: "\<forall>B\<in>set [firstTechnique].
             \<not> techniqueUsable exampleEnv [(''SECOND'', ''1''), (''THIRD'', ''1'')] B"
    by (simp add: three_usable)
  show ?thesis
    using first_usable_technique
      [of exampleEnv "[(''SECOND'', ''1''), (''THIRD'', ''1'')]" secondTechnique "''three''"
          threeTechniques "[firstTechnique]" "[thirdTechnique]" CShaderTechnique_new
          "CShaderManager_new exampleEnv"]
      first_usable_technique
      [of exampleEnv "[]" secondTechnique "''three''"
          threeTechniques "[firstTechnique]" "[thirdTechnique]" CShaderTechnique_new
          "CShaderManager_new exampleEnv"]
      l c n u b three_usable
    by simp
qed

end
